(* ===== verification/Nostr_Prelude.thy ===== *)
theory Nostr_Prelude
  imports Main "HOL-Library.Word"
begin

text \<open>
  The vocabulary every component of the relay model shares: machine integers at their C++
  width, strings of bytes and their conversion to 8-bit words, the contracts (locales) of the
  encoders and decoders, and generic facts on lists and words that the component theories
  use as simplification rules.

  A C++ \<open>char\<close> is a HOL \<open>char\<close> (one byte); where the code does arithmetic on a \<open>char\<close> it is
  read as a signed 8-bit number (\<open>sint (byte_of c)\<close>), where it casts to \<open>unsigned char\<close> as the
  8-bit word \<open>byte_of c\<close>. A \<open>std::string\<close> is a list of such characters.
\<close>

unbundle bit_operations_syntax

section \<open>Types\<close>

type_synonym u8 = "8 word"
type_synonym u16 = "16 word"
type_synonym u32 = "32 word"
type_synonym u64 = "64 word"
type_synonym bytes = "u8 list"
type_synonym time_t = "64 word" \<comment> \<open>a signed 64-bit count of seconds, read by \<open>sint\<close>\<close>

text \<open>The simplification rules that evaluate byte and character conversions.\<close>

named_theorems byte_simps

section \<open>Bytes and characters\<close>

definition byte_of :: "char \<Rightarrow> u8" where
  "byte_of c = of_char c"

definition char_of_byte :: "u8 \<Rightarrow> char" where
  "char_of_byte b = char_of (unat b)"

lemma unat_byte_of [byte_simps]: "unat (byte_of c) = of_char c"
proof -
  have "(of_char c :: u8) = of_nat (of_char c)"
    by (simp add: of_nat_of_char)
  then show ?thesis
    using nat_of_char_less_256 [of c]
    by (simp add: byte_of_def unat_of_nat)
qed

lemma char_of_byte_of [simp]: "char_of_byte (byte_of c) = c"
  by (simp add: char_of_byte_def unat_byte_of)

lemma byte_of_char_of_byte [simp]: "byte_of (char_of_byte b) = b"
proof -
  have "unat b < 256"
    using unsigned_less [of b] by simp
  then have "unat (byte_of (char_of_byte b)) = unat b"
    by (simp add: char_of_byte_def unat_byte_of)
  then show ?thesis
    by (simp only: word_unat_eq_iff)
qed

lemma byte_of_inject [simp]: "byte_of c = byte_of d \<longleftrightarrow> c = d"
  by (metis char_of_byte_of)

lemma char_of_byte_inject [simp]: "char_of_byte b = char_of_byte c \<longleftrightarrow> b = c"
  by (metis byte_of_char_of_byte)

section \<open>Checks that throw\<close>

text \<open>
  A check is \<open>None\<close> when it passes and \<open>Some e\<close> when it throws \<open>e\<close>; a sequence of checks throws
  what the first failing one throws.
\<close>

fun first_throw :: "'e option list \<Rightarrow> 'e option" where
  "first_throw [] = None"
| "first_throw (None # cs) = first_throw cs"
| "first_throw (Some e # cs) = Some e"

lemma first_throw_None [simp]: "first_throw cs = None \<longleftrightarrow> (\<forall>c \<in> set cs. c = None)"
  by (induction cs rule: first_throw.induct) auto

lemma first_throw_Some_in: "first_throw cs = Some e \<Longrightarrow> Some e \<in> set cs"
  by (induction cs rule: first_throw.induct) auto

section \<open>Words below a bound\<close>

text \<open>
  A word below a numeral is one of finitely many: the case splits on hex digits, five-bit
  symbols and checksum carries go through these two facts.
\<close>

lemma word_below_enum:
  assumes "unat (b :: 'a::len word) < n"
  shows "b \<in> set (map of_nat [0..<n])"
proof -
  have "b = of_nat (unat b)" by simp
  with assms show ?thesis by (metis atLeastLessThan_iff image_eqI le0 list.set_map set_upt)
qed

lemma nibble_cases:
  assumes "(b :: u8) \<le> 15"
  shows "b \<in> {0, 1, 2, 3, 4, 5, 6, 7, 8, 9, 10, 11, 12, 13, 14, 15}"
proof -
  have "unat b < 16" using assms by (simp add: word_le_nat_alt)
  from word_below_enum [OF this] show ?thesis by (simp add: upt_rec)
qed

lemma drop_bit_4_u8_le: "drop_bit 4 (b :: u8) \<le> 15"
proof -
  have "unat b < 256" using unsigned_less [of b] by simp
  then have "unat b div 16 \<le> 15" by simp
  then show ?thesis
    by (simp add: word_le_nat_alt drop_bit_eq_div unat_div_distrib)
qed

lemma and_15_u8: "(b :: u8) AND 15 = take_bit 4 b"
  by (simp add: take_bit_eq_mask mask_eq_exp_minus_1)

lemma and_15_u8_le: "(b :: u8) AND 15 \<le> 15"
  by (rule word_and_le1)

lemma xor_eq_0_iff [simp]: "(a :: 'a::len word) XOR b = 0 \<longleftrightarrow> a = b"
proof
  assume "a XOR b = 0"
  then have "(a XOR b) XOR b = 0 XOR b" by simp
  then show "a = b" by (simp add: xor.assoc)
qed simp

lemma nibbles_join:
  "push_bit 4 (drop_bit 4 (b :: u8)) OR (b AND 15) = b"
  by (rule bit_word_eqI)
    (auto simp: and_15_u8 bit_or_iff bit_take_bit_iff bit_push_bit_iff bit_drop_bit_eq)

end
