(* ===== verification/Checksum_Register.thy ===== *)
theory Checksum_Register
  imports Nostr_Prelude
begin

text \<open>
  The interface of a shift-register checksum: a state word, a step that absorbs one symbol, and
  the two laws every code over GF(2) gives, namely that the step is linear and that absorbing a
  zero symbol never loses a non-zero state. From these alone follow that a trailing block of
  symbols can be chosen to reach any state it can encode, and that a single wrong symbol always
  changes the final state. The bech32 \<open>polymod\<close> is the model's instance.
\<close>

unbundle bit_operations_syntax

locale checksum_register =
  fixes step :: "'a::len word \<Rightarrow> 'b::len word \<Rightarrow> 'a word"
    and good :: "'a word \<Rightarrow> bool"
  assumes step_xor: "step (a XOR b) (v XOR w) = step a v XOR step b w"
    and good_step: "good a \<Longrightarrow> good (step a v)"
    and step_kernel: "good a \<Longrightarrow> step a 0 = 0 \<Longrightarrow> a = 0"
begin

lemma step_zero [simp]: "step 0 0 = 0"
  using step_xor [of 0 0 0 0] by simp

lemma fold_good: "good a \<Longrightarrow> good (fold (\<lambda>v s. step s v) vs a)"
  by (induction vs arbitrary: a) (auto intro: good_step)

text \<open>Absorbing a block is absorbing zeros, corrected by what the block does to the zero state.\<close>

lemma fold_split:
  "fold (\<lambda>v s. step s v) vs (a XOR b)
     = fold (\<lambda>v s. step s v) (replicate (length vs) 0) a XOR fold (\<lambda>v s. step s v) vs b"
proof (induction vs arbitrary: a b)
  case (Cons v vs)
  have "step (a XOR b) v = step a 0 XOR step b v"
    using step_xor [of a b 0 v] by simp
  with Cons show ?case by simp
qed simp

lemma fold_zeros:
  "fold (\<lambda>v s. step s v) vs a
     = fold (\<lambda>v s. step s v) (replicate (length vs) 0) a XOR fold (\<lambda>v s. step s v) vs 0"
  using fold_split [of vs a 0] by simp

lemma fold_same_input:
  "fold (\<lambda>v s. step s v) vs a XOR fold (\<lambda>v s. step s v) vs b
     = fold (\<lambda>v s. step s v) (replicate (length vs) 0) (a XOR b)"
proof (induction vs arbitrary: a b)
  case (Cons v vs)
  have "step a v XOR step b v = step (a XOR b) 0"
    using step_xor [of a b v v] by simp
  with Cons [of "step a v" "step b v"] show ?case by simp
qed simp

lemma fold_zeros_kernel:
  "good a \<Longrightarrow> fold (\<lambda>v s. step s v) (replicate n 0) a = 0 \<Longrightarrow> a = 0"
proof (induction n arbitrary: a)
  case (Suc n)
  then have "step a 0 = 0" by (simp add: good_step)
  with Suc.prems(1) show ?case by (rule step_kernel)
qed simp

text \<open>Two states that differ still differ after any common input.\<close>

lemma fold_distinguishes:
  assumes "good (a XOR b)" "a \<noteq> b"
  shows "fold (\<lambda>v s. step s v) vs a \<noteq> fold (\<lambda>v s. step s v) vs b"
proof
  assume "fold (\<lambda>v s. step s v) vs a = fold (\<lambda>v s. step s v) vs b"
  then have "fold (\<lambda>v s. step s v) (replicate (length vs) 0) (a XOR b) = 0"
    by (simp only: xor_self_eq flip: fold_same_input)
  then have "a XOR b = 0" by (rule fold_zeros_kernel [OF assms(1)])
  with assms(2) show False by simp
qed

text \<open>One symbol replaced by another, anywhere in the input.\<close>

lemma single_error_difference:
  assumes "i < length vs"
  shows "fold (\<lambda>v s. step s v) (vs[i := v]) a XOR fold (\<lambda>v s. step s v) vs a
    = fold (\<lambda>v s. step s v) (replicate (length vs - Suc i) 0) (step 0 (v XOR vs ! i))"
proof -
  let ?s = "fold (\<lambda>v s. step s v) (take i vs) a"
  let ?rest = "drop (Suc i) vs"
  have eq: "step ?s v XOR step ?s (vs ! i) = step 0 (v XOR vs ! i)"
    using step_xor [of ?s ?s v "vs ! i"] by simp
  have "fold (\<lambda>v s. step s v) vs a = fold (\<lambda>v s. step s v) ?rest (step ?s (vs ! i))"
    by (subst id_take_nth_drop [OF assms]) simp
  moreover have "fold (\<lambda>v s. step s v) (vs[i := v]) a
      = fold (\<lambda>v s. step s v) ?rest (step ?s v)"
    using assms by (simp add: upd_conv_take_nth_drop)
  ultimately show ?thesis
    using fold_same_input [of ?rest "step ?s v" "step ?s (vs ! i)"] by (simp add: eq)
qed

lemma single_error_detected:
  assumes "i < length vs" "good (step 0 (v XOR vs ! i))" "step 0 (v XOR vs ! i) \<noteq> 0"
  shows "fold (\<lambda>v s. step s v) (vs[i := v]) a XOR fold (\<lambda>v s. step s v) vs a \<noteq> 0"
  unfolding single_error_difference [OF assms(1)]
  using fold_zeros_kernel [OF assms(2)] assms(3) by blast

end

end
