(* ===== verification/Nostr_Codec.thy ===== *)
theory Nostr_Codec
  imports Nostr_Prelude
begin

text \<open>
  The contracts of the relay's encoders and decoders, stated once. \<open>codec\<close> is a decoder that
  inverts an encoder on a whole input (hexadecimal identifiers, the bech32 data part, npub and
  note strings); \<open>stream_codec\<close> is a reader that consumes exactly what the writer produced and
  leaves the rest of the input to the next reader (the fields of a stored event). What follows
  from each contract alone is proved here; the theories of the components interpret the
  locales on their own definitions.
\<close>

section \<open>Whole-input codecs\<close>

locale codec =
  fixes enc :: "'a \<Rightarrow> 'b"
    and dec :: "'b \<Rightarrow> 'a option"
    and ok :: "'a \<Rightarrow> bool"
  assumes dec_enc: "ok x \<Longrightarrow> dec (enc x) = Some x"
begin

lemma enc_eq_iff: "ok x \<Longrightarrow> ok y \<Longrightarrow> enc x = enc y \<longleftrightarrow> x = y"
  by (metis dec_enc option.inject)

lemma enc_inj_on: "inj_on enc (Collect ok)"
  by (rule inj_onI) (simp add: enc_eq_iff)

lemma dec_only_image: "ok x \<Longrightarrow> dec s = None \<Longrightarrow> s \<noteq> enc x"
  by (auto simp: dec_enc)

end

section \<open>Readers over a byte stream\<close>

locale stream_codec =
  fixes wr :: "'a \<Rightarrow> 'b list"
    and rd :: "'b list \<Rightarrow> 'a \<times> 'b list"
    and ok :: "'a \<Rightarrow> bool"
  assumes rd_wr: "ok x \<Longrightarrow> rd (wr x @ rest) = (x, rest)"

text \<open>A counted sequence of readings, the loop both the tags and their extra values use.\<close>

fun read_n :: "('b list \<Rightarrow> 'a \<times> 'b list) \<Rightarrow> nat \<Rightarrow> 'b list \<Rightarrow> 'a list \<times> 'b list" where
  "read_n rd 0 s = ([], s)"
| "read_n rd (Suc n) s =
     (let (x, s1) = rd s; (xs, s2) = read_n rd n s1 in (x # xs, s2))"

context stream_codec
begin

lemma read_n_wr:
  assumes "\<forall>x \<in> set xs. ok x"
  shows "read_n rd (length xs) (concat (map wr xs) @ rest) = (xs, rest)"
  using assms by (induction xs) (auto simp: rd_wr)

lemma wr_prefix_free:
  assumes "ok x" "ok y" "wr x @ s = wr y @ t"
  shows "x = y \<and> s = t"
  by (metis assms rd_wr prod.inject)

end

sublocale stream_codec \<subseteq> whole: codec wr "\<lambda>s. Some (fst (rd s))" ok
proof unfold_locales
  fix x assume "ok x"
  then have "rd (wr x @ []) = (x, [])" by (rule rd_wr)
  then show "Some (fst (rd (wr x))) = Some x" by simp
qed

end
