(* ===== verification/Bech32_Lib.thy ===== *)
theory Bech32_Lib
  imports Checksum_Register Nostr_Codec
begin

text \<open>
  \<^verbatim>\<open>src/src/nostr_server/bech32.cpp\<close> (the C++ part) with the types and limits of \<^verbatim>\<open>bech32.h\<close>:
  encoding and decoding of bech32 and bech32m strings, every check of the code in its order, a
  thrown \<open>runtime_error\<close> being a value of \<open>b32_error\<close>. The character classes of the C library
  (\<open>isupper\<close>, \<open>islower\<close>, \<open>tolower\<close>) are those of the "C" locale.

  The lemmas and properties are in \<open>Bech32_Checksum\<close> and \<open>Bech32_Roundtrip\<close>.
\<close>

unbundle bit_operations_syntax

section \<open>Types and limits\<close>

datatype encoding = Invalid | Bech32 | Bech32m

record DecodedResult =
  dr_encoding :: encoding
  dr_hrp :: string
  dr_dp :: bytes

definition separator :: char where "separator = CHR ''1''"

definition VALID_CHARSET_SIZE :: nat where "VALID_CHARSET_SIZE = 32"
definition MIN_BECH32_CHAR_VALUE :: int where "MIN_BECH32_CHAR_VALUE = 33"
definition MAX_BECH32_CHAR_VALUE :: int where "MAX_BECH32_CHAR_VALUE = 126"
definition MIN_HRP_LENGTH :: nat where "MIN_HRP_LENGTH = 1"
definition MAX_HRP_LENGTH :: nat where "MAX_HRP_LENGTH = 83"
definition SEPARATOR_LENGTH :: nat where "SEPARATOR_LENGTH = 1"
definition CHECKSUM_LENGTH :: nat where "CHECKSUM_LENGTH = 6"
definition MIN_BECH32_LENGTH :: nat where "MIN_BECH32_LENGTH = 8"
definition MAX_BECH32_LENGTH :: nat where "MAX_BECH32_LENGTH = 90"

lemmas bech32_limits =
  VALID_CHARSET_SIZE_def MIN_BECH32_CHAR_VALUE_def MAX_BECH32_CHAR_VALUE_def
  MIN_HRP_LENGTH_def MAX_HRP_LENGTH_def SEPARATOR_LENGTH_def CHECKSUM_LENGTH_def
  MIN_BECH32_LENGTH_def MAX_BECH32_LENGTH_def

text \<open>One constructor per \<open>throw std::runtime_error\<close>.\<close>

datatype b32_error =
    MixedCase                 \<comment> \<open>bech32 string is mixed case\<close>
  | ValueOutOfRange           \<comment> \<open>bech32 string has value out of range\<close>
  | StringTooLong             \<comment> \<open>bech32 string too long\<close>
  | StringTooShort            \<comment> \<open>bech32 string too short\<close>
  | NoSeparator               \<comment> \<open>bech32 string is missing separator character\<close>
  | DataCharOutOfRange        \<comment> \<open>data part contains character value out of range\<close>
  | DataInvalidChar           \<comment> \<open>data part contains invalid character\<close>
  | HrpTooShort               \<comment> \<open>HRP must be at least one character\<close>
  | HrpTooLong                \<comment> \<open>HRP must be less than 84 characters\<close>
  | DpTooShort                \<comment> \<open>data part must be at least six characters\<close>
  | DataValueOutOfRange       \<comment> \<open>data value is out of range\<close>
  | BothPartsTooLong          \<comment> \<open>length of hrp + length of dp is too large\<close>

section \<open>Character sets\<close>

definition charset :: string where
  "charset = ''qpzry9x8gf2tvdw0s3jn54khce6mua7l''"

definition reverse_charset :: "int list" where
  "reverse_charset =
    [-1, -1, -1, -1, -1, -1, -1, -1, -1, -1, -1, -1, -1, -1, -1, -1,
     -1, -1, -1, -1, -1, -1, -1, -1, -1, -1, -1, -1, -1, -1, -1, -1,
     -1, -1, -1, -1, -1, -1, -1, -1, -1, -1, -1, -1, -1, -1, -1, -1,
     15, -1, 10, 17, 21, 20, 26, 30,  7,  5, -1, -1, -1, -1, -1, -1,
     -1, 29, -1, 24, 13, 25,  9,  8, 23, -1, 18, 22, 31, 27, 19, -1,
      1,  0,  3, 16, 11, 28, 12, 14,  6,  4,  2, -1, -1, -1, -1, -1,
     -1, 29, -1, 24, 13, 25,  9,  8, 23, -1, 18, 22, 31, 27, 19, -1,
      1,  0,  3, 16, 11, 28, 12, 14,  6,  4,  2, -1, -1, -1, -1, -1]"

definition c_isupper :: "char \<Rightarrow> bool" where
  "c_isupper c \<longleftrightarrow> 65 \<le> byte_of c \<and> byte_of c \<le> 90"

definition c_islower :: "char \<Rightarrow> bool" where
  "c_islower c \<longleftrightarrow> 97 \<le> byte_of c \<and> byte_of c \<le> 122"

definition c_tolower :: "char \<Rightarrow> char" where
  "c_tolower c = (if c_isupper c then char_of_byte (byte_of c + 32) else c)"

section \<open>The checks on a string\<close>

definition rejectBStringMixedCase :: "string \<Rightarrow> b32_error option" where
  "rejectBStringMixedCase bs =
     (let atLeastOneUpper = list_ex c_isupper bs; atLeastOneLower = list_ex c_islower bs
      in if atLeastOneUpper \<and> atLeastOneLower then Some MixedCase else None)"

definition rejectBStringValuesOutOfRange :: "string \<Rightarrow> b32_error option" where
  "rejectBStringValuesOutOfRange bs =
     (if list_ex (\<lambda>ch. sint (byte_of ch) < MIN_BECH32_CHAR_VALUE
                     \<or> sint (byte_of ch) > MAX_BECH32_CHAR_VALUE) bs
      then Some ValueOutOfRange else None)"

definition rejectBStringTooLong :: "string \<Rightarrow> b32_error option" where
  "rejectBStringTooLong bs =
     (if length bs > MAX_BECH32_LENGTH then Some StringTooLong else None)"

definition rejectBStringTooShort :: "string \<Rightarrow> b32_error option" where
  "rejectBStringTooShort bs =
     (if length bs < MIN_BECH32_LENGTH then Some StringTooShort else None)"

definition rejectBStringWithNoSeparator :: "string \<Rightarrow> b32_error option" where
  "rejectBStringWithNoSeparator bs =
     (if \<not> list_ex (\<lambda>ch. ch = separator) bs then Some NoSeparator else None)"

definition rejectBStringThatIsntWellFormed :: "string \<Rightarrow> b32_error option" where
  "rejectBStringThatIsntWellFormed bs =
     first_throw
       [rejectBStringTooShort bs, rejectBStringTooLong bs, rejectBStringMixedCase bs,
        rejectBStringValuesOutOfRange bs, rejectBStringWithNoSeparator bs]"

section \<open>Splitting a string\<close>

text \<open>\<open>find_last_of\<close>: \<open>None\<close> is \<open>npos\<close>, the largest \<open>uint64_t\<close>, so \<open>pos + 1\<close> is then 0.\<close>

fun find_last_of :: "char \<Rightarrow> string \<Rightarrow> nat option" where
  "find_last_of c [] = None"
| "find_last_of c (x # xs) =
     (case find_last_of c xs of
        Some i \<Rightarrow> Some (Suc i)
      | None \<Rightarrow> if x = c then Some 0 else None)"

definition findSeparatorPosition :: "string \<Rightarrow> nat option" where
  "findSeparatorPosition bs = find_last_of separator bs"

definition extractHumanReadablePart :: "string \<Rightarrow> string" where
  "extractHumanReadablePart bs =
     (case findSeparatorPosition bs of Some pos \<Rightarrow> take pos bs | None \<Rightarrow> bs)"

definition extractDataPart :: "string \<Rightarrow> bytes" where
  "extractDataPart bs =
     map byte_of (case findSeparatorPosition bs of
                    Some pos \<Rightarrow> drop (Suc pos) bs | None \<Rightarrow> bs)"

definition convertToLowercase :: "string \<Rightarrow> string" where
  "convertToLowercase s = map c_tolower s"

fun mapDP :: "bytes \<Rightarrow> b32_error + bytes" where
  "mapDP [] = Inr []"
| "mapDP (c # cs) =
     (if unat c > 127 then Inl DataCharOutOfRange
      else let d = reverse_charset ! unat c
           in if d = -1 then Inl DataInvalidChar
              else case mapDP cs of Inl e \<Rightarrow> Inl e | Inr ds \<Rightarrow> Inr (word_of_int d # ds))"

fun mapToCharset :: "bytes \<Rightarrow> b32_error + string" where
  "mapToCharset [] = Inr []"
| "mapToCharset (c # cs) =
     (if unat c > VALID_CHARSET_SIZE - 1 then Inl DataInvalidChar
      else case mapToCharset cs of
             Inl e \<Rightarrow> Inl e | Inr s \<Rightarrow> Inr (charset ! unat c # s))"

section \<open>The checksum\<close>

definition expandHrp :: "string \<Rightarrow> bytes" where
  "expandHrp hrp =
     map (\<lambda>c. drop_bit 5 (byte_of c)) hrp @ [0] @ map (\<lambda>c. byte_of c AND 0x1f) hrp"

text \<open>
  One turn of the loop of \<open>polymod\<close>: \<open>top\<close> is the byte above bit 25, and each of its low five bits,
  negated as an \<open>unsigned int\<close>, masks one generator constant.
\<close>

definition polymod_step :: "u32 \<Rightarrow> u8 \<Rightarrow> u32" where
  "polymod_step chk value =
     (let top = ucast (drop_bit 25 chk) :: u8;
          m = (\<lambda>i. - ((ucast (drop_bit i top) :: u32) AND 1))
      in push_bit 5 (chk AND 0x1ffffff) XOR ucast value XOR
         (m 0 AND 0x3b6a57b2) XOR
         (m 1 AND 0x26508e6d) XOR
         (m 2 AND 0x1ea119fa) XOR
         (m 3 AND 0x3d4233dd) XOR
         (m 4 AND 0x2a1462b3))"

definition polymod :: "bytes \<Rightarrow> u32" where
  "polymod values = fold (\<lambda>value chk. polymod_step chk value) values 1"

definition M :: u32 where "M = 0x2bc830a3"

definition verifyChecksum :: "string \<Rightarrow> bytes \<Rightarrow> bool" where
  "verifyChecksum hrp dp \<longleftrightarrow> polymod (expandHrp hrp @ dp) = M"

definition verifyChecksumUsingOriginalConstant :: "string \<Rightarrow> bytes \<Rightarrow> bool" where
  "verifyChecksumUsingOriginalConstant hrp dp \<longleftrightarrow> polymod (expandHrp hrp @ dp) = 1"

definition stripChecksum :: "bytes \<Rightarrow> bytes" where
  "stripChecksum dp = take (length dp - CHECKSUM_LENGTH) dp"

definition checksum_digit :: "u32 \<Rightarrow> nat \<Rightarrow> u8" where
  "checksum_digit md i = ucast (drop_bit (5 * (5 - i)) md AND 31)"

definition createChecksum :: "string \<Rightarrow> bytes \<Rightarrow> bytes" where
  "createChecksum hrp dp =
     (let c = expandHrp hrp @ dp;
          c = c @ replicate CHECKSUM_LENGTH 0;
          md = polymod c XOR M
      in map (checksum_digit md) [0..<CHECKSUM_LENGTH])"

definition createChecksumUsingOriginalConstant :: "string \<Rightarrow> bytes \<Rightarrow> bytes" where
  "createChecksumUsingOriginalConstant hrp dp =
     (let c = expandHrp hrp @ dp;
          c = c @ replicate CHECKSUM_LENGTH 0;
          md = polymod c XOR 1
      in map (checksum_digit md) [0..<CHECKSUM_LENGTH])"

section \<open>The checks on the parts\<close>

definition rejectHRPTooShort :: "string \<Rightarrow> b32_error option" where
  "rejectHRPTooShort hrp = (if length hrp < MIN_HRP_LENGTH then Some HrpTooShort else None)"

definition rejectHRPTooLong :: "string \<Rightarrow> b32_error option" where
  "rejectHRPTooLong hrp = (if length hrp > MAX_HRP_LENGTH then Some HrpTooLong else None)"

definition rejectDPTooShort :: "bytes \<Rightarrow> b32_error option" where
  "rejectDPTooShort dp = (if length dp < CHECKSUM_LENGTH then Some DpTooShort else None)"

text \<open>The lambda takes its argument as a (signed) \<open>char\<close>.\<close>

definition rejectDataValuesOutOfRange :: "bytes \<Rightarrow> b32_error option" where
  "rejectDataValuesOutOfRange dp =
     (if list_ex (\<lambda>ch. sint ch > int VALID_CHARSET_SIZE - 1) dp
      then Some DataValueOutOfRange else None)"

definition rejectBothPartsTooLong :: "string \<Rightarrow> bytes \<Rightarrow> b32_error option" where
  "rejectBothPartsTooLong hrp dp =
     (if length hrp + length dp + 1 + CHECKSUM_LENGTH > MAX_BECH32_LENGTH
      then Some BothPartsTooLong else None)"

definition isAllowedChar :: "char \<Rightarrow> bool" where
  "isAllowedChar c \<longleftrightarrow> c \<in> set charset"

section \<open>The library's operations\<close>

definition stripUnknownChars :: "string \<Rightarrow> string" where
  "stripUnknownChars bs =
     filter (\<lambda>x. \<not> (\<not> isAllowedChar (c_tolower x) \<and> x \<noteq> separator)) bs"

text \<open>The final loop of \<open>encodeBasis\<close> checks and maps each value as \<open>mapToCharset\<close> does.\<close>

definition encodeBasis ::
    "string \<Rightarrow> bytes \<Rightarrow> (string \<Rightarrow> bytes \<Rightarrow> bytes) \<Rightarrow> b32_error + string" where
  "encodeBasis hrp dp checksumFunc =
     (case first_throw
             [rejectHRPTooShort hrp, rejectHRPTooLong hrp, rejectBothPartsTooLong hrp dp,
              rejectDataValuesOutOfRange dp] of
        Some e \<Rightarrow> Inl e
      | None \<Rightarrow>
          let hrpCopy = convertToLowercase hrp;
              checksum = checksumFunc hrpCopy dp;
              ret = hrpCopy @ [CHR ''1''];
              combined = dp @ checksum
          in case mapToCharset combined of Inl e \<Rightarrow> Inl e | Inr s \<Rightarrow> Inr (ret @ s))"

definition encode :: "string \<Rightarrow> bytes \<Rightarrow> b32_error + string" where
  "encode hrp dp = encodeBasis hrp dp createChecksum"

definition encodeUsingOriginalConstant :: "string \<Rightarrow> bytes \<Rightarrow> b32_error + string" where
  "encodeUsingOriginalConstant hrp dp = encodeBasis hrp dp createChecksumUsingOriginalConstant"

definition decode :: "string \<Rightarrow> b32_error + DecodedResult" where
  "decode bs =
     (case rejectBStringThatIsntWellFormed bs of
        Some e \<Rightarrow> Inl e
      | None \<Rightarrow>
          let hrp = extractHumanReadablePart bs;
              dp = extractDataPart bs
          in case first_throw
                    [rejectHRPTooShort hrp, rejectHRPTooLong hrp, rejectDPTooShort dp] of
               Some e \<Rightarrow> Inl e
             | None \<Rightarrow>
                 let hrp = convertToLowercase hrp
                 in case mapDP dp of
                      Inl e \<Rightarrow> Inl e
                    | Inr dp \<Rightarrow>
                        if verifyChecksum hrp dp then
                          Inr \<lparr>dr_encoding = Bech32m, dr_hrp = hrp, dr_dp = stripChecksum dp\<rparr>
                        else if verifyChecksumUsingOriginalConstant hrp dp then
                          Inr \<lparr>dr_encoding = Bech32, dr_hrp = hrp, dr_dp = stripChecksum dp\<rparr>
                        else Inr \<lparr>dr_encoding = Invalid, dr_hrp = [], dr_dp = []\<rparr>)"

end
