(* ===== verification/Bech32_Checksum.thy ===== *)
theory Bech32_Checksum
  imports Bech32_Lib
begin

text \<open>
  The checksum of \<^verbatim>\<open>bech32.cpp\<close>: the masks of \<open>polymod\<close> select generator constants by the bits of
  the state, one step is linear and loses no non-zero state (the interpretation of
  \<open>checksum_register\<close>), the six symbols of \<open>createChecksum\<close> verify, and no other six do.
\<close>

unbundle bit_operations_syntax

section \<open>One step\<close>

text \<open>The masks of the code select a generator constant by one bit of the state.\<close>

lemma mask_constant:
  assumes "i < 5"
  shows "(- ((ucast (drop_bit i (ucast (drop_bit 25 chk) :: u8)) :: u32) AND 1)) AND c
    = (if bit (chk :: u32) (25 + i) then c else 0)"
proof -
  have "bit (ucast (drop_bit i (ucast (drop_bit 25 chk) :: u8)) :: u32) 0 \<longleftrightarrow> bit chk (25 + i)"
    using assms by (auto simp: bit_simps)
  moreover have "(x :: u32) AND 1 = of_bool (bit x 0)" for x
    by (simp add: and_one_eq bit_0 of_bool_odd_eq_mod_2)
  ultimately show ?thesis by simp
qed

definition gen :: "u32 \<Rightarrow> u32" where
  "gen chk =
     (if bit chk 25 then 0x3b6a57b2 else 0) XOR (if bit chk 26 then 0x26508e6d else 0) XOR
     (if bit chk 27 then 0x1ea119fa else 0) XOR (if bit chk 28 then 0x3d4233dd else 0) XOR
     (if bit chk 29 then 0x2a1462b3 else 0)"

lemma polymod_step_gen:
  "polymod_step chk v = push_bit 5 (take_bit 25 chk) XOR ucast v XOR gen chk"
proof -
  have "chk AND 0x1ffffff = take_bit 25 chk"
    by (simp add: take_bit_eq_mask mask_eq_exp_minus_1)
  then show ?thesis
    using mask_constant [of 0 chk] mask_constant [of 1 chk] mask_constant [of 2 chk]
      mask_constant [of 3 chk] mask_constant [of 4 chk]
    by (simp add: polymod_step_def gen_def Let_def xor.assoc)
qed

lemma if_bit_xor:
  "(if bit (a XOR b) n then c else 0) =
   (if bit a n then c else 0) XOR (if bit b n then c else (0 :: u32))"
  by (simp add: bit_xor_iff)

lemma gen_xor: "gen (a XOR b) = gen a XOR gen b"
  by (simp only: gen_def if_bit_xor) (simp only: xor.assoc xor.left_commute xor.commute)

lemma polymod_step_xor: "polymod_step (a XOR b) (v XOR w) = polymod_step a v XOR polymod_step b w"
  by (simp add: polymod_step_gen gen_xor unsigned_xor_eq) (simp add: ac_simps)

section \<open>The register\<close>

lemma gen_take_bit_30: "take_bit 30 (gen a) = gen a"
  by (simp add: gen_def)

lemma polymod_step_good: "take_bit 30 (polymod_step a v) = polymod_step a v"
proof -
  have "take_bit 30 (ucast v :: u32) = ucast v"
    by (rule bit_word_eqI) (auto simp: bit_simps dest: bit_imp_le_length)
  then show ?thesis
    by (simp add: polymod_step_gen gen_take_bit_30 take_bit_push_bit)
qed

text \<open>
  The five constants are independent in their low five bits, which the shifted part of the
  state leaves zero; so a step on a zero symbol that gives zero had no carry, and shifted
  nothing out.
\<close>

lemma gen_low_bits: "take_bit 5 (gen a) = 0 \<Longrightarrow> gen a = 0 \<and> \<not> bit a 25 \<and> \<not> bit a 26
    \<and> \<not> bit a 27 \<and> \<not> bit a 28 \<and> \<not> bit a 29"
  by (auto simp: gen_def split: if_splits)

lemma polymod_step_kernel:
  assumes good: "take_bit 30 a = a" and zero: "polymod_step a 0 = 0"
  shows "a = 0"
proof -
  have eq: "push_bit 5 (take_bit 25 a) = gen a"
    using zero by (simp add: polymod_step_gen)
  have "take_bit 5 (gen a) = 0"
    by (simp add: take_bit_push_bit flip: eq)
  from gen_low_bits [OF this]
  have g: "gen a = 0" and high: "\<not> bit a 25" "\<not> bit a 26" "\<not> bit a 27" "\<not> bit a 28"
    "\<not> bit a 29" by auto
  show ?thesis
  proof (rule bit_word_eqI)
    fix n assume "n < LENGTH(32)"
    have "bit (push_bit 5 (take_bit 25 a)) (n + 5) = False" by (simp add: eq g)
    then have low: "n < 25 \<Longrightarrow> \<not> bit a n" by (simp add: bit_simps)
    have "bit a n \<Longrightarrow> n < 30" using good by (metis bit_take_bit_iff)
    moreover have "n < 30 \<Longrightarrow> n < 25 \<or> n \<in> {25, 26, 27, 28, 29}" by auto
    ultimately show "bit a n = bit 0 n" using low high by auto
  qed
qed

interpretation polymod_reg: checksum_register polymod_step "\<lambda>a. take_bit 30 a = a"
  by unfold_locales
    (auto simp: polymod_step_xor polymod_step_good intro: polymod_step_kernel)

lemma polymod_append:
  "polymod (xs @ ys) = fold (\<lambda>v s. polymod_step s v) ys (polymod xs)"
  by (simp add: polymod_def)

lemma polymod_good: "take_bit 30 (polymod xs) = polymod xs"
  unfolding polymod_def by (rule polymod_reg.fold_good) simp

lemma checksum_digit_take_bit:
  "checksum_digit m i = ucast (take_bit 5 (drop_bit (5 * (5 - i)) m))"
proof -
  have "(x :: u32) AND 31 = take_bit 5 x" for x
    by (simp add: take_bit_eq_mask mask_eq_exp_minus_1)
  then show ?thesis by (simp add: checksum_digit_def)
qed

lemma checksum_digit_below: "unat (checksum_digit m i) < 32"
proof -
  have "take_bit 5 (checksum_digit m i) = checksum_digit m i"
    by (rule bit_word_eqI) (auto simp: checksum_digit_take_bit bit_simps)
  then have "take_bit 5 (unat (checksum_digit m i)) = unat (checksum_digit m i)"
    by (metis unsigned_take_bit_eq)
  with take_bit_nat_less_exp [of 5 "unat (checksum_digit m i)"] show ?thesis by simp
qed

lemma polymod_zeros:
  "polymod (xs @ ds) = polymod (xs @ replicate (length ds) 0) XOR fold (\<lambda>v s. polymod_step s v) ds 0"
  by (simp only: polymod_append) (rule polymod_reg.fold_zeros)

lemma polymod_step_digit:
  assumes m: "take_bit 30 m = m" and "i < 6"
  shows "polymod_step (drop_bit (5 * (6 - i)) m) (checksum_digit m i) = drop_bit (5 * (5 - i)) m"
proof -
  define k where "k = 5 * (5 - i)"
  have k: "5 * (6 - i) = k + 5" using \<open>i < 6\<close> by (auto simp: k_def)
  let ?a = "drop_bit (k + 5) m"
  have "\<not> bit m n" if "30 \<le> n" for n
    using m that by (metis bit_take_bit_iff not_le)
  then have hi: "\<not> bit ?a n" if "25 \<le> n" for n
    using that by (simp add: bit_simps)
  then have "gen ?a = 0" by (simp add: gen_def)
  moreover have "take_bit 25 ?a = ?a"
    by (rule bit_word_eqI) (use hi in \<open>meson bit_take_bit_iff not_le\<close>)
  moreover have "push_bit 5 ?a XOR ucast (checksum_digit m i) = drop_bit k m"
  proof (rule bit_word_eqI)
    fix n assume n: "n < LENGTH(32)"
    have d: "bit (ucast (checksum_digit m i) :: u32) n \<longleftrightarrow> n < 5 \<and> bit m (k + n)"
      by (auto simp: checksum_digit_take_bit bit_simps k_def)
    show "bit (push_bit 5 ?a XOR ucast (checksum_digit m i)) n \<longleftrightarrow> bit (drop_bit k m) n"
      using n by (auto simp: bit_xor_iff d) (auto simp: bit_simps)
  qed
  ultimately show ?thesis unfolding k by (simp add: polymod_step_gen k_def)
qed

lemma polymod_digits:
  assumes "take_bit 30 m = m"
  shows "fold (\<lambda>v s. polymod_step s v) (map (checksum_digit m) [0..<6]) 0 = m"
proof -
  have "drop_bit 30 m = 0"
    using assms by (metis drop_bit_take_bit diff_self_eq_0 take_bit_0)
  moreover have "[0..<6] = [0, 1, 2, 3, 4, 5 :: nat]" by (simp add: upt_rec)
  ultimately show ?thesis
    using polymod_step_digit [OF assms, of 0] polymod_step_digit [OF assms, of 1]
      polymod_step_digit [OF assms, of 2] polymod_step_digit [OF assms, of 3]
      polymod_step_digit [OF assms, of 4] polymod_step_digit [OF assms, of 5]
    by simp
qed

lemma polymod_checksum:
  assumes "take_bit 30 t = t"
  shows "polymod (xs @ map (checksum_digit (polymod (xs @ replicate 6 0) XOR t)) [0..<6]) = t"
proof -
  let ?m = "polymod (xs @ replicate 6 0) XOR t"
  have m: "take_bit 30 ?m = ?m"
    by (simp only: take_bit_xor polymod_good assms)
  have "polymod (xs @ map (checksum_digit ?m) [0..<6]) = polymod (xs @ replicate 6 0) XOR ?m"
    using polymod_zeros [of xs "map (checksum_digit ?m) [0..<6]"]
    unfolding polymod_digits [OF m] by simp
  then show ?thesis by (simp flip: xor.assoc)
qed

lemma createChecksum_verifies: "verifyChecksum hrp (dp @ createChecksum hrp dp)"
proof -
  have "take_bit 30 M = M" by (simp add: M_def)
  from polymod_checksum [OF this, of "expandHrp hrp @ dp"] show ?thesis
    by (simp add: verifyChecksum_def createChecksum_def CHECKSUM_LENGTH_def Let_def)
qed

lemma createChecksumOriginal_verifies:
  "verifyChecksumUsingOriginalConstant hrp (dp @ createChecksumUsingOriginalConstant hrp dp)"
  using polymod_checksum [of 1 "expandHrp hrp @ dp"]
  by (simp add: verifyChecksumUsingOriginalConstant_def createChecksumUsingOriginalConstant_def
      CHECKSUM_LENGTH_def Let_def)

section \<open>The six symbols are unique\<close>

abbreviation absorb :: "bytes \<Rightarrow> u32 \<Rightarrow> u32" where
  "absorb ds a \<equiv> fold (\<lambda>v s. polymod_step s v) ds a"

lemma small_symbol: "unat (v :: u8) < 32 \<Longrightarrow> take_bit 5 v = v"
proof -
  assume "unat v < 32"
  then have "take_bit 5 (unat v) = unat v" by (simp add: take_bit_nat_eq_self)
  then show ?thesis by (simp add: word_unat_eq_iff unsigned_take_bit_eq)
qed

lemma polymod_step_low:
  assumes "take_bit 25 a = a" "unat v < 32"
  shows "polymod_step a v = push_bit 5 a OR ucast v"
    and "take_bit 5 (polymod_step a v) = ucast v" "drop_bit 5 (polymod_step a v) = a"
proof -
  have hi: "\<not> bit a n" if "25 \<le> n" for n
    using assms(1) that by (metis bit_take_bit_iff not_le)
  then have "gen a = 0" by (simp add: gen_def)
  then have step: "polymod_step a v = push_bit 5 a XOR ucast v"
    using assms(1) by (simp add: polymod_step_gen)
  have v: "bit v n \<Longrightarrow> n < 5" for n
    using small_symbol [OF assms(2)] by (metis bit_take_bit_iff)
  have bits: "bit (polymod_step a v) n \<longleftrightarrow> (if n < 5 then bit v n else bit a (n - 5))" for n
  proof -
    have "bit a (n - 5) \<Longrightarrow> n < 32" using hi [of "n - 5"] by linarith
    then show ?thesis
      unfolding step using v [of n] by (auto simp: bit_simps dest: bit_imp_le_length)
  qed
  show "polymod_step a v = push_bit 5 a OR ucast v"
    by (rule bit_word_eqI) (use v in \<open>auto simp: bits bit_simps\<close>)
  show "take_bit 5 (polymod_step a v) = ucast v"
    by (rule bit_word_eqI) (use v in \<open>auto simp: bits bit_simps\<close>)
  show "drop_bit 5 (polymod_step a v) = a"
    by (rule bit_word_eqI) (auto simp: bits bit_simps)
qed

lemma take_bit_wider: "take_bit n (a :: u32) = a \<Longrightarrow> n \<le> m \<Longrightarrow> take_bit m a = a"
  by (metis min.absorb2 take_bit_take_bit)

lemma take_bit_eq_iff_bits: "take_bit n (a :: 'a::len word) = a \<longleftrightarrow> (\<forall>k. bit a k \<longrightarrow> k < n)"
proof
  show "take_bit n a = a \<Longrightarrow> \<forall>k. bit a k \<longrightarrow> k < n" by (metis bit_take_bit_iff)
  show "\<forall>k. bit a k \<longrightarrow> k < n \<Longrightarrow> take_bit n a = a"
    by (rule bit_word_eqI) (auto simp: bit_take_bit_iff)
qed

lemma absorb_symbols_bound:
  "length ds \<le> 6 \<Longrightarrow> list_all (\<lambda>v. unat v < 32) ds \<Longrightarrow>
     take_bit (5 * length ds) (absorb ds 0) = absorb ds 0"
proof (induction ds rule: rev_induct)
  case (snoc v ds)
  have IH: "take_bit (5 * length ds) (absorb ds 0) = absorb ds 0"
    using snoc.prems by (intro snoc.IH) simp_all
  have low: "take_bit 25 (absorb ds 0) = absorb ds 0"
    by (rule take_bit_wider [OF IH]) (use snoc.prems(1) in simp)
  have v: "unat v < 32" using snoc.prems by simp
  define x where "x = absorb ds 0"
  have xb: "\<forall>k. bit x k \<longrightarrow> k < 5 * length ds"
    using IH unfolding x_def [symmetric] take_bit_eq_iff_bits .
  have vb: "\<forall>k. bit v k \<longrightarrow> k < 5"
    using small_symbol [OF v] unfolding take_bit_eq_iff_bits .
  have "n < 5 * length ds + 5" if "bit (push_bit 5 x OR ucast v) n" for n
  proof -
    from that have "5 \<le> n \<and> bit x (n - 5) \<or> bit v n"
      unfolding bit_or_iff bit_push_bit_iff bit_ucast_iff by blast
    then show ?thesis using xb [rule_format, of "n - 5"] vb [rule_format, of n] by linarith
  qed
  then have "take_bit (5 * length ds + 5) (push_bit 5 x OR ucast v) = push_bit 5 x OR ucast v"
    unfolding take_bit_eq_iff_bits by blast
  moreover have "absorb (ds @ [v]) 0 = push_bit 5 x OR ucast v"
    unfolding x_def fold_append o_apply fold.simps id_apply polymod_step_low(1) [OF low v] ..
  moreover have "5 * length (ds @ [v]) = 5 * length ds + 5" by simp
  ultimately show ?case by (simp only:)
qed simp

lemma ucast_8_32_inj: "(ucast (c :: u8) :: u32) = ucast d \<Longrightarrow> c = d"
proof -
  have narrow: "(ucast (ucast x :: u32) :: u8) = x" for x :: u8
    by (rule bit_word_eqI) (auto simp: bit_simps)
  assume "(ucast c :: u32) = ucast d"
  then have "(ucast (ucast c :: u32) :: u8) = ucast (ucast d :: u32)" by simp
  then show "c = d" unfolding narrow .
qed

lemma absorb_symbols_inj:
  assumes "length cs = length ds" "length ds \<le> 6" "list_all (\<lambda>v. unat v < 32) cs"
    "list_all (\<lambda>v. unat v < 32) ds" "absorb cs 0 = absorb ds 0"
  shows "cs = ds"
  using assms
proof (induction ds arbitrary: cs rule: rev_induct)
  case (snoc d ds)
  then obtain c cs' where cs: "cs = cs' @ [c]" by (cases cs rule: rev_cases) auto
  have low: "take_bit 25 (absorb xs 0) = absorb xs 0"
    if "length xs \<le> 5" "list_all (\<lambda>v. unat v < 32) xs" for xs
  proof (rule take_bit_wider)
    show "take_bit (5 * length xs) (absorb xs 0) = absorb xs 0"
      using absorb_symbols_bound that by simp
  qed (use that in simp)
  have small: "unat c < 32" "unat d < 32" using snoc.prems by (simp_all add: cs)
  have lows: "take_bit 25 (absorb cs' 0) = absorb cs' 0" "take_bit 25 (absorb ds 0) = absorb ds 0"
    using snoc.prems by (auto simp: cs intro!: low)
  have eq: "polymod_step (absorb cs' 0) c = polymod_step (absorb ds 0) d"
    using snoc.prems(5) by (simp add: cs)
  have "absorb cs' 0 = absorb ds 0"
    using polymod_step_low(3) [OF lows(1) small(1)] polymod_step_low(3) [OF lows(2) small(2)]
    by (simp add: eq)
  then have "cs' = ds" using snoc by (simp add: cs)
  moreover have "(ucast c :: u32) = ucast d"
    using polymod_step_low(2) [OF lows(1) small(1)] polymod_step_low(2) [OF lows(2) small(2)]
    by (simp add: eq)
  then have "c = d" by (rule ucast_8_32_inj)
  ultimately show ?case by (simp add: cs)
qed simp

text \<open>The six symbols that make a checksum verify are determined by what precedes them.\<close>

lemma polymod_suffix_unique:
  assumes "length cs = 6" "length ds = 6" "list_all (\<lambda>v. unat v < 32) cs"
    "list_all (\<lambda>v. unat v < 32) ds" "polymod (xs @ cs) = polymod (xs @ ds)"
  shows "cs = ds"
proof (rule absorb_symbols_inj)
  have "absorb cs 0 = polymod (xs @ replicate 6 0) XOR polymod (xs @ cs)"
    using polymod_zeros [of xs cs] assms(1) by (simp flip: xor.assoc)
  moreover have "absorb ds 0 = polymod (xs @ replicate 6 0) XOR polymod (xs @ ds)"
    using polymod_zeros [of xs ds] assms(2) by (simp flip: xor.assoc)
  ultimately show "absorb cs 0 = absorb ds 0" using assms(5) by simp
qed (use assms in auto)

end
