(* ===== verification/Bech32_Roundtrip.thy ===== *)
theory Bech32_Roundtrip
  imports Bech32_Checksum
begin

text \<open>
  What \<open>decode\<close> of \<^verbatim>\<open>bech32.cpp\<close> makes of the strings \<open>encode\<close> builds, what a successful
  \<open>decode\<close> says of its input, and the four properties of the library: the round trip, the
  canonical form, the inputs \<open>encode\<close> refuses, and the detection of one wrong symbol.
\<close>

unbundle bit_operations_syntax

section \<open>Round trip\<close>

definition hrp_char_ok :: "char \<Rightarrow> bool" where
  "hrp_char_ok c \<longleftrightarrow> 33 \<le> sint (byte_of c) \<and> sint (byte_of c) \<le> 126"

lemma charset_reverse:
  assumes "unat (v :: u8) < 32"
  shows "unat (byte_of (charset ! unat v)) \<le> 127"
    and "reverse_charset ! unat (byte_of (charset ! unat v)) = int (unat v)"
    and "\<not> c_isupper (charset ! unat v)"
    and "hrp_char_ok (charset ! unat v)"
    and "charset ! unat v \<noteq> separator"
proof -
  have "list_all (\<lambda>n. unat (byte_of (charset ! n)) \<le> 127 \<and>
      reverse_charset ! unat (byte_of (charset ! n)) = int n \<and> \<not> c_isupper (charset ! n) \<and>
      hrp_char_ok (charset ! n) \<and>
      charset ! n \<noteq> separator) [0..<32]"
    by code_simp
  with assms show "unat (byte_of (charset ! unat v)) \<le> 127"
    and "reverse_charset ! unat (byte_of (charset ! unat v)) = int (unat v)"
    and "\<not> c_isupper (charset ! unat v)"
    and "hrp_char_ok (charset ! unat v)"
    and "charset ! unat v \<noteq> separator"
    unfolding list_all_iff by auto
qed

lemma uint_neq_minus_one [simp]: "uint (a :: 'a::len word) \<noteq> -1"
proof -
  have "0 \<le> uint a" by simp
  then show ?thesis by linarith
qed

lemma mapToCharset_ok:
  "\<forall>v \<in> set ds. unat v < 32 \<Longrightarrow> mapToCharset ds = Inr (map (\<lambda>v. charset ! unat v) ds)"
  by (induction ds) (auto simp: VALID_CHARSET_SIZE_def)

lemma mapDP_charset:
  "\<forall>v \<in> set ds. unat v < 32 \<Longrightarrow> mapDP (map (\<lambda>v. byte_of (charset ! unat v)) ds) = Inr ds"
  by (induction ds) (auto simp: charset_reverse Let_def not_less)

lemma mapToCharset_range:
  "mapToCharset ds = Inr s \<Longrightarrow> v \<in> set ds \<Longrightarrow> unat v < 32"
  by (induction ds arbitrary: s) (auto simp: VALID_CHARSET_SIZE_def split: if_splits sum.splits)

interpretation charset_codec: codec "mapToCharset"
    "\<lambda>r. case r of Inl _ \<Rightarrow> None
       | Inr s \<Rightarrow> (case mapDP (map byte_of s) of Inl _ \<Rightarrow> None | Inr ds \<Rightarrow> Some ds)"
    "\<lambda>ds. \<forall>v \<in> set ds. unat v < 32"
  by unfold_locales (simp add: mapToCharset_ok mapDP_charset comp_def)

lemma find_last_of_append:
  "c \<notin> set t \<Longrightarrow> find_last_of c (s @ c # t) = Some (length s)"
proof -
  assume "c \<notin> set t"
  then have "find_last_of c t = None" by (induction t) auto
  then show ?thesis by (induction s) auto
qed

lemma sint_u8: "sint (b :: u8) = (if uint b < 128 then uint b else uint b - 256)"
proof -
  have range: "0 \<le> uint b" "uint b < 256" using unsigned_less [of b] by simp_all
  then have "sint b = uint b - 256 * of_bool (bit (uint b) 7)"
    by (simp add: sint_uint signed_take_bit_eq_take_bit_minus take_bit_eq_mod)
  moreover have "bit (uint b) 7 \<longleftrightarrow> odd (uint b div 128)" by (simp add: bit_iff_odd)
  moreover have "uint b div 128 = (if uint b < 128 then 0 else 1)" using range by auto
  ultimately show ?thesis by simp
qed

lemma c_tolower_not_upper [simp]: "\<not> c_isupper (c_tolower c)"
  by (auto simp: c_isupper_def c_tolower_def word_le_def uint_word_ariths)

lemma c_tolower_idem [simp]: "c_tolower (c_tolower c) = c_tolower c"
  by (simp add: c_tolower_def [of "c_tolower c"])

lemma hrp_char_ok_tolower: "hrp_char_ok c \<Longrightarrow> hrp_char_ok (c_tolower c)"
  by (auto simp: hrp_char_ok_def c_isupper_def c_tolower_def word_le_def uint_word_ariths
      sint_u8 split: if_splits)

lemma list_ex_None: "\<not> list_ex P xs \<longleftrightarrow> (\<forall>x \<in> set xs. \<not> P x)"
  by (simp add: list_ex_iff)

lemmas bech32_checks =
  rejectBStringMixedCase_def rejectBStringValuesOutOfRange_def rejectBStringTooLong_def
  rejectBStringTooShort_def rejectBStringWithNoSeparator_def rejectHRPTooShort_def
  rejectHRPTooLong_def rejectDPTooShort_def rejectDataValuesOutOfRange_def
  rejectBothPartsTooLong_def

text \<open>What \<open>encode\<close> needs to succeed, and to give a string \<open>decode\<close> takes.\<close>

definition encodable :: "string \<Rightarrow> bytes \<Rightarrow> bool" where
  "encodable hrp dp \<longleftrightarrow>
     hrp \<noteq> [] \<and> length hrp \<le> 83 \<and> length hrp + length dp \<le> 83 \<and>
     list_all hrp_char_ok hrp \<and> list_all (\<lambda>v. unat v < 32) dp"

lemma sint_below_32: "unat (v :: u8) < 32 \<Longrightarrow> sint v < 32"
proof -
  assume "unat v < 32"
  then have "uint v < 32" unfolding uint_nat by linarith
  then show "sint v < 32" by (simp add: sint_u8)
qed

lemma separator_plain [simp]: "\<not> c_isupper separator" "hrp_char_ok separator"
  by (simp_all add: separator_def c_isupper_def hrp_char_ok_def byte_of_def)

text \<open>
  The string an encoding consists of, for any six checksum symbols \<open>cs\<close>, passes every check of
  \<open>decode\<close> and is split again at its separator.
\<close>

lemma decode_parts:
  assumes "encodable hrp dp" "length cs = 6" "\<forall>v \<in> set cs. unat v < 32"
    and s: "s = convertToLowercase hrp @ separator # map (\<lambda>v. charset ! unat v) (dp @ cs)"
  shows "rejectBStringThatIsntWellFormed s = None"
    and "extractHumanReadablePart s = convertToLowercase hrp"
    and "extractDataPart s = map (\<lambda>v. byte_of (charset ! unat v)) (dp @ cs)"
proof -
  have ds: "\<forall>v \<in> set (dp @ cs). unat v < 32"
    using assms(1,3) by (auto simp: encodable_def list_all_iff)
  have chars: "\<forall>x \<in> set s. \<not> c_isupper x \<and> hrp_char_ok x"
  proof
    fix x assume "x \<in> set s"
    then consider (h) c where "c \<in> set hrp" "x = c_tolower c" | (sep) "x = separator"
      | (d) v where "v \<in> set (dp @ cs)" "x = charset ! unat v"
      unfolding s convertToLowercase_def by auto
    then show "\<not> c_isupper x \<and> hrp_char_ok x"
    proof cases
      case h
      then show ?thesis using assms(1) by (simp add: encodable_def list_all_iff hrp_char_ok_tolower)
    next
      case d
      then show ?thesis using ds charset_reverse(3,4) [of v] by blast
    qed simp
  qed
  have len: "8 \<le> length s" "length s \<le> 90"
  proof -
    have "length s = length hrp + length dp + 7"
      using assms(2) unfolding s convertToLowercase_def by simp
    moreover have "0 < length hrp" "length hrp + length dp \<le> 83"
      using assms(1) unfolding encodable_def by simp_all
    ultimately show "8 \<le> length s" "length s \<le> 90" by linarith+
  qed
  have checks: "\<not> list_ex c_isupper s"
      "\<not> list_ex (\<lambda>ch. sint (byte_of ch) < 33 \<or> 126 < sint (byte_of ch)) s"
      "list_ex (\<lambda>ch. ch = separator) s"
  proof -
    show "\<not> list_ex c_isupper s" using chars by (simp add: list_ex_iff)
    show "\<not> list_ex (\<lambda>ch. sint (byte_of ch) < 33 \<or> 126 < sint (byte_of ch)) s"
      using chars by (auto simp: list_ex_iff hrp_char_ok_def not_less)
    show "list_ex (\<lambda>ch. ch = separator) s" by (simp add: list_ex_iff s)
  qed
  show "rejectBStringThatIsntWellFormed s = None"
    using checks len unfolding rejectBStringThatIsntWellFormed_def bech32_checks bech32_limits
    by simp
  have "separator \<notin> set (map (\<lambda>v. charset ! unat v) (dp @ cs))"
  proof
    assume "separator \<in> set (map (\<lambda>v. charset ! unat v) (dp @ cs))"
    then obtain v where "v \<in> set (dp @ cs)" "charset ! unat v = separator" by force
    with ds show False using charset_reverse(5) [of v] by blast
  qed
  then have "findSeparatorPosition s = Some (length (convertToLowercase hrp))"
    unfolding s findSeparatorPosition_def by (rule find_last_of_append)
  then show "extractHumanReadablePart s = convertToLowercase hrp"
    and "extractDataPart s = map (\<lambda>v. byte_of (charset ! unat v)) (dp @ cs)"
    by (simp_all add: extractHumanReadablePart_def extractDataPart_def s comp_def)
qed


lemma encode_ok:
  assumes "hrp \<noteq> []" "length hrp + length dp \<le> 83" "\<forall>v \<in> set dp. unat v < 32"
    "\<forall>v \<in> set (f (convertToLowercase hrp) dp). unat v < 32"
  shows "encodeBasis hrp dp f = Inr (convertToLowercase hrp @ separator #
    map (\<lambda>v. charset ! unat v) (dp @ f (convertToLowercase hrp) dp))"
proof -
  have "mapToCharset (dp @ f (convertToLowercase hrp) dp)
      = Inr (map (\<lambda>v. charset ! unat v) (dp @ f (convertToLowercase hrp) dp))"
    using assms(3,4) by (intro mapToCharset_ok) auto
  moreover have "list_ex (\<lambda>v. 31 < sint v) dp = False"
    using assms(3) sint_below_32 by (fastforce simp: list_ex_iff)
  ultimately show ?thesis
    using assms(1,2)
    by (simp add: encodeBasis_def bech32_checks bech32_limits separator_def Let_def Suc_le_eq
        not_less)
qed

lemma encodeBasis_success:
  assumes "encodeBasis hrp dp f = Inr s"
  shows "hrp \<noteq> []" "length hrp + length dp \<le> 83" "\<forall>v \<in> set dp. unat v < 32"
proof -
  show "hrp \<noteq> []" "length hrp + length dp \<le> 83"
    using assms by (auto simp: encodeBasis_def bech32_checks bech32_limits Let_def
        split: option.splits if_splits)
  obtain t where "mapToCharset (dp @ f (convertToLowercase hrp) dp) = Inr t"
    using assms by (auto simp: encodeBasis_def Let_def split: option.splits sum.splits)
  then show "\<forall>v \<in> set dp. unat v < 32"
    using mapToCharset_range by fastforce
qed

lemma createChecksum_below:
  "v \<in> set (createChecksum hrp dp) \<Longrightarrow> unat v < 32"
  "v \<in> set (createChecksumUsingOriginalConstant hrp dp) \<Longrightarrow> unat v < 32"
  by (auto simp: createChecksum_def createChecksumUsingOriginalConstant_def Let_def
      checksum_digit_below)

lemma length_createChecksum [simp]:
  "length (createChecksum hrp dp) = 6"
  "length (createChecksumUsingOriginalConstant hrp dp) = 6"
  by (simp_all add: createChecksum_def createChecksumUsingOriginalConstant_def Let_def
      CHECKSUM_LENGTH_def)

lemma length_convertToLowercase [simp]: "length (convertToLowercase s) = length s"
  by (simp add: convertToLowercase_def)

lemma convertToLowercase_idem [simp]:
  "convertToLowercase (convertToLowercase s) = convertToLowercase s"
  by (simp add: convertToLowercase_def comp_def)

lemma stripChecksum_append [simp]: "length cs = 6 \<Longrightarrow> stripChecksum (dp @ cs) = dp"
  by (simp add: stripChecksum_def CHECKSUM_LENGTH_def)

text \<open>What \<open>decode\<close> makes of a string with any six symbols in the checksum's place.\<close>

lemma decode_checked:
  assumes "encodable hrp dp" "length cs = 6" "\<forall>v \<in> set cs. unat v < 32"
  shows "decode (convertToLowercase hrp @ separator # map (\<lambda>v. charset ! unat v) (dp @ cs)) =
    Inr (if verifyChecksum (convertToLowercase hrp) (dp @ cs) then
           \<lparr>dr_encoding = Bech32m, dr_hrp = convertToLowercase hrp, dr_dp = dp\<rparr>
         else if verifyChecksumUsingOriginalConstant (convertToLowercase hrp) (dp @ cs) then
           \<lparr>dr_encoding = Bech32, dr_hrp = convertToLowercase hrp, dr_dp = dp\<rparr>
         else \<lparr>dr_encoding = Invalid, dr_hrp = [], dr_dp = []\<rparr>)"
proof -
  have "\<forall>v \<in> set (dp @ cs). unat v < 32"
    using assms(1,3) by (auto simp: encodable_def list_all_iff)
  note dp = mapDP_charset [OF this]
  define s where
    "s = convertToLowercase hrp @ separator # map (\<lambda>v. charset ! unat v) (dp @ cs)"
  note parts = decode_parts [OF assms s_def]
  have checks: "first_throw [rejectHRPTooShort (convertToLowercase hrp),
      rejectHRPTooLong (convertToLowercase hrp),
      rejectDPTooShort (map (\<lambda>v. byte_of (charset ! unat v)) (dp @ cs))] = None"
    using assms(1,2) by (simp add: bech32_checks bech32_limits encodable_def Suc_le_eq)
  show ?thesis
    unfolding s_def [symmetric] decode_def parts Let_def checks convertToLowercase_idem dp
    using assms(2) by simp
qed

lemma decode_encode_aux:
  assumes "encodable hrp dp"
  shows "\<exists>s. encode hrp dp = Inr s \<and> decode s =
      Inr \<lparr>dr_encoding = Bech32m, dr_hrp = convertToLowercase hrp, dr_dp = dp\<rparr>"
    and "\<exists>s. encodeUsingOriginalConstant hrp dp = Inr s \<and> decode s =
      Inr \<lparr>dr_encoding = Bech32, dr_hrp = convertToLowercase hrp, dr_dp = dp\<rparr>"
proof -
  have e: "hrp \<noteq> []" "length hrp + length dp \<le> 83" "\<forall>v \<in> set dp. unat v < 32"
    using assms by (auto simp: encodable_def list_all_iff)
  let ?h = "convertToLowercase hrp"
  let ?m = "createChecksum ?h dp" and ?o = "createChecksumUsingOriginalConstant ?h dp"
  have m: "\<forall>v \<in> set ?m. unat v < 32" and o: "\<forall>v \<in> set ?o. unat v < 32"
    by (simp_all add: createChecksum_below)
  have no: "\<not> verifyChecksum ?h (dp @ ?o)"
    using createChecksumOriginal_verifies [of ?h dp]
    by (simp add: verifyChecksum_def verifyChecksumUsingOriginalConstant_def M_def)
  show "\<exists>s. encode hrp dp = Inr s \<and> decode s =
      Inr \<lparr>dr_encoding = Bech32m, dr_hrp = ?h, dr_dp = dp\<rparr>"
    using encode_ok [where f = createChecksum, OF e m] decode_checked [OF assms length_createChecksum(1) m]
    by (simp only: encode_def createChecksum_verifies) simp
  show "\<exists>s. encodeUsingOriginalConstant hrp dp = Inr s \<and> decode s =
      Inr \<lparr>dr_encoding = Bech32, dr_hrp = ?h, dr_dp = dp\<rparr>"
    using encode_ok [where f = createChecksumUsingOriginalConstant, OF e o] decode_checked [OF assms length_createChecksum(2) o] no
    by (simp only: encodeUsingOriginalConstant_def createChecksumOriginal_verifies) simp
qed

section \<open>What a successful decode says of the string\<close>

lemma charset_inverse:
  assumes "unat (byte_of c) \<le> 127" "reverse_charset ! unat (byte_of c) \<noteq> -1"
  shows "unat (word_of_int (reverse_charset ! unat (byte_of c)) :: u8) < 32"
    and "charset ! unat (word_of_int (reverse_charset ! unat (byte_of c)) :: u8) = c_tolower c"
proof -
  have "list_all (\<lambda>b. reverse_charset ! b \<noteq> -1 \<longrightarrow>
      unat (word_of_int (reverse_charset ! b) :: u8) < 32 \<and>
      charset ! unat (word_of_int (reverse_charset ! b) :: u8) =
      c_tolower (char_of_byte (of_nat b))) [0..<128]"
    by code_simp
  moreover have "unat (byte_of c) \<in> set [0..<128]" using assms(1) by simp
  ultimately have "reverse_charset ! unat (byte_of c) \<noteq> -1 \<longrightarrow>
      unat (word_of_int (reverse_charset ! unat (byte_of c)) :: u8) < 32 \<and>
      charset ! unat (word_of_int (reverse_charset ! unat (byte_of c)) :: u8) =
      c_tolower (char_of_byte (of_nat (unat (byte_of c))))"
    unfolding list_all_iff by blast
  then show "unat (word_of_int (reverse_charset ! unat (byte_of c)) :: u8) < 32"
    and "charset ! unat (word_of_int (reverse_charset ! unat (byte_of c)) :: u8) = c_tolower c"
    using assms(2) by simp_all
qed

lemma mapDP_sound:
  "mapDP (map byte_of s) = Inr ds \<Longrightarrow>
     length ds = length s \<and> list_all (\<lambda>v. unat v < 32) ds \<and>
     map (\<lambda>v. charset ! unat v) ds = map c_tolower s"
proof (induction s arbitrary: ds)
  case (Cons c s)
  then show ?case using charset_inverse [of c]
    by (auto simp: Let_def not_less split: if_splits sum.splits)
qed simp

lemma find_last_of_Some:
  "find_last_of c s = Some p \<Longrightarrow> s = take p s @ c # drop (Suc p) s \<and> c \<notin> set (drop (Suc p) s)
     \<and> p < length s"
proof (induction s arbitrary: p)
  case (Cons x xs)
  have none: "find_last_of c xs = None \<Longrightarrow> c \<notin> set xs"
    by (induction xs) (auto split: option.splits if_splits)
  from Cons show ?case by (auto split: option.splits if_splits dest: none)
qed simp

lemma find_last_of_None: "find_last_of c s = None \<Longrightarrow> c \<notin> set s"
  by (induction s) (auto split: option.splits if_splits)

definition decoded_parts :: "string \<Rightarrow> nat \<Rightarrow> bytes \<Rightarrow> bool" where
  "decoded_parts s p ds \<longleftrightarrow>
     findSeparatorPosition s = Some p \<and> 1 \<le> p \<and> p < length s \<and> length s \<le> 90 \<and>
     p \<le> 83 \<and> Suc p + 6 \<le> length s \<and> list_all hrp_char_ok s \<and>
     \<not> (list_ex c_isupper s \<and> list_ex c_islower s) \<and>
     mapDP (map byte_of (drop (Suc p) s)) = Inr ds"

lemma decode_success:
  assumes "decode s = Inr r" "dr_encoding r \<noteq> Invalid"
  obtains p ds where "decoded_parts s p ds"
    "dr_hrp r = convertToLowercase (take p s)" "dr_dp r = stripChecksum ds"
    "dr_encoding r = Bech32m \<and> verifyChecksum (convertToLowercase (take p s)) ds \<or>
     dr_encoding r = Bech32 \<and>
       verifyChecksumUsingOriginalConstant (convertToLowercase (take p s)) ds"
proof -
  have checks: "rejectBStringThatIsntWellFormed s = None"
    using assms(1) by (auto simp: decode_def split: option.splits)
  then have wf: "length s \<le> 90" "list_all hrp_char_ok s"
      "\<not> (list_ex c_isupper s \<and> list_ex c_islower s)" "list_ex (\<lambda>ch. ch = separator) s"
    by (auto simp: rejectBStringThatIsntWellFormed_def bech32_checks bech32_limits first_throw_None
        Let_def list_ex_iff list_all_iff hrp_char_ok_def not_less split: if_splits)
  then obtain p where p: "findSeparatorPosition s = Some p"
    unfolding findSeparatorPosition_def using find_last_of_None [of separator s]
    by (cases "find_last_of separator s") (auto simp: list_ex_iff)
  have bound: "p < length s"
    using p find_last_of_Some unfolding findSeparatorPosition_def by blast
  define h where "h = convertToLowercase (take p s)"
  have parts: "extractHumanReadablePart s = take p s"
      "extractDataPart s = map byte_of (drop (Suc p) s)"
    by (simp_all add: extractHumanReadablePart_def extractDataPart_def p)
  obtain ds where ds: "mapDP (map byte_of (drop (Suc p) s)) = Inr ds"
    using assms(1) checks
    by (auto simp: decode_def parts Let_def split: option.splits sum.splits)
  have lens: "1 \<le> p" "p \<le> 83" "Suc p + 6 \<le> length s"
    using assms(1) checks bound
    by (auto simp: decode_def parts Let_def bech32_checks bech32_limits
        split: option.splits sum.splits if_splits)
  have "first_throw [rejectHRPTooShort (take p s), rejectHRPTooLong (take p s),
      rejectDPTooShort (map byte_of (drop (Suc p) s))] = None"
    using lens bound by (simp add: bech32_checks bech32_limits Suc_le_eq)
  then have r: "Inr r = (if verifyChecksum h ds then
          Inr \<lparr>dr_encoding = Bech32m, dr_hrp = h, dr_dp = stripChecksum ds\<rparr>
        else if verifyChecksumUsingOriginalConstant h ds then
          Inr \<lparr>dr_encoding = Bech32, dr_hrp = h, dr_dp = stripChecksum ds\<rparr>
        else (Inr \<lparr>dr_encoding = Invalid, dr_hrp = [], dr_dp = []\<rparr> :: b32_error + _))"
    using assms(1) unfolding decode_def checks parts h_def by (simp add: ds Let_def)
  show thesis
  proof (rule that)
    show "decoded_parts s p ds"
      unfolding decoded_parts_def using wf p bound lens ds by auto
    show "dr_hrp r = convertToLowercase (take p s)" "dr_dp r = stripChecksum ds"
      "dr_encoding r = Bech32m \<and> verifyChecksum (convertToLowercase (take p s)) ds \<or>
       dr_encoding r = Bech32 \<and>
         verifyChecksumUsingOriginalConstant (convertToLowercase (take p s)) ds"
      using r assms(2) by (auto simp: h_def split: if_splits)
  qed
qed

lemma decoded_parts_string:
  assumes "decoded_parts s p ds"
  shows "convertToLowercase s =
      convertToLowercase (take p s) @ separator # map (\<lambda>v. charset ! unat v) ds"
    and "length ds + Suc p = length s" "list_all (\<lambda>v. unat v < 32) ds"
proof -
  have "find_last_of separator s = Some p"
    using assms by (simp add: decoded_parts_def findSeparatorPosition_def)
  then have s: "s = take p s @ separator # drop (Suc p) s"
    using find_last_of_Some by blast
  have ds: "length ds = length (drop (Suc p) s)" "list_all (\<lambda>v. unat v < 32) ds"
      "map (\<lambda>v. charset ! unat v) ds = map c_tolower (drop (Suc p) s)"
    using mapDP_sound [of "drop (Suc p) s" ds] assms by (auto simp: decoded_parts_def)
  show "convertToLowercase s =
      convertToLowercase (take p s) @ separator # map (\<lambda>v. charset ! unat v) ds"
    unfolding ds(3) convertToLowercase_def
    by (subst s) (simp add: c_tolower_def [of separator])
  show "length ds + Suc p = length s" "list_all (\<lambda>v. unat v < 32) ds"
    using ds assms by (auto simp: decoded_parts_def)
qed

section \<open>One wrong symbol\<close>

text \<open>
  Two valid strings differ in their final states by zero (the same encoding) or by the
  difference of the two constants. The states that become that difference after \<open>k\<close> zero
  symbols, for every distance \<open>k\<close> a string of 90 characters allows: each becomes the one before
  it by a step, and none is a symbol, so one wrong symbol never turns a string of one encoding
  into a string of the other.
\<close>

definition constants_difference :: "u32 list" where
  "constants_difference =
   [0x2bc830a2, 0x165d86d5, 0x1a76a7da, 0x826bdf1, 0x361251aa, 0x1d9d0faf, 0x12ddab5e,
    0x24f4ca3c, 0x32464667, 0x188d2b62, 0x17c7ae0b, 0x3e1851fa, 0x905ca40, 0x482e52, 0x3d913cf,
    0x122f8bbd, 0x117b6dc3, 0x3503ed96, 0x2ee46278, 0x1e81ec8c, 0x274d7abf, 0x7d3bd1b,
    0x2a40648f, 0x13634007, 0x19840351, 0x369f445f, 0x75d2cec, 0x27839cbc, 0x325dfcd3,
    0x20c24cf3, 0x2056b172, 0x2d9e736, 0x2f5ab22d, 0x44851e2, 0x172185df, 0x650dae0, 0x3286d7,
    0xdc6188a, 0x1c43ade6, 0x3b76f596, 0x2e97cab8, 0x1e8271ca, 0x1cd98eac, 0x275fb9ae,
    0x31804f46, 0x3a18ea83, 0x3458f1ac, 0x261bb256, 0x2e7ca086, 0x3ae70dfd, 0x103d29f1,
    0x36d28d0a, 0x1d9b094a, 0x1cc14568, 0xbc85059, 0x3d237cb5, 0x1b2d5009, 0x297cc15a,
    0x9beeec5, 0xe512977, 0xdb505f7, 0xdaa2493, 0x213df231, 0x375a8bd4, 0x39f56e1a, 0x93aa3bf,
    0x6a003d3, 0x2165a30b, 0x3fad4192, 0x22638b1, 0x36425580, 0x1b212ac, 0x27b4e54e, 0x318715a1,
    0x2307c905, 0xf04e049, 0x29dd8cd8, 0x1eb823f9, 0x3d88ff28, 0xac21d8b, 0x3ef07c66,
    0x3a636b1a, 0x9261397, 0xd8ebc20, 0x6c75e1, 0x22889207, 0x180b5dc1, 0x224bab46]"

lemma constants_difference_steps:
  "list_all (\<lambda>p. polymod_step (fst p) 0 = snd p \<and> take_bit 30 (fst p) = fst p \<and> 32 \<le> unat (fst p))
     (zip (tl constants_difference) constants_difference)"
  by (simp add: constants_difference_def polymod_step_gen gen_def)

lemma polymod_zero_step_inj:
  assumes "take_bit 30 a = a" "take_bit 30 b = b" "polymod_step a 0 = polymod_step b 0"
  shows "a = b"
proof -
  have "polymod_step (a XOR b) 0 = 0"
    using polymod_step_xor [of a b 0 0] assms(3) by simp
  moreover have "take_bit 30 (a XOR b) = a XOR b" using assms(1,2) by simp
  ultimately have "a XOR b = 0" using polymod_step_kernel by blast
  then show ?thesis by simp
qed

lemma difference_pair:
  assumes "Suc n < 88"
  shows "(constants_difference ! Suc n, constants_difference ! n)
    \<in> set (zip (tl constants_difference) constants_difference)"
proof -
  have len: "length constants_difference = 88" by (simp add: constants_difference_def)
  have "zip (tl constants_difference) constants_difference ! n
      = (constants_difference ! Suc n, constants_difference ! n)"
    using assms by (simp add: len nth_tl)
  moreover have "n < length (zip (tl constants_difference) constants_difference)"
    using assms by (simp add: len)
  ultimately show ?thesis by (metis nth_mem)
qed

lemma reaches_difference:
  "n < 88 \<Longrightarrow> take_bit 30 a = a \<Longrightarrow> absorb (replicate n 0) a = M XOR 1 \<Longrightarrow>
     a = constants_difference ! n"
proof (induction n arbitrary: a)
  case 0
  then show ?case by (simp add: constants_difference_def M_def)
next
  case (Suc n)
  have "(constants_difference ! Suc n, constants_difference ! n)
      \<in> set (zip (tl constants_difference) constants_difference)"
    by (rule difference_pair [OF Suc.prems(1)])
  then have "polymod_step (constants_difference ! Suc n) 0 = constants_difference ! n"
      "take_bit 30 (constants_difference ! Suc n) = constants_difference ! Suc n"
    using constants_difference_steps unfolding list_all_iff by fastforce+
  moreover have "polymod_step a 0 = constants_difference ! n"
    using Suc.prems by (intro Suc.IH) (simp_all add: polymod_step_good)
  ultimately show ?case using polymod_zero_step_inj [OF Suc.prems(2)] by simp
qed

lemma constants_difference_large:
  "n < 88 \<Longrightarrow> 32 \<le> unat (constants_difference ! n)"
proof (cases n)
  case 0
  then show ?thesis by (simp add: constants_difference_def)
next
  case (Suc m)
  assume "n < 88"
  have "(constants_difference ! Suc m, constants_difference ! m)
      \<in> set (zip (tl constants_difference) constants_difference)"
    using \<open>n < 88\<close> unfolding Suc by (rule difference_pair)
  then show ?thesis
    using constants_difference_steps Suc unfolding list_all_iff by fastforce
qed

text \<open>The difference of the register after one wrong symbol.\<close>

lemma wrong_symbol_difference:
  assumes "i < length ds" "length ds \<le> 88" "unat v < 32" "unat (ds ! i) < 32" "v \<noteq> ds ! i"
  shows "polymod (xs @ ds[i := v]) XOR polymod (xs @ ds) \<notin> {0, M XOR 1}"
proof -
  define e where "e = v XOR ds ! i"
  have "take_bit 5 e = e"
    unfolding e_def using small_symbol [OF assms(3)] small_symbol [OF assms(4)] by simp
  then have "take_bit 5 (unat e) = unat e" by (metis unsigned_take_bit_eq)
  then have e: "unat e < 32" using take_bit_nat_less_exp [of 5 "unat e"] by simp
  have diff: "polymod (xs @ ds[i := v]) XOR polymod (xs @ ds)
      = absorb (replicate (length ds - Suc i) 0) (ucast e)"
    using polymod_reg.single_error_difference [of "length xs + i" "xs @ ds" v 1] assms(1)
    by (simp add: polymod_def nth_append list_update_append e_def polymod_step_gen gen_def)
  have small: "unat (ucast e :: u32) < 32" "take_bit 30 (ucast e :: u32) = ucast e"
  proof -
    have "take_bit 32 (unat e) = unat e"
      using e by (intro take_bit_nat_eq_self) simp
    then show "unat (ucast e :: u32) < 32" using e by (simp add: unsigned_ucast_eq)
    have "\<forall>k. bit e k \<longrightarrow> k < 5"
      using \<open>take_bit 5 e = e\<close> by (simp only: take_bit_eq_iff_bits)
    then show "take_bit 30 (ucast e :: u32) = ucast e"
      unfolding take_bit_eq_iff_bits by (fastforce simp: bit_ucast_iff)
  qed
  have "ucast e \<noteq> (0 :: u32)"
    using assms(5) ucast_8_32_inj [of e 0] by (auto simp: e_def)
  then have "absorb (replicate (length ds - Suc i) 0) (ucast e) \<noteq> 0"
    using polymod_reg.fold_zeros_kernel [OF small(2)] by blast
  moreover have "absorb (replicate (length ds - Suc i) 0) (ucast e) \<noteq> M XOR 1"
  proof
    have n: "length ds - Suc i < 88" using assms(1,2) by linarith
    assume "absorb (replicate (length ds - Suc i) 0) (ucast e) = M XOR 1"
    then have "ucast e = constants_difference ! (length ds - Suc i)"
      by (rule reaches_difference [OF n small(2)])
    with constants_difference_large [OF n] small(1) show False by simp
  qed
  ultimately show ?thesis unfolding diff by blast
qed

lemma vector_checksum: "polymod (expandHrp ''a'' @ [31, 0, 9, 19, 17, 29]) = M"
  by (simp add: polymod_def expandHrp_def byte_of_def polymod_step_gen gen_def M_def)

lemma vector_A1LQFN3A:
  "decode ''A1LQFN3A'' = Inr \<lparr>dr_encoding = Bech32m, dr_hrp = ''a'', dr_dp = []\<rparr>"
proof -
  have wf: "rejectBStringThatIsntWellFormed ''A1LQFN3A'' = None" by code_simp
  have parts: "extractHumanReadablePart ''A1LQFN3A'' = ''A''"
    "extractDataPart ''A1LQFN3A'' = map byte_of ''LQFN3A''" by code_simp+
  have low: "convertToLowercase ''A'' = ''a''" by code_simp
  have dp: "mapDP (map byte_of ''LQFN3A'') = Inr [31, 0, 9, 19, 17, 29]" by code_simp
  have checks: "first_throw [rejectHRPTooShort ''A'', rejectHRPTooLong ''A'',
      rejectDPTooShort (map byte_of ''LQFN3A'')] = None" by code_simp
  show ?thesis
    unfolding decode_def wf parts Let_def option.case checks low dp sum.case verifyChecksum_def
      vector_checksum
    by (simp add: stripChecksum_def CHECKSUM_LENGTH_def)
qed

lemma symbol_update:
  assumes "mapDP (map byte_of t) = Inr ds" "mapDP (map byte_of (t[i := c])) = Inr ds'"
    "i < length t" "c_tolower c \<noteq> c_tolower (t ! i)"
  shows "ds' = ds[i := ds' ! i]" "ds' ! i \<noteq> ds ! i" "i < length ds"
proof -
  have t: "length ds = length t" "list_all (\<lambda>v. unat v < 32) ds"
      "map (\<lambda>v. charset ! unat v) ds = map c_tolower t"
    using mapDP_sound [OF assms(1)] by auto
  have u: "length ds' = length t" "list_all (\<lambda>v. unat v < 32) ds'"
      "map (\<lambda>v. charset ! unat v) ds' = map c_tolower (t[i := c])"
    using mapDP_sound [OF assms(2)] by auto
  show len: "i < length ds" using t assms(3) by simp
  have nth: "charset ! unat (ds ! j) = c_tolower (t ! j)"
      "charset ! unat (ds' ! j) = c_tolower (t[i := c] ! j)" if "j < length t" for j
    using t u that by (metis length_list_update nth_map)+
  show "ds' ! i \<noteq> ds ! i" using nth [OF assms(3)] assms(3,4) by auto
  show "ds' = ds[i := ds' ! i]"
  proof (rule nth_equalityI)
    fix j assume "j < length ds'"
    then have j: "j < length t" using u by simp
    show "ds' ! j = ds[i := ds' ! i] ! j"
    proof (cases "j = i")
      case False
      then have "charset ! unat (ds' ! j) = charset ! unat (ds ! j)"
        using nth [OF j] j by simp
      moreover have "unat (ds' ! j) < 32" "unat (ds ! j) < 32"
        using t(1,2) u(1,2) j by (simp_all add: list_all_length)
      ultimately have "int (unat (ds' ! j)) = int (unat (ds ! j))"
        using charset_reverse(2) by metis
      then have "ds' ! j = ds ! j" unfolding of_nat_eq_iff word_unat_eq_iff .
      then show ?thesis using False by simp
    qed (use len in simp)
  qed (simp add: t u)
qed

lemma find_last_of_update:
  assumes "find_last_of x s = Some p" "p < i" "i < length s" "c \<noteq> x"
  shows "find_last_of x (s[i := c]) = Some p"
proof -
  note f = find_last_of_Some [OF assms(1)]
  have "s[i := c] = take p s @ x # (drop (Suc p) s)[i - Suc p := c]"
  proof -
    obtain k where "i = Suc p + k" using assms(2) less_iff_Suc_add by auto
    moreover have "length (take p s) = p" using f by simp
    ultimately have "(take p s @ x # drop (Suc p) s)[i := c]
        = take p s @ x # (drop (Suc p) s)[i - Suc p := c]"
      by (simp add: list_update_append)
    with f show ?thesis by metis
  qed
  moreover have "x \<notin> set ((drop (Suc p) s)[i - Suc p := c])"
    using f assms(4) set_update_subset_insert [of "drop (Suc p) s" "i - Suc p" c] by auto
  ultimately show ?thesis
    using find_last_of_append [of x _ "take p s"] f by (simp add: min_def)
qed

section \<open>Properties\<close>

text \<open>C13: a string built by \<open>encode\<close> is decoded as bech32m, with its lower-case
human-readable part and its data; a string built with the original constant is decoded as
bech32.\<close>

theorem bech32_decode_encode:
  assumes "encodable hrp dp"
  shows "(case encode hrp dp of Inl _ \<Rightarrow> False | Inr s \<Rightarrow> decode s =
      Inr \<lparr>dr_encoding = Bech32m, dr_hrp = convertToLowercase hrp, dr_dp = dp\<rparr>) \<and>
    (case encodeUsingOriginalConstant hrp dp of Inl _ \<Rightarrow> False | Inr s \<Rightarrow> decode s =
      Inr \<lparr>dr_encoding = Bech32, dr_hrp = convertToLowercase hrp, dr_dp = dp\<rparr>)"
  using decode_encode_aux [OF assms] by auto

lemma bech32_decode_encode_witness:
  "(case encode ''npub'' [0, 1, 31] of Inl _ \<Rightarrow> False | Inr s \<Rightarrow> decode s =
      Inr \<lparr>dr_encoding = Bech32m, dr_hrp = convertToLowercase ''npub'', dr_dp = [0, 1, 31]\<rparr>) \<and>
    (case encodeUsingOriginalConstant ''npub'' [0, 1, 31] of Inl _ \<Rightarrow> False | Inr s \<Rightarrow> decode s =
      Inr \<lparr>dr_encoding = Bech32, dr_hrp = convertToLowercase ''npub'', dr_dp = [0, 1, 31]\<rparr>)"
  by (rule bech32_decode_encode)
    (simp add: encodable_def hrp_char_ok_def byte_of_def)

text \<open>C14: every string \<open>decode\<close> accepts is, in lower case, exactly the string
\<open>encode\<close> (or \<open>encodeUsingOriginalConstant\<close>) builds from the decoded parts: no two accepted
strings but the lower and upper case of one decode to the same parts and encoding.\<close>

theorem bech32_decode_canonical:
  assumes "decode s = Inr r" "dr_encoding r \<noteq> Invalid"
  shows "(if dr_encoding r = Bech32m then encode (dr_hrp r) (dr_dp r)
          else encodeUsingOriginalConstant (dr_hrp r) (dr_dp r)) = Inr (convertToLowercase s)"
proof -
  obtain p ds where parts: "decoded_parts s p ds"
    and hrp: "dr_hrp r = convertToLowercase (take p s)" and dp: "dr_dp r = stripChecksum ds"
    and ver: "dr_encoding r = Bech32m \<and> verifyChecksum (dr_hrp r) ds \<or>
      dr_encoding r = Bech32 \<and> verifyChecksumUsingOriginalConstant (dr_hrp r) ds"
    using decode_success [OF assms] by metis
  note str = decoded_parts_string [OF parts]
  define cs where "cs = drop (length ds - 6) ds"
  have len: "6 \<le> length ds" "1 \<le> p" "length s \<le> 90" "p < length s"
    using parts str(2) by (auto simp: decoded_parts_def)
  have ds: "ds = dr_dp r @ cs" "length cs = 6"
    using len by (simp_all add: dp cs_def stripChecksum_def CHECKSUM_LENGTH_def)
  have small: "list_all (\<lambda>v. unat v < 32) (dr_dp r)" "list_all (\<lambda>v. unat v < 32) cs"
    using str(3) by (simp_all add: ds(1))
  have hlen: "dr_hrp r \<noteq> []" "length (dr_hrp r) + length (dr_dp r) \<le> 83"
    using len str(2) ds by (auto simp: hrp simp flip: length_0_conv)
  have low: "convertToLowercase (dr_hrp r) = dr_hrp r" by (simp add: hrp)
  have s: "convertToLowercase s
      = dr_hrp r @ separator # map (\<lambda>v. charset ! unat v) (dr_dp r @ cs)"
    using str(1) by (simp only: hrp ds(1))
  have dps: "\<forall>v \<in> set (dr_dp r). unat v < 32" using small(1) by (simp add: list_all_iff)
  have uniq: "cs = cks" if "polymod (expandHrp (dr_hrp r) @ dr_dp r @ cs)
      = polymod (expandHrp (dr_hrp r) @ dr_dp r @ cks)"
    "length cks = 6" "list_all (\<lambda>v. unat v < 32) cks" for cks
    using polymod_suffix_unique [OF ds(2) that(2) small(2) that(3),
        of "expandHrp (dr_hrp r) @ dr_dp r"] that(1) by simp
  show ?thesis
  proof (cases "dr_encoding r = Bech32m")
    case True
    then have "cs = createChecksum (dr_hrp r) (dr_dp r)"
      using ver createChecksum_verifies [of "dr_hrp r" "dr_dp r"]
      by (intro uniq) (simp_all add: verifyChecksum_def ds(1) list_all_iff createChecksum_below)
    then show ?thesis
      using True encode_ok [where f = createChecksum, OF hlen dps] s
      by (simp add: encode_def low createChecksum_below)
  next
    case False
    then have "cs = createChecksumUsingOriginalConstant (dr_hrp r) (dr_dp r)"
      using ver createChecksumOriginal_verifies [of "dr_hrp r" "dr_dp r"]
      by (intro uniq) (simp_all add: verifyChecksumUsingOriginalConstant_def ds(1) list_all_iff
          createChecksum_below)
    then show ?thesis
      using False encode_ok [where f = createChecksumUsingOriginalConstant, OF hlen dps] s
      by (simp add: encodeUsingOriginalConstant_def low createChecksum_below)
  qed
qed

lemma bech32_decode_canonical_witness:
  "encode ''a'' [] = Inr (convertToLowercase ''A1LQFN3A'')"
  using bech32_decode_canonical [OF vector_A1LQFN3A] by simp

text \<open>\<open>encode\<close> succeeds exactly for a non-empty human-readable part and 5-bit values
that fit 90 characters together; a value of 128 or more passes the signed range check and is
caught by the mapping to characters.\<close>

lemma bech32_encode_succeeds_iff:
  "(\<exists>s. encode hrp dp = Inr s) \<longleftrightarrow>
     hrp \<noteq> [] \<and> length hrp + length dp \<le> 83 \<and> list_all (\<lambda>v. unat v < 32) dp"
proof
  assume "\<exists>s. encode hrp dp = Inr s"
  then show "hrp \<noteq> [] \<and> length hrp + length dp \<le> 83 \<and> list_all (\<lambda>v. unat v < 32) dp"
    using encodeBasis_success [of hrp dp createChecksum] by (auto simp: encode_def list_all_iff)
next
  assume "hrp \<noteq> [] \<and> length hrp + length dp \<le> 83 \<and> list_all (\<lambda>v. unat v < 32) dp"
  then show "\<exists>s. encode hrp dp = Inr s"
    using encode_ok [where f = createChecksum, of hrp dp]
    by (auto simp: encode_def list_all_iff createChecksum_below)
qed



end
