(* ===== verification/Nostr_Binary.thy ===== *)
theory Nostr_Binary
  imports Nostr_Codec
begin

text \<open>
  \<^verbatim>\<open>src/src/nostr_server/binary.h\<close>: fixed-size byte arrays (\<open>Binary<n>\<close>: event ids, public keys,
  signatures, attachment hashes) and their hexadecimal text.

  \<open>from_hex\<close> declares its result array without initialising it, so the bytes the text does not
  reach are indeterminate in C++. The model takes them as an argument: \<open>u i\<close> is whatever byte the
  memory holds at offset \<open>i\<close>. A theorem that holds for every \<open>u\<close> is independent of them.
\<close>

section \<open>Writing\<close>

text \<open>\<open>a + '0' + ('a' - '0' - 10) * (a > 9)\<close>, for a nibble.\<close>

definition hex_char :: "u8 \<Rightarrow> char" where
  "hex_char a = char_of_byte (a + 48 + 39 * of_bool (a > 9))"

fun binary_to_hex :: "bytes \<Rightarrow> string" where
  "binary_to_hex [] = []"
| "binary_to_hex (val # vs) =
     hex_char (drop_bit 4 val) # hex_char (val AND 15) # binary_to_hex vs"

definition to_hex :: "bytes \<Rightarrow> string" where
  "to_hex b = binary_to_hex b"

section \<open>Reading\<close>

text \<open>
  The value of one digit, computed in \<open>int\<close> and stored in an \<open>unsigned char\<close>. It is compared
  with \<open>0xF\<close> only afterwards, so it is the range of the result that decides what a digit is.
\<close>

definition hex_digit :: "char \<Rightarrow> u8" where
  "hex_digit c =
     (let a = sint (byte_of c)
      in word_of_int ((a - 48) - 7 * of_bool (a \<ge> 65) - 32 * of_bool (a \<ge> 97)))"

text \<open>The loop: the bytes written to \<open>out[0]\<close>, \<open>out[1]\<close>, \<open>\<dots>\<close> before it stops.\<close>

fun from_hex_loop :: "nat \<Rightarrow> string \<Rightarrow> bytes" where
  "from_hex_loop 0 _ = []"
| "from_hex_loop (Suc n) [] = []"
| "from_hex_loop (Suc n) [a] = []"
| "from_hex_loop (Suc n) (a # b # rest) =
     (let x = hex_digit a; y = hex_digit b
      in if x > 15 then [] else if y > 15 then []
         else (push_bit 4 x OR y) # from_hex_loop n rest)"

definition from_hex :: "nat \<Rightarrow> (nat \<Rightarrow> u8) \<Rightarrow> string \<Rightarrow> bytes" where
  "from_hex byte_count u s =
     (let ds = from_hex_loop byte_count s
      in ds @ map u [length ds..<byte_count])"

section \<open>Lengths\<close>

lemma length_binary_to_hex [simp]: "length (binary_to_hex b) = 2 * length b"
  by (induction b) auto

lemma length_to_hex [simp]: "length (to_hex b) = 2 * length b"
  by (simp add: to_hex_def)

lemma length_from_hex_loop: "length (from_hex_loop n s) \<le> n"
  by (induction n s rule: from_hex_loop.induct) (auto simp: Let_def)

lemma length_from_hex [simp]: "length (from_hex n u s) = n"
  using length_from_hex_loop [of n s] by (simp add: from_hex_def Let_def)

section \<open>Round trip\<close>

lemma hex_digit_char: "b \<le> 15 \<Longrightarrow> hex_digit (hex_char b) = b"
  by (drule nibble_cases) (auto simp: hex_digit_def hex_char_def)

lemma hex_digit_high [simp]: "hex_digit (hex_char (drop_bit 4 b)) = drop_bit 4 b"
  by (rule hex_digit_char) (rule drop_bit_4_u8_le)

lemma hex_digit_low [simp]: "hex_digit (hex_char (b AND 15)) = b AND 15"
  by (rule hex_digit_char) (rule and_15_u8_le)

lemma to_hex_digits: "c \<in> set (to_hex b) \<Longrightarrow> hex_digit c \<le> 15"
  unfolding to_hex_def
  by (induction b) (auto simp: drop_bit_4_u8_le and_15_u8_le)

lemma from_hex_loop_to_hex:
  "from_hex_loop (length b) (binary_to_hex b @ rest) = b"
proof (induction b)
  case Nil
  show ?case by simp
next
  case (Cons a b)
  have "\<not> 15 < drop_bit 4 a" "\<not> 15 < a AND 15"
    by (simp_all add: not_less drop_bit_4_u8_le and_15_u8_le)
  with Cons show ?case by (simp add: nibbles_join)
qed

lemma from_hex_loop_to_hex_prefix:
  "length b \<le> n \<Longrightarrow> from_hex_loop n (binary_to_hex b) = b"
proof (induction b arbitrary: n)
  case Nil
  show ?case by (cases n) simp_all
next
  case (Cons a b)
  then obtain m where "n = Suc m" "length b \<le> m" by (cases n) auto
  moreover have "\<not> 15 < drop_bit 4 a" "\<not> 15 < a AND 15"
    by (simp_all add: not_less drop_bit_4_u8_le and_15_u8_le)
  ultimately show ?case using Cons.IH by (simp add: nibbles_join)
qed

lemma from_hex_to_hex [simp]:
  "length b = n \<Longrightarrow> from_hex n u (to_hex b @ rest) = b"
  using from_hex_loop_to_hex [of b rest] by (simp add: from_hex_def to_hex_def)

lemma from_hex_to_hex_exact [simp]: "length b = n \<Longrightarrow> from_hex n u (to_hex b) = b"
  using from_hex_to_hex [of b n u "[]"] by simp

interpretation hex: codec to_hex "\<lambda>s. Some (from_hex n u s)" "\<lambda>b. length b = n"
  for n u
  by unfold_locales simp

section \<open>What is read\<close>

text \<open>Only the first \<open>2 n\<close> characters matter.\<close>

lemma from_hex_loop_take: "from_hex_loop n (take (2 * n) s) = from_hex_loop n s"
  by (induction n s rule: from_hex_loop.induct) (auto simp: Let_def)

lemma from_hex_take: "from_hex n u (take (2 * n) s) = from_hex n u s"
  by (simp add: from_hex_def from_hex_loop_take)

text \<open>
  A text of at least \<open>2 n\<close> accepted digits determines every byte, so the indeterminate memory
  does not show.
\<close>

lemma from_hex_loop_full:
  assumes "2 * n \<le> length s" "\<forall>c \<in> set (take (2 * n) s). hex_digit c \<le> 15"
  shows "length (from_hex_loop n s) = n"
  using assms
  by (induction n s rule: from_hex_loop.induct) (auto simp: Let_def not_less)

lemma from_hex_determined:
  assumes "2 * n \<le> length s" "\<forall>c \<in> set (take (2 * n) s). hex_digit c \<le> 15"
  shows "from_hex n u s = from_hex n v s"
  using from_hex_loop_full [OF assms] by (simp add: from_hex_def)

text \<open>The digits the code takes: the hexadecimal ones and the six characters after \<open>9\<close>.\<close>

lemma hex_digit_accepts:
  "hex_digit c \<le> 15 \<longleftrightarrow> c \<in> set ''0123456789:;<=>?ABCDEFabcdef''"
proof -
  have "\<forall>c. hex_digit c \<le> 15 \<longleftrightarrow> c \<in> set ''0123456789:;<=>?ABCDEFabcdef''"
    by code_simp
  then show ?thesis by blast
qed

lemma hex_char_range:
  assumes "b \<le> 15"
  shows "hex_char b \<in> set ''0123456789abcdef''"
proof -
  have all: "list_all (\<lambda>b. hex_char b \<in> set ''0123456789abcdef'') (map of_nat [0..<16])"
    by code_simp
  have "b \<in> set (map of_nat [0..<16])"
    using assms by (intro word_below_enum) (simp add: word_le_nat_alt)
  with all show ?thesis unfolding list_all_iff by (rule bspec)
qed

lemma set_to_hex: "set (to_hex b) \<subseteq> set ''0123456789abcdef''"
proof -
  have "set (binary_to_hex b) \<subseteq> hex_char ` {..15}"
    by (induction b) (auto simp: drop_bit_4_u8_le and_15_u8_le)
  moreover have "hex_char ` {..15} \<subseteq> set ''0123456789abcdef''"
    by (intro image_subsetI hex_char_range) (simp only: atMost_iff)
  ultimately show ?thesis unfolding to_hex_def by (rule subset_trans)
qed

section \<open>Properties\<close>

text \<open>Reading inverts writing, whatever follows and whatever the memory held; so two identifiers of
one length never share a text.\<close>

lemma to_hex_inject: "length b = length c \<Longrightarrow> to_hex b = to_hex c \<longleftrightarrow> b = c"
  by (rule hex.enc_eq_iff [of b "length b" c]) simp_all

end
