(* ===== verification/Std_Text.thy ===== *)
theory Std_Text
  imports Nostr_Prelude
begin

text \<open>
  What the sources use of the texts of the C and C++ libraries: numbers written by
  \<open>std::to_string\<close> and by \<open>operator<<\<close>, zero-terminated strings, the character classes of the "C"
  locale (a character of 128 or more is in none of them), and \<open>strtoul\<close>.
\<close>

section \<open>Writing numbers\<close>

fun nat_text :: "nat \<Rightarrow> string" where
  "nat_text n =
     (if n < 10 then [char_of (48 + n)] else nat_text (n div 10) @ [char_of (48 + n mod 10)])"

declare nat_text.simps [simp del]

definition int_text :: "int \<Rightarrow> string" where
  "int_text i = (if i < 0 then CHR ''-'' # nat_text (nat (- i)) else nat_text (nat i))"

section \<open>Zero-terminated strings and character classes\<close>

abbreviation NUL :: char where "NUL \<equiv> CHR 0x00"

definition c_str :: "string \<Rightarrow> string" where
  "c_str s = takeWhile (\<lambda>c. c \<noteq> NUL) s"

definition c_isspace :: "char \<Rightarrow> bool" where
  "c_isspace c \<longleftrightarrow> c = CHR '' '' \<or> 9 \<le> byte_of c \<and> byte_of c \<le> 13"

definition c_isdigit :: "char \<Rightarrow> bool" where
  "c_isdigit c \<longleftrightarrow> 48 \<le> byte_of c \<and> byte_of c \<le> 57"

definition c_isalpha :: "char \<Rightarrow> bool" where
  "c_isalpha c \<longleftrightarrow> 65 \<le> byte_of c \<and> byte_of c \<le> 90 \<or> 97 \<le> byte_of c \<and> byte_of c \<le> 122"

definition c_isalnum :: "char \<Rightarrow> bool" where
  "c_isalnum c \<longleftrightarrow> c_isalpha c \<or> c_isdigit c"

section \<open>Reading numbers\<close>

definition digits_value :: "string \<Rightarrow> nat" where
  "digits_value ds = fold (\<lambda>c n. n * 10 + (of_char c - 48)) ds 0"

text \<open>\<open>std::strtoul(text.c_str(), &end, 10)\<close>: the number and what \<open>end\<close> points to.\<close>

definition strtoul :: "string \<Rightarrow> u64 \<times> string" where
  "strtoul text =
     (let s = c_str text;
          t = dropWhile c_isspace s;
          (neg, u) = (case t of
             [] \<Rightarrow> (False, t)
           | c # r \<Rightarrow> if c = CHR ''-'' then (True, r) else if c = CHR ''+'' then (False, r)
                      else (False, t));
          ds = takeWhile c_isdigit u
      in if ds = [] then (0, s)
         else let v = digits_value ds
              in (if v \<ge> 2 ^ 64 then - 1 else if neg then - of_nat v else of_nat v,
                  dropWhile c_isdigit u))"

lemma c_str_id [simp]: "NUL \<notin> set s \<Longrightarrow> c_str s = s"
  by (auto simp: c_str_def)

end
