(* ===== verification/Signature.thy ===== *)
theory Signature
  imports Nostr_Binary Bech32_Roundtrip Std_Text
begin

text \<open>
  \<^verbatim>\<open>src/src/nostr_server/signature.h\<close> and \<^verbatim>\<open>signature.cpp\<close>: the conversions between keys and their
  bech32 texts (\<open>npub\<close>, \<open>nsec\<close>, \<open>note\<close>), with the bit regrouping \<open>convert_bits\<close> on its 32-bit
  accumulator, and signing and verifying over the operations of libsecp256k1, which are the
  record \<open>secp256k1\<close>. Bytes of a key no data reaches are indeterminate memory, the argument \<open>u\<close>.
  The encryption of messages is in \<open>Signature_Crypt\<close>.
\<close>

unbundle bit_operations_syntax

section \<open>Regrouping bits\<close>

definition bit_mask :: "nat \<Rightarrow> u32" where
  "bit_mask n = NOT (push_bit n (NOT 0))"

text \<open>The inner loop of \<open>convert_bits\<close>: the values handed to \<open>fn\<close>, and what is left of \<open>sz\<close>.\<close>

function emit_bits :: "nat \<Rightarrow> u32 \<Rightarrow> nat \<Rightarrow> bytes \<times> nat" where
  "emit_bits to accum sz =
     (if to = 0 \<or> sz < to then ([], sz)
      else let b = drop_bit (sz - to) accum AND bit_mask to;
               (bs, sz') = emit_bits to accum (sz - to)
           in (ucast b # bs, sz'))"
  by pat_completeness auto
termination by (relation "measure (\<lambda>(to, accum, sz). sz)") auto

declare emit_bits.simps [simp del]

fun convert_bits_loop :: "nat \<Rightarrow> nat \<Rightarrow> bytes \<Rightarrow> u32 \<Rightarrow> nat \<Rightarrow> bytes" where
  "convert_bits_loop from to [] accum sz =
     (if to < from \<and> sz \<noteq> 0 then [ucast (push_bit (to - sz) accum AND bit_mask to)] else [])"
| "convert_bits_loop from to (at # rest) accum sz =
     (let val = ucast at AND bit_mask from;
          sz = sz + from;
          accum = push_bit from accum OR val;
          (bs, sz) = emit_bits to accum sz
      in bs @ convert_bits_loop from to rest accum sz)"

definition convert_bits :: "nat \<Rightarrow> nat \<Rightarrow> bytes \<Rightarrow> bytes" where
  "convert_bits from to xs = convert_bits_loop from to xs 0 0"

section \<open>Hexadecimal text\<close>

definition hexletters :: string where "hexletters = ''0123456789abcdef''"

definition sig_to_hex :: "bytes \<Rightarrow> string" where
  "sig_to_hex content =
     concat (map (\<lambda>c. [hexletters ! unat (drop_bit 4 c), hexletters ! unat (c AND 0xF)]) content)"

text \<open>
  \<open>std::stoi(buff, nullptr, 16)\<close> on two characters: leading white space and a sign are skipped, it
  stops at the first character that is no digit, and throws when there is no digit at all.
\<close>

definition xdigit :: "char \<Rightarrow> int option" where
  "xdigit c =
     (let b = uint (byte_of c) in
      if 48 \<le> b \<and> b \<le> 57 then Some (b - 48)
      else if 65 \<le> b \<and> b \<le> 70 then Some (b - 55)
      else if 97 \<le> b \<and> b \<le> 102 then Some (b - 87) else None)"

definition stoi16 :: "char \<Rightarrow> char \<Rightarrow> int option" where
  "stoi16 a b =
     (if c_isspace a then xdigit b
      else if a = CHR ''+'' then xdigit b
      else if a = CHR ''-'' then map_option uminus (xdigit b)
      else case xdigit a of
             None \<Rightarrow> None
           | Some x \<Rightarrow> (case xdigit b of Some y \<Rightarrow> Some (16 * x + y) | None \<Rightarrow> Some x))"

datatype sig_error = StoiInvalid | Bech32Error b32_error

text \<open>A text of odd length makes the code read one character past its end, the argument \<open>past\<close>.\<close>

fun hexToBytes :: "char \<Rightarrow> string \<Rightarrow> sig_error + bytes" where
  "hexToBytes past [] = Inr []"
| "hexToBytes past [a] =
     (case stoi16 a past of None \<Rightarrow> Inl StoiInvalid | Some n \<Rightarrow> Inr [word_of_int n])"
| "hexToBytes past (a # b # rest) =
     (case stoi16 a b of
        None \<Rightarrow> Inl StoiInvalid
      | Some n \<Rightarrow> (case hexToBytes past rest of
                    Inl e \<Rightarrow> Inl e | Inr bs \<Rightarrow> Inr (word_of_int n # bs)))"

section \<open>Keys as bech32 texts\<close>

text \<open>A key of \<open>n\<close> bytes whose first bytes are written from \<open>bs\<close>.\<close>

definition fill_key :: "nat \<Rightarrow> (nat \<Rightarrow> u8) \<Rightarrow> bytes \<Rightarrow> bytes" where
  "fill_key n u bs = take n bs @ map u [length bs..<n]"

definition from_nsec :: "(nat \<Rightarrow> u8) \<Rightarrow> string \<Rightarrow> b32_error + (bool \<times> bytes)" where
  "from_nsec pk nsec =
     (case decode nsec of
        Inl e \<Rightarrow> Inl e
      | Inr r \<Rightarrow>
          if dr_encoding r = Invalid then Inr (False, map pk [0..<32])
          else if dr_hrp r \<noteq> ''nsec'' then Inr (False, map pk [0..<32])
          else Inr (True, fill_key 32 pk (convert_bits 5 8 (dr_dp r))))"

definition from_npub :: "(nat \<Rightarrow> u8) \<Rightarrow> string \<Rightarrow> b32_error + string" where
  "from_npub u npub =
     (case decode npub of
        Inl e \<Rightarrow> Inl e
      | Inr r \<Rightarrow>
          if dr_encoding r = Invalid then Inr []
          else if dr_hrp r \<noteq> ''npub'' then Inr []
          else Inr (sig_to_hex (fill_key 32 u (convert_bits 5 8 (dr_dp r)))))"

definition from_bech32 :: "(nat \<Rightarrow> u8) \<Rightarrow> string \<Rightarrow> string \<Rightarrow> b32_error + string" where
  "from_bech32 u bech cat =
     (case decode bech of
        Inl e \<Rightarrow> Inl e
      | Inr r \<Rightarrow>
          if dr_encoding r = Invalid then Inr []
          else if dr_hrp r \<noteq> cat then Inr []
          else Inr (sig_to_hex (fill_key 32 u (convert_bits 5 8 (dr_dp r)))))"

definition to_npub :: "char \<Rightarrow> (nat \<Rightarrow> u8) \<Rightarrow> string \<Rightarrow> sig_error + string" where
  "to_npub past u public_key =
     (case hexToBytes past public_key of
        Inl e \<Rightarrow> Inl e
      | Inr bs \<Rightarrow>
          (case encode ''npub'' (convert_bits 8 5 (fill_key 32 u bs)) of
             Inl e \<Rightarrow> Inl (Bech32Error e) | Inr s \<Rightarrow> Inr s))"

definition to_bech32 :: "char \<Rightarrow> string \<Rightarrow> string \<Rightarrow> sig_error + string" where
  "to_bech32 past hex type =
     (case hexToBytes past hex of
        Inl e \<Rightarrow> Inl e
      | Inr data \<Rightarrow>
          (case encode type (convert_bits 8 5 data) of
             Inl e \<Rightarrow> Inl (Bech32Error e) | Inr s \<Rightarrow> Inr s))"

definition to_nsec :: "bytes \<Rightarrow> b32_error + string" where
  "to_nsec key = encode ''nsec'' (convert_bits 8 5 key)"

section \<open>Signing and verifying\<close>

record ('k, 'p) secp256k1 =
  xonly_pubkey_parse :: "bytes \<Rightarrow> 'p option"
  schnorrsig_verify :: "bytes \<Rightarrow> bytes \<Rightarrow> 'p \<Rightarrow> bool"
  keypair_create :: "bytes \<Rightarrow> 'k option"
  keypair_xonly_pub :: "'k \<Rightarrow> 'p option"
  xonly_pubkey_serialize :: "'p \<Rightarrow> bytes option"
  schnorrsig_sign :: "bytes \<Rightarrow> 'k \<Rightarrow> bytes option"

definition st_verify :: "('k, 'p) secp256k1 \<Rightarrow> bytes \<Rightarrow> bytes \<Rightarrow> bytes \<Rightarrow> bool" where
  "st_verify S hid pubkey sig =
     (case xonly_pubkey_parse S pubkey of
        None \<Rightarrow> False
      | Some pubkey_parsed \<Rightarrow> schnorrsig_verify S sig hid pubkey_parsed)"

text \<open>The result and the new values of \<open>sig\<close> and \<open>pub\<close>, which an early return leaves.\<close>

definition st_sign ::
    "('k, 'p) secp256k1 \<Rightarrow> bytes \<Rightarrow> bytes \<Rightarrow> bytes \<Rightarrow> bytes \<Rightarrow> bool \<times> bytes \<times> bytes" where
  "st_sign S key hid sig pub =
     (case keypair_create S key of
        None \<Rightarrow> (False, sig, pub)
      | Some kp \<Rightarrow>
          (case keypair_xonly_pub S kp of
             None \<Rightarrow> (False, sig, pub)
           | Some xpub \<Rightarrow>
               (case xonly_pubkey_serialize S xpub of
                  None \<Rightarrow> (False, sig, pub)
                | Some pub' \<Rightarrow>
                    (case schnorrsig_sign S hid kp of
                       None \<Rightarrow> (False, sig, pub') | Some sig' \<Rightarrow> (True, sig', pub')))))"

end
