(* ===== verification/Signature_Roundtrip.thy ===== *)
theory Signature_Roundtrip
  imports Signature
begin

text \<open>
  The correctness of the key conversions of \<open>Signature\<close>: regrouping keeps the sequence of bits,
  so 5-bit groups give back the bytes they were made from, the two hexadecimal writers agree,
  and a key read from its \<open>npub\<close>, \<open>nsec\<close> or other bech32 text is the key that was written.
\<close>

unbundle bit_operations_syntax

section \<open>Regrouping keeps the sequence of bits\<close>

definition bits_of :: "nat \<Rightarrow> 'a::len word \<Rightarrow> bool list" where
  "bits_of n w = map (bit w) (rev [0..<n])"

abbreviation bits_of_list :: "nat \<Rightarrow> bytes \<Rightarrow> bool list" where
  "bits_of_list n xs \<equiv> concat (map (bits_of n) xs)"

lemma length_bits_of [simp]: "length (bits_of n w) = n"
  by (simp add: bits_of_def)

lemma bit_mask_eq: "bit_mask n = mask n"
  by (rule bit_word_eqI) (auto simp: bit_mask_def bit_simps)

lemma bits_of_append:
  assumes "\<And>k. k < n \<Longrightarrow> bit (c :: 'c::len word) (k + m) = bit (a :: 'a::len word) k"
    "\<And>k. k < m \<Longrightarrow> bit c k = bit (b :: 'b::len word) k"
  shows "bits_of (n + m) c = bits_of n a @ bits_of m b"
proof (rule nth_equalityI)
  fix i assume "i < length (bits_of (n + m) c)"
  then have i: "i < n + m" by simp
  show "bits_of (n + m) c ! i = (bits_of n a @ bits_of m b) ! i"
  proof (cases "i < n")
    case True
    have "n + m - Suc i = (n - Suc i) + m" using True by simp
    then show ?thesis using True i assms(1) [of "n - Suc i"]
      by (simp add: bits_of_def nth_append rev_nth)
  next
    case False
    then show ?thesis using i assms(2) [of "n + m - Suc i"]
      by (simp add: bits_of_def nth_append rev_nth add.commute)
  qed
qed simp

lemma emit_bits_spec:
  assumes "emit_bits to accum sz = (bs, sz')" "0 < to" "to \<le> 8" "sz \<le> 32"
  shows "bits_of_list to bs @ bits_of sz' accum = bits_of sz accum \<and> sz' < to
    \<and> to * length bs + sz' = sz"
  using assms
proof (induction to accum sz arbitrary: bs sz' rule: emit_bits.induct)
  case (1 to accum sz)
  let ?b = "drop_bit (sz - to) accum AND bit_mask to"
  show ?case
  proof (cases "sz < to")
    case True
    then have "emit_bits to accum sz = ([], sz)" by (simp add: emit_bits.simps [of to accum sz])
    with 1 True show ?thesis by auto
  next
    case False
    obtain cs where cs: "emit_bits to accum (sz - to) = (cs, sz')" "bs = ucast ?b # cs"
      using 1 False
      by (auto simp: emit_bits.simps [of to accum sz] Let_def split: prod.splits)
    have IH: "bits_of_list to cs @ bits_of sz' accum = bits_of (sz - to) accum" "sz' < to"
      "to * length cs + sz' = sz - to"
      using 1 False cs(1) by auto
    have "bits_of (to + (sz - to)) accum = bits_of to (ucast ?b :: u8) @ bits_of (sz - to) accum"
      using 1 False
      by (intro bits_of_append) (auto simp: bit_mask_eq bit_simps add.commute)
    then show ?thesis using IH False by (simp add: cs(2) algebra_simps)
  qed
qed

lemma bits_of_step:
  assumes "sz + from \<le> 32" "from \<le> 8"
  shows "bits_of (sz + from) (push_bit from (accum :: u32) OR (ucast (x :: u8) AND bit_mask from))
    = bits_of sz accum @ bits_of from x"
  using assms by (intro bits_of_append) (auto simp: bit_mask_eq bit_simps)

lemma bits_of_pad:
  assumes "sz \<le> to" "to \<le> 8"
  shows "bits_of to (ucast (push_bit (to - sz) (accum :: u32) AND bit_mask to) :: u8)
    = bits_of sz accum @ replicate (to - sz) False"
proof -
  have "bits_of (sz + (to - sz)) (ucast (push_bit (to - sz) accum AND bit_mask to) :: u8)
      = bits_of sz accum @ bits_of (to - sz) (0 :: u8)"
    using assms by (intro bits_of_append) (auto simp: bit_mask_eq bit_simps)
  moreover have "bits_of n (0 :: u8) = replicate n False" for n
    by (rule nth_equalityI) (simp_all add: bits_of_def)
  ultimately show ?thesis using assms(1) by simp
qed

text \<open>
  Regrouping into smaller groups keeps the bits and pads with zeros to a whole group; into
  larger groups it keeps the bits and drops what does not fill a group.
\<close>

lemma convert_bits_loop_cons:
  assumes "0 < to" "to \<le> 8" "from \<le> 8" "sz < to"
  shows "\<exists>bs a sz'. convert_bits_loop from to (x # xs) accum sz
      = bs @ convert_bits_loop from to xs a sz' \<and>
    bits_of_list to bs @ bits_of sz' a = bits_of sz accum @ bits_of from x \<and> sz' < to"
proof -
  define a where "a = push_bit from accum OR (ucast x AND bit_mask from)"
  obtain bs sz' where e: "emit_bits to a (sz + from) = (bs, sz')" by fastforce
  have le: "sz + from \<le> 32" using assms by linarith
  note spec = emit_bits_spec [OF e assms(1,2) le]
  show ?thesis
  proof (intro exI conjI)
    show "convert_bits_loop from to (x # xs) accum sz = bs @ convert_bits_loop from to xs a sz'"
      using e by (simp add: Let_def a_def)
    show "bits_of_list to bs @ bits_of sz' a = bits_of sz accum @ bits_of from x"
      using spec bits_of_step [OF le assms(3)] by (simp add: a_def)
  qed (use spec in simp)
qed

lemma convert_bits_loop_down:
  assumes "0 < to" "to < from" "from \<le> 8" "sz < to"
  shows "\<exists>k < to. bits_of_list to (convert_bits_loop from to xs accum sz)
    = bits_of sz accum @ bits_of_list from xs @ replicate k False"
  using assms(4)
proof (induction xs arbitrary: accum sz)
  case Nil
  show ?case
  proof (cases "sz = 0")
    case True
    with assms show ?thesis by (intro exI [of _ 0]) (simp add: bits_of_def)
  next
    case False
    with Nil assms show ?thesis by (intro exI [of _ "to - sz"]) (simp add: bits_of_pad)
  qed
next
  case (Cons x xs)
  obtain bs a sz' where c: "convert_bits_loop from to (x # xs) accum sz
      = bs @ convert_bits_loop from to xs a sz'"
    "bits_of_list to bs @ bits_of sz' a = bits_of sz accum @ bits_of from x" "sz' < to"
    using convert_bits_loop_cons [of to "from" sz x xs accum] Cons.prems assms by auto
  from Cons.IH [OF c(3), of a] obtain k where "k < to"
    "bits_of_list to (convert_bits_loop from to xs a sz')
      = bits_of sz' a @ bits_of_list from xs @ replicate k False" by blast
  then show ?case
    unfolding c(1) by (intro exI [of _ k]) (simp, metis c(2) append_assoc)
qed

lemma convert_bits_loop_up:
  assumes "0 < to" "from \<le> to" "to \<le> 8" "sz < to"
  shows "\<exists>tail. length tail < to \<and> bits_of_list to (convert_bits_loop from to xs accum sz) @ tail
    = bits_of sz accum @ bits_of_list from xs"
  using assms(4)
proof (induction xs arbitrary: accum sz)
  case Nil
  with assms(2) show ?case by (intro exI [of _ "bits_of sz accum"]) simp
next
  case (Cons x xs)
  obtain bs a sz' where c: "convert_bits_loop from to (x # xs) accum sz
      = bs @ convert_bits_loop from to xs a sz'"
    "bits_of_list to bs @ bits_of sz' a = bits_of sz accum @ bits_of from x" "sz' < to"
    using convert_bits_loop_cons [of to "from" sz x xs accum] Cons.prems assms by auto
  from Cons.IH [OF c(3), of a] obtain tail where "length tail < to"
    "bits_of_list to (convert_bits_loop from to xs a sz') @ tail
      = bits_of sz' a @ bits_of_list from xs" by blast
  then show ?case
    unfolding c(1) by (intro exI [of _ tail]) (simp, metis c(2) append_assoc)
qed

lemma length_bits_of_list [simp]: "length (bits_of_list n xs) = n * length xs"
  by (induction xs) auto

lemma bits_of_8_inj: "bits_of 8 (a :: u8) = bits_of 8 b \<Longrightarrow> a = b"
proof (rule bit_word_eqI)
  fix n assume eq: "bits_of 8 a = bits_of 8 b" and "n < LENGTH(8)"
  then have "bits_of 8 a ! (7 - n) = bits_of 8 b ! (7 - n)" "n < 8" by simp_all
  then show "bit a n = bit b n" by (simp add: bits_of_def rev_nth)
qed

lemma bits_of_list_8_inj:
  "length xs = length ys \<Longrightarrow> bits_of_list 8 xs @ s = bits_of_list 8 ys @ t \<Longrightarrow> xs = ys"
proof (induction xs ys rule: list_induct2)
  case (Cons x xs y ys)
  then have "bits_of 8 x = bits_of 8 y" "bits_of_list 8 xs @ s = bits_of_list 8 ys @ t"
    by (simp_all add: append_eq_append_conv)
  with Cons show ?case by (simp add: bits_of_8_inj)
qed simp

lemma convert_bits_round_trip: "convert_bits 5 8 (convert_bits 8 5 bs) = bs"
proof -
  obtain k where k: "k < 5"
    "bits_of_list 5 (convert_bits 8 5 bs) = bits_of_list 8 bs @ replicate k False"
    using convert_bits_loop_down [of 5 8 0 bs 0] by (auto simp: convert_bits_def bits_of_def)
  obtain tail where t: "length tail < 8"
    "bits_of_list 8 (convert_bits 5 8 (convert_bits 8 5 bs)) @ tail
      = bits_of_list 8 bs @ replicate k False"
    using convert_bits_loop_up [of 8 5 0 "convert_bits 8 5 bs" 0] k(2)
    by (auto simp: convert_bits_def [of 5] bits_of_def)
  have "8 * length (convert_bits 5 8 (convert_bits 8 5 bs)) + length tail = 8 * length bs + k"
    using arg_cong [OF t(2), of length] by simp
  then have "length (convert_bits 5 8 (convert_bits 8 5 bs)) = length bs"
    using t(1) k(1) by presburger
  from bits_of_list_8_inj [OF this t(2)] show ?thesis .
qed

interpretation regrouped: codec "convert_bits 8 5" "\<lambda>ds. Some (convert_bits 5 8 ds)" "\<lambda>_. True"
  by unfold_locales (simp add: convert_bits_round_trip)

section \<open>Hexadecimal text\<close>

lemma hexletters_char: "b \<le> 15 \<Longrightarrow> hexletters ! unat b = hex_char b"
proof -
  assume "b \<le> 15"
  then have "b \<in> set (map of_nat [0..<16])"
    by (intro word_below_enum) (simp add: word_le_nat_alt)
  moreover have "list_all (\<lambda>b. hexletters ! unat b = hex_char b) (map of_nat [0..<16])"
    by code_simp
  ultimately show ?thesis unfolding list_all_iff by blast
qed

lemma sig_to_hex_eq: "sig_to_hex bs = to_hex bs"
  by (induction bs)
    (simp_all add: sig_to_hex_def to_hex_def hexletters_char drop_bit_4_u8_le and_15_u8_le)

lemma stoi16_hex_char:
  assumes "hi \<le> 15" "lo \<le> 15"
  shows "stoi16 (hex_char hi) (hex_char lo) = Some (16 * uint hi + uint lo)"
proof -
  have ch: "xdigit (hex_char b) = Some (uint b) \<and> \<not> c_isspace (hex_char b) \<and>
      hex_char b \<noteq> CHR ''+'' \<and> hex_char b \<noteq> CHR ''-''" if "b \<le> 15" for b
  proof -
    have "list_all (\<lambda>b. xdigit (hex_char b) = Some (uint b) \<and> \<not> c_isspace (hex_char b) \<and>
        hex_char b \<noteq> CHR ''+'' \<and> hex_char b \<noteq> CHR ''-'') (map of_nat [0..<16])"
      by code_simp
    moreover have "b \<in> set (map of_nat [0..<16])"
      using that by (intro word_below_enum) (simp add: word_le_nat_alt)
    ultimately show ?thesis unfolding list_all_iff by (rule bspec)
  qed
  show ?thesis using ch [OF assms(1)] ch [OF assms(2)] by (simp add: stoi16_def)
qed

lemma nibbles_of_byte: "16 * drop_bit 4 b + (b AND 15) = (b :: u8)"
proof -
  have low: "b AND 15 = take_bit 4 b"
    by (simp add: take_bit_eq_mask mask_eq_exp_minus_1)
  have "push_bit 4 (drop_bit 4 b) + take_bit 4 b = push_bit 4 (drop_bit 4 b) OR take_bit 4 b"
    by (rule disjunctive_add) (auto simp: bit_simps)
  then show ?thesis
    using nibbles_join [of b] by (simp add: low push_bit_eq_mult mult.commute)
qed

lemma hexToBytes_to_hex: "hexToBytes past (to_hex bs) = Inr bs"
  by (induction bs)
    (simp_all add: to_hex_def stoi16_hex_char drop_bit_4_u8_le and_15_u8_le nibbles_of_byte)

lemma length_fill_key [simp]: "length (fill_key n u bs) = n"
  by (simp add: fill_key_def)

lemma fill_key_exact [simp]: "length bs = n \<Longrightarrow> fill_key n u bs = bs"
  by (simp add: fill_key_def)

section \<open>The data part of a key\<close>

lemma masked_below: "unat (ucast (a AND bit_mask 5 :: u32) :: u8) < 32"
proof -
  have "take_bit 5 (ucast (a AND bit_mask 5 :: u32) :: u8) = ucast (a AND bit_mask 5)"
    by (rule bit_word_eqI) (auto simp: bit_simps bit_mask_eq)
  then have "take_bit 5 (unat (ucast (a AND bit_mask 5) :: u8)) = unat (ucast (a AND bit_mask 5) :: u8)"
    by (metis unsigned_take_bit_eq)
  then show ?thesis using take_bit_nat_less_exp [of 5 "unat (ucast (a AND bit_mask 5) :: u8)"]
    by simp
qed

lemma emit_bits_below:
  "emit_bits 5 accum sz = (bs, sz') \<Longrightarrow> list_all (\<lambda>v. unat v < 32) bs"
proof (induction sz arbitrary: bs sz' rule: less_induct)
  case (less sz)
  show ?case
  proof (cases "sz < 5")
    case False
    obtain cs s where cs: "emit_bits 5 accum (sz - 5) = (cs, s)" by fastforce
    have "list_all (\<lambda>v. unat v < 32) cs" using less.IH [OF _ cs] False by simp
    with less.prems cs False show ?thesis
      by (auto simp: emit_bits.simps [of 5 accum sz] Let_def masked_below)
  qed (use less.prems in \<open>simp add: emit_bits.simps [of 5 accum sz]\<close>)
qed

lemma convert_bits_8_5_below: "list_all (\<lambda>v. unat v < 32) (convert_bits_loop 8 5 bs accum sz)"
proof (induction bs arbitrary: accum sz)
  case (Cons x xs)
  then show ?case
    by (auto simp: Let_def dest: emit_bits_below split: prod.splits)
qed (simp add: masked_below)

lemma length_convert_bits_8_5:
  "5 * length (convert_bits 8 5 bs) < 8 * length bs + 5"
proof -
  obtain k where "k < 5"
    "bits_of_list 5 (convert_bits 8 5 bs) = bits_of_list 8 bs @ replicate k False"
    using convert_bits_loop_down [of 5 8 0 bs 0] by (auto simp: convert_bits_def bits_of_def)
  from arg_cong [OF this(2), of length] this(1) show ?thesis by simp
qed

lemma key_encodable:
  assumes "length k = 32" "hrp \<noteq> []" "length hrp \<le> 31" "list_all hrp_char_ok hrp"
  shows "encodable hrp (convert_bits 8 5 k)"
  using assms convert_bits_8_5_below [of k 0 0] length_convert_bits_8_5 [of k]
  unfolding encodable_def convert_bits_def by linarith

lemma key_text:
  assumes "length k = 32" "hrp \<noteq> []" "length hrp \<le> 31" "list_all hrp_char_ok hrp"
  obtains s where "encode hrp (convert_bits 8 5 k) = Inr s"
    "decode s = Inr \<lparr>dr_encoding = Bech32m, dr_hrp = convertToLowercase hrp,
       dr_dp = convert_bits 8 5 k\<rparr>"
  using decode_encode_aux(1) [OF key_encodable [OF assms]] by blast

section \<open>Properties\<close>

text \<open>C12: a 32-byte key written as \<open>npub\<close>, as \<open>nsec\<close> or under any other lower-case prefix is read
back from that text, whatever the memory of the destination held.\<close>

theorem key_text_round_trip:
  assumes "length k = 32" "list_all hrp_char_ok t" "t \<noteq> []" "length t \<le> 31"
    "convertToLowercase t = t"
  shows "\<exists>npub nsec other.
    to_npub past u (to_hex k) = Inr npub \<and> from_npub v npub = Inr (to_hex k) \<and>
    to_nsec k = Inr nsec \<and> from_nsec v nsec = Inr (True, k) \<and>
    to_bech32 past (to_hex k) t = Inr other \<and> from_bech32 v other t = Inr (to_hex k)"
proof -
  have low: "convertToLowercase ''npub'' = ''npub''" "convertToLowercase ''nsec'' = ''nsec''"
    by code_simp+
  have ok: "list_all hrp_char_ok ''npub''" "list_all hrp_char_ok ''nsec''"
    by (simp_all add: hrp_char_ok_def byte_of_def)
  obtain a where a: "encode ''npub'' (convert_bits 8 5 k) = Inr a" "decode a
      = Inr \<lparr>dr_encoding = Bech32m, dr_hrp = ''npub'', dr_dp = convert_bits 8 5 k\<rparr>"
    using key_text [OF assms(1) _ _ ok(1)] low by auto
  obtain b where b: "encode ''nsec'' (convert_bits 8 5 k) = Inr b" "decode b
      = Inr \<lparr>dr_encoding = Bech32m, dr_hrp = ''nsec'', dr_dp = convert_bits 8 5 k\<rparr>"
    using key_text [OF assms(1) _ _ ok(2)] low by auto
  obtain c where c: "encode t (convert_bits 8 5 k) = Inr c" "decode c
      = Inr \<lparr>dr_encoding = Bech32m, dr_hrp = t, dr_dp = convert_bits 8 5 k\<rparr>"
    using key_text [OF assms(1,3,4,2)] assms(5) by metis
  show ?thesis
    by (intro exI [of _ a] exI [of _ b] exI [of _ c])
      (simp add: to_npub_def to_nsec_def to_bech32_def from_npub_def from_nsec_def
        from_bech32_def hexToBytes_to_hex assms(1) a b c convert_bits_round_trip sig_to_hex_eq)
qed

lemma key_text_round_trip_witness:
  "\<exists>npub nsec other.
    to_npub CHR 0x00 (\<lambda>_. 0) (to_hex (replicate 32 7)) = Inr npub \<and>
    from_npub (\<lambda>_. 255) npub = Inr (to_hex (replicate 32 7)) \<and>
    to_nsec (replicate 32 7) = Inr nsec \<and> from_nsec (\<lambda>_. 255) nsec = Inr (True, replicate 32 7) \<and>
    to_bech32 CHR 0x00 (to_hex (replicate 32 7)) ''note'' = Inr other \<and>
    from_bech32 (\<lambda>_. 255) other ''note'' = Inr (to_hex (replicate 32 7))"
proof (rule key_text_round_trip)
  show "list_all hrp_char_ok ''note''" by (simp add: hrp_char_ok_def byte_of_def)
  show "convertToLowercase ''note'' = ''note''" by code_simp
qed simp_all

end
