(* ===== verification/Nostr_Kinds.thy ===== *)
theory Nostr_Kinds
  imports Nostr_Prelude
begin

text \<open>
  \<^verbatim>\<open>src/src/nostr_server/kinds.h\<close>: the event kinds the relay knows by name, as constants of the
  code's \<open>unsigned int\<close>, and the half-open ranges of the replaceable, ephemeral and
  parameterized replaceable kinds. \<open>kind_defs\<close> evaluates them.
\<close>

type_synonym kind = u32

definition Metadata :: kind where "Metadata = 0"
definition Short_Text_Note :: kind where "Short_Text_Note = 1"
definition Recommend_Relay :: kind where "Recommend_Relay = 2"
definition Contacts :: kind where "Contacts = 3"
definition Encrypted_Direct_Messages :: kind where "Encrypted_Direct_Messages = 4"
definition Event_Deletion :: kind where "Event_Deletion = 5"
definition Repost :: kind where "Repost = 6"
definition Reaction :: kind where "Reaction = 7"
definition Badge_Award :: kind where "Badge_Award = 8"
definition Resources :: kind where "Resources = 9"
definition Decoy_Key :: kind where "Decoy_Key = 12"
definition Git_Commit :: kind where "Git_Commit = 17"
definition Chess :: kind where "Chess = 30"
definition Professional_resume :: kind where "Professional_resume = 66"
definition Reputation :: kind where "Reputation = 32"
definition Channel_Creation :: kind where "Channel_Creation = 40"
definition Channel_Metadata :: kind where "Channel_Metadata = 41"
definition Channel_Message :: kind where "Channel_Message = 42"
definition Channel_Hide_Message :: kind where "Channel_Hide_Message = 43"
definition Channel_Mute_User :: kind where "Channel_Mute_User = 44"
definition Encrypted_Group_Chat :: kind where "Encrypted_Group_Chat = 104"
definition nosbin_Pastes :: kind where "nosbin_Pastes = 1050"
definition nosbin_Comments :: kind where "nosbin_Comments = 1051"
definition Gift_Wrap_Event :: kind where "Gift_Wrap_Event = 1059"
definition File_Header :: kind where "File_Header = 1063"
definition Reporting :: kind where "Reporting = 1984"
definition Geospatial_Types :: kind where "Geospatial_Types = 4326"
definition Lightning_Zap_Request :: kind where "Lightning_Zap_Request = 9734"
definition Lightning_Zap_Invoice_Receipts :: kind where "Lightning_Zap_Invoice_Receipts = 9735"
definition Mute_List :: kind where "Mute_List = 10000"
definition Pin_List :: kind where "Pin_List = 10001"
definition Relay_List_Metadata :: kind where "Relay_List_Metadata = 10002"
definition Coracle_Mute_Lists :: kind where "Coracle_Mute_Lists = 12165"
definition Wallet_Info :: kind where "Wallet_Info = 13194"
definition Client_Authentication :: kind where "Client_Authentication = 22242"
definition Nostr_Connect :: kind where "Nostr_Connect = 24133"
definition Categorized_People_List :: kind where "Categorized_People_List = 30000"
definition Categorized_Bookmark_List :: kind where "Categorized_Bookmark_List = 30001"
definition Profile_Badge :: kind where "Profile_Badge = 30008"
definition Badge_Definition :: kind where "Badge_Definition = 30009"
definition Long_form_Content :: kind where "Long_form_Content = 30023"
definition Arbitrary_custom_app_data :: kind where "Arbitrary_custom_app_data = 30078"
definition Relay_Status :: kind where "Relay_Status = 30303"
definition Replaceable_Begin :: kind where "Replaceable_Begin = 10000"
definition Replaceable_End :: kind where "Replaceable_End = 20000"
definition Ephemeral_Begin :: kind where "Ephemeral_Begin = 20000"
definition Ephemeral_End :: kind where "Ephemeral_End = 30000"
definition Parameterized_Replaceable_Begin :: kind where "Parameterized_Replaceable_Begin = 30000"
definition Parameterized_Replaceable_End :: kind where "Parameterized_Replaceable_End = 40000"

lemmas kind_defs =
  Metadata_def Short_Text_Note_def Recommend_Relay_def Contacts_def
  Encrypted_Direct_Messages_def Event_Deletion_def Repost_def Reaction_def Badge_Award_def
  Resources_def Decoy_Key_def Git_Commit_def Chess_def Professional_resume_def Reputation_def
  Channel_Creation_def Channel_Metadata_def Channel_Message_def Channel_Hide_Message_def
  Channel_Mute_User_def Encrypted_Group_Chat_def nosbin_Pastes_def nosbin_Comments_def
  Gift_Wrap_Event_def File_Header_def Reporting_def Geospatial_Types_def
  Lightning_Zap_Request_def Lightning_Zap_Invoice_Receipts_def Mute_List_def Pin_List_def
  Relay_List_Metadata_def Coracle_Mute_Lists_def Wallet_Info_def Client_Authentication_def
  Nostr_Connect_def Categorized_People_List_def Categorized_Bookmark_List_def Profile_Badge_def
  Badge_Definition_def Long_form_Content_def Arbitrary_custom_app_data_def Relay_Status_def
  Replaceable_Begin_def Replaceable_End_def Ephemeral_Begin_def Ephemeral_End_def
  Parameterized_Replaceable_Begin_def Parameterized_Replaceable_End_def

text \<open>No kind is both ephemeral and replaceable: the three ranges follow each other.\<close>

lemma kind_ranges_consecutive:
  "Replaceable_Begin < Replaceable_End" "Replaceable_End = Ephemeral_Begin"
  "Ephemeral_Begin < Ephemeral_End" "Ephemeral_End = Parameterized_Replaceable_Begin"
  "Parameterized_Replaceable_Begin < Parameterized_Replaceable_End"
  by (simp_all add: kind_defs)

end
