(* ===== verification/Json_Ops.thy ===== *)
theory Json_Ops
  imports Nostr_Prelude
begin

text \<open>
  The interface of the JSON document library the relay links (\<open>docdb::Structured\<close>), which is not
  part of the repository: a record of the operations the sources call, over an arbitrary type
  of documents. Every definition that reads or builds a document takes the record as its
  argument \<open>J\<close>.

  \<open>json_laws\<close> states what the sources rely on: a value of each type is recognised and read back,
  a field of an object is found under its name, and the three kinds of value are told apart.
  The datatype \<open>json\<close> with \<open>json_ref\<close> is a concrete instance, used only to show that the laws can
  hold and to evaluate definitions.
\<close>

record 'j json_ops =
  j_defined :: "'j \<Rightarrow> bool"                       \<comment> \<open>\<open>defined()\<close>\<close>
  j_field :: "'j \<Rightarrow> string \<Rightarrow> 'j"                 \<comment> \<open>\<open>doc["name"]\<close>, undefined when absent\<close>
  j_item :: "'j \<Rightarrow> nat \<Rightarrow> 'j"                     \<comment> \<open>\<open>doc[i]\<close>, undefined when absent\<close>
  j_is_array :: "'j \<Rightarrow> bool"                      \<comment> \<open>\<open>contains<Array>()\<close>\<close>
  j_array :: "'j \<Rightarrow> 'j list"                      \<comment> \<open>\<open>array()\<close>, empty for other values\<close>
  j_keypairs :: "'j \<Rightarrow> (string \<times> 'j) list"        \<comment> \<open>\<open>keypairs()\<close>, empty for other values\<close>
  j_is_string :: "'j \<Rightarrow> bool"                     \<comment> \<open>\<open>contains<std::string_view>()\<close>\<close>
  j_string :: "'j \<Rightarrow> string"                      \<comment> \<open>\<open>as<std::string_view>()\<close>\<close>
  j_text :: "'j \<Rightarrow> string"                        \<comment> \<open>\<open>as<std::string>()\<close>, a conversion of any value\<close>
  j_is_time :: "'j \<Rightarrow> bool"                       \<comment> \<open>\<open>contains<std::time_t>()\<close>\<close>
  j_time :: "'j \<Rightarrow> time_t"                        \<comment> \<open>\<open>as<std::time_t>()\<close>\<close>
  j_is_uint :: "'j \<Rightarrow> bool"                       \<comment> \<open>\<open>contains<unsigned int>()\<close>\<close>
  j_uint :: "'j \<Rightarrow> u32"                           \<comment> \<open>\<open>as<unsigned int>()\<close>\<close>
  j_bool :: "'j \<Rightarrow> bool"                          \<comment> \<open>\<open>as<bool>()\<close>\<close>
  mk_string :: "string \<Rightarrow> 'j"
  mk_time :: "time_t \<Rightarrow> 'j"
  mk_uint :: "u32 \<Rightarrow> 'j"
  mk_int :: "int \<Rightarrow> 'j"                       \<comment> \<open>an \<open>int\<close> or \<open>std::intmax_t\<close>\<close>
  mk_bool :: "bool \<Rightarrow> 'j"
  mk_array :: "'j list \<Rightarrow> 'j"
  mk_object :: "(string \<times> 'j) list \<Rightarrow> 'j"
  j_set :: "'j \<Rightarrow> string \<Rightarrow> 'j \<Rightarrow> 'j"             \<comment> \<open>\<open>doc.set(name, value)\<close>\<close>
  j_to_json :: "'j \<Rightarrow> string"                     \<comment> \<open>\<open>to_json()\<close>\<close>
  j_to_json_utf8 :: "'j \<Rightarrow> string"                \<comment> \<open>\<open>to_json(flagUTF8)\<close>\<close>

definition json_laws :: "'j json_ops \<Rightarrow> bool" where
  "json_laws J \<longleftrightarrow>
     (\<forall>s. j_is_string J (mk_string J s) \<and> j_string J (mk_string J s) = s \<and>
          j_text J (mk_string J s) = s \<and> j_defined J (mk_string J s)) \<and>
     (\<forall>t. j_is_time J (mk_time J t) \<and> j_time J (mk_time J t) = t \<and> j_defined J (mk_time J t)) \<and>
     (\<forall>n. j_is_uint J (mk_uint J n) \<and> j_uint J (mk_uint J n) = n \<and> j_defined J (mk_uint J n)) \<and>
     (\<forall>xs. j_is_array J (mk_array J xs) \<and> j_array J (mk_array J xs) = xs \<and>
          j_defined J (mk_array J xs) \<and> \<not> j_is_string J (mk_array J xs)) \<and>
     (\<forall>kvs k v. map_of kvs k = Some v \<longrightarrow> j_field J (mk_object J kvs) k = v) \<and>
     (\<forall>kvs k v k'. j_field J (j_set J (mk_object J kvs) k v) k'
          = (if k' = k then v else j_field J (mk_object J kvs) k'))"

lemma json_laws_simps:
  assumes "json_laws J"
  shows "j_is_string J (mk_string J s)" "j_string J (mk_string J s) = s"
    "j_text J (mk_string J s) = s" "j_defined J (mk_string J s)"
    "j_is_time J (mk_time J t)" "j_time J (mk_time J t) = t"
    "j_is_uint J (mk_uint J n)" "j_uint J (mk_uint J n) = n"
    "j_is_array J (mk_array J xs)" "j_array J (mk_array J xs) = xs" "j_defined J (mk_array J xs)"
    "\<not> j_is_string J (mk_array J xs)"
    "map_of kvs k = Some v \<Longrightarrow> j_field J (mk_object J kvs) k = v"
    "j_field J (j_set J (mk_object J kvs) k v) k'
       = (if k' = k then v else j_field J (mk_object J kvs) k')"
  using assms unfolding json_laws_def by blast+

section \<open>A concrete instance\<close>

datatype json =
    Undefined
  | JString string
  | JNumber int
  | JArray "json list"
  | JObject "(string \<times> json) list"

fun ref_field :: "json \<Rightarrow> string \<Rightarrow> json" where
  "ref_field (JObject kvs) k = (case map_of kvs k of Some v \<Rightarrow> v | None \<Rightarrow> Undefined)"
| "ref_field _ k = Undefined"

fun ref_array :: "json \<Rightarrow> json list" where
  "ref_array (JArray xs) = xs"
| "ref_array _ = []"

fun ref_keypairs :: "json \<Rightarrow> (string \<times> json) list" where
  "ref_keypairs (JObject kvs) = kvs"
| "ref_keypairs _ = []"

fun ref_string :: "json \<Rightarrow> string" where
  "ref_string (JString s) = s"
| "ref_string _ = []"

fun ref_number :: "json \<Rightarrow> int" where
  "ref_number (JNumber n) = n"
| "ref_number _ = 0"

fun ref_set :: "json \<Rightarrow> string \<Rightarrow> json \<Rightarrow> json" where
  "ref_set (JObject kvs) k v = JObject ((k, v) # kvs)"
| "ref_set _ k v = JObject [(k, v)]"

text \<open>A text that shows the value, enough to tell small documents apart.\<close>

fun ref_text :: "json \<Rightarrow> string" where
  "ref_text (JString s) = s"
| "ref_text (JArray xs) = CHR ''['' # concat (map ref_text xs) @ '']''"
| "ref_text _ = ''''"

definition json_ref :: "json json_ops" where
  "json_ref =
     \<lparr>j_defined = (\<lambda>j. case j of Undefined \<Rightarrow> False | _ \<Rightarrow> True),
      j_field = ref_field,
      j_item = (\<lambda>j i. if i < length (ref_array j) then ref_array j ! i else Undefined),
      j_is_array = (\<lambda>j. case j of JArray _ \<Rightarrow> True | _ \<Rightarrow> False),
      j_array = ref_array,
      j_keypairs = ref_keypairs,
      j_is_string = (\<lambda>j. case j of JString _ \<Rightarrow> True | _ \<Rightarrow> False),
      j_string = ref_string,
      j_text = ref_text,
      j_is_time = (\<lambda>j. case j of JNumber n \<Rightarrow> - (2 ^ 63) \<le> n \<and> n < 2 ^ 63 | _ \<Rightarrow> False),
      j_time = (\<lambda>j. word_of_int (ref_number j)),
      j_is_uint = (\<lambda>j. case j of JNumber n \<Rightarrow> 0 \<le> n \<and> n < 2 ^ 32 | _ \<Rightarrow> False),
      j_uint = (\<lambda>j. word_of_int (ref_number j)),
      j_bool = (\<lambda>j. ref_number j \<noteq> 0),
      mk_string = JString,
      mk_time = (\<lambda>t. JNumber (sint t)),
      mk_uint = (\<lambda>n. JNumber (uint n)),
      mk_int = JNumber,
      mk_bool = (\<lambda>b. JNumber (if b then 1 else 0)),
      mk_array = JArray,
      mk_object = JObject,
      j_set = ref_set,
      j_to_json = ref_text,
      j_to_json_utf8 = ref_text\<rparr>"

lemma json_ref_laws: "json_laws json_ref"
proof -
  have "- (2 ^ 63) \<le> sint t \<and> sint t < 2 ^ 63" for t :: time_t
    using sint_ge [of t] sint_lt [of t] by simp
  moreover have "0 \<le> uint n \<and> uint n < 2 ^ 32" for n :: u32
    using unsigned_less [of n] by simp
  ultimately show ?thesis
    by (auto simp: json_laws_def json_ref_def)
qed

end
