(* ===== verification/Event.thy ===== *)
theory Event
  imports Signature Nostr_Kinds Json_Ops
begin

text \<open>
  \<^verbatim>\<open>src/src/nostr_server/event.h\<close> and \<^verbatim>\<open>event.cpp\<close>: the event, its tags, the open-addressing table
  that indexes the single-character tags, and the reading and writing of events as JSON
  documents.

  SHA-256 (\<open>sha\<close>) and the hash of the standard library (\<open>hash\<close>) are arguments, the JSON library
  is the record \<open>J\<close> of \<open>Json_Ops\<close>, and \<open>mem k\<close> is the indeterminate memory the \<open>k\<close>-th call of
  \<open>from_hex\<close> leaves in the bytes it does not reach. A loop of the table that would never meet an
  empty slot is \<open>None\<close>; \<open>tag_hash_table_returns\<close> shows that it cannot happen.
\<close>

unbundle bit_operations_syntax

section \<open>Data\<close>

record Tag =
  tg_tag :: string
  tg_content :: string
  tg_additional_content :: "string list"

record Event =
  ev_kind :: kind
  ev_content :: string
  ev_tags :: "Tag list"
  ev_created_at :: time_t
  ev_tag_hash_map :: "u16 list"
  ev_id :: bytes
  ev_author :: bytes
  ev_sig :: bytes
  ev_nip97 :: bool
  ev_trusted :: bool
  ev_ref_level :: u8

record Attachment =
  att_id :: bytes
  att_data :: string

datatype EventOrAttachment = AnEvent Event | AnAttachment Attachment

datatype parse_error =
    field_id | field_content | field_signature | field_created_at | field_tags | field_kind
  | field_pubkey | tag_mustbe_string | tag_value_mustbe_string | tagdef_isnot_array | invalid_id

definition parse_error_message :: "parse_error \<Rightarrow> string" where
  "parse_error_message e =
     (case e of
        field_content \<Rightarrow> ''Field 'content' missing or is not string''
      | field_id \<Rightarrow> ''Field 'id' missing or is not string''
      | field_created_at \<Rightarrow> ''Field 'create_at' missing or is not an unsigned number''
      | field_signature \<Rightarrow> ''Field 'signature' missing or is not string''
      | field_tags \<Rightarrow> ''Field 'tags' is not an array''
      | field_kind \<Rightarrow> ''Field 'kind' missing or is not an unsigned number''
      | field_pubkey \<Rightarrow> ''Field 'pubkey' missing or is not string''
      | tag_mustbe_string \<Rightarrow> ''Tag must be non-empty string''
      | tag_value_mustbe_string \<Rightarrow> ''Tag value must be string''
      | tagdef_isnot_array \<Rightarrow> ''Tag definition must be non-empty array with at least 2 values''
      | invalid_id \<Rightarrow> ''Invalid event id'')"

section \<open>Access to the tags\<close>

text \<open>The loop keeps the last match.\<close>

definition get_tag :: "Event \<Rightarrow> string \<Rightarrow> Tag option" where
  "get_tag ev tag = fold (\<lambda>t r. if tg_tag t = tag then Some t else r) (ev_tags ev) None"

definition get_tag_content :: "Event \<Rightarrow> string \<Rightarrow> string" where
  "get_tag_content ev tag = (case get_tag ev tag of Some t \<Rightarrow> tg_content t | None \<Rightarrow> [])"

definition for_each_tag :: "Event \<Rightarrow> string \<Rightarrow> (Tag \<Rightarrow> 's \<Rightarrow> 's) \<Rightarrow> 's \<Rightarrow> 's" where
  "for_each_tag ev tag fn s = fold (\<lambda>t s. if tg_tag t = tag then fn t s else s) (ev_tags ev) s"

definition get_attachment_id :: "(nat \<Rightarrow> u8) \<Rightarrow> Event \<Rightarrow> bytes" where
  "get_attachment_id u ev = from_hex 32 u (get_tag_content ev ''x'')"

section \<open>The table of the single-character tags\<close>

text \<open>\<open>hasher(content) * 31 + t\<close> in \<open>size_t\<close>; \<open>t\<close> is a signed \<open>char\<close>, converted with its sign.\<close>

definition tag_hash :: "(string \<Rightarrow> u64) \<Rightarrow> char \<Rightarrow> string \<Rightarrow> u64" where
  "tag_hash hash t content = hash content * 31 + scast (byte_of t)"

text \<open>
  The loop that looks for an empty slot, at most \<open>fuel\<close> turns. Every turn moves to the next slot
  of the ring, so a ring with no empty slot in \<open>length m\<close> turns has none at all.
\<close>

fun free_slot :: "nat \<Rightarrow> u16 list \<Rightarrow> nat \<Rightarrow> nat option" where
  "free_slot 0 m idx = None"
| "free_slot (Suc fuel) m idx =
     (if m ! idx = 0 then Some idx else free_slot fuel m ((idx + 1) mod length m))"

text \<open>One turn of \<open>build_hash_map\<close>: \<open>i\<close> is the tag's position, stored as a 16-bit \<open>i + 1\<close>.\<close>

definition index_tag :: "(string \<Rightarrow> u64) \<Rightarrow> nat \<times> Tag \<Rightarrow> u16 list \<Rightarrow> u16 list option" where
  "index_tag hash it m =
     (let t = snd it in
      if length (tg_tag t) \<noteq> 1 then Some m
      else let idx = unat (tag_hash hash (tg_tag t ! 0) (tg_content t)) mod length m
           in case free_slot (length m) m idx of
                None \<Rightarrow> None
              | Some idx \<Rightarrow> Some (m[idx := of_nat (fst it + 1)]))"

fun index_tags :: "(string \<Rightarrow> u64) \<Rightarrow> (nat \<times> Tag) list \<Rightarrow> u16 list \<Rightarrow> u16 list option" where
  "index_tags hash [] m = Some m"
| "index_tags hash (it # its) m =
     (case index_tag hash it m of None \<Rightarrow> None | Some m' \<Rightarrow> index_tags hash its m')"

definition tag_hash_table :: "(string \<Rightarrow> u64) \<Rightarrow> Tag list \<Rightarrow> u16 list option" where
  "tag_hash_table hash tags =
     index_tags hash (enumerate 0 tags) (replicate (length tags * 2 + 1) 0)"

definition build_hash_map :: "(string \<Rightarrow> u64) \<Rightarrow> Event \<Rightarrow> Event" where
  "build_hash_map hash ev = ev\<lparr>ev_tag_hash_map := the (tag_hash_table hash (ev_tags ev))\<rparr>"

text \<open>\<open>tr.tag[0]\<close> of an empty string is the terminating zero.\<close>

definition first_char :: "string \<Rightarrow> char" where
  "first_char s = (case s of [] \<Rightarrow> CHR 0x00 | c # _ \<Rightarrow> c)"

fun find_slot :: "nat \<Rightarrow> Tag list \<Rightarrow> u16 list \<Rightarrow> char \<Rightarrow> string \<Rightarrow> nat \<Rightarrow> Tag option option" where
  "find_slot 0 tags m t content idx = None"
| "find_slot (Suc fuel) tags m t content idx =
     (if m ! idx = 0 then Some None
      else let tr = tags ! (unat (m ! idx) - 1)
           in if first_char (tg_tag tr) = t \<and> tg_content tr = content then Some (Some tr)
              else find_slot fuel tags m t content ((idx + 1) mod length m))"

definition find_indexed_tag :: "(string \<Rightarrow> u64) \<Rightarrow> Event \<Rightarrow> char \<Rightarrow> string \<Rightarrow> Tag option" where
  "find_indexed_tag hash ev t content =
     (let m = ev_tag_hash_map ev in
      if m = [] then None
      else the (find_slot (length m) (ev_tags ev) m t content
                  (unat (tag_hash hash t content) mod length m)))"

section \<open>Events as JSON documents\<close>

definition build_tags :: "'j json_ops \<Rightarrow> Tag list \<Rightarrow> 'j" where
  "build_tags J tags =
     mk_array J (map (\<lambda>t. mk_array J (mk_string J (tg_tag t) # mk_string J (tg_content t) #
                            map (mk_string J) (tg_additional_content t))) tags)"

definition toStructured :: "'j json_ops \<Rightarrow> Event \<Rightarrow> 'j" where
  "toStructured J ev =
     j_set J
       (mk_object J
          [(''content'', mk_string J (ev_content ev)),
           (''id'', mk_string J (to_hex (ev_id ev))),
           (''pubkey'', mk_string J (to_hex (ev_author ev))),
           (''sig'', mk_string J (to_hex (ev_sig ev))),
           (''kind'', mk_uint J (ev_kind ev)),
           (''created_at'', mk_time J (ev_created_at ev))])
       ''tags'' (build_tags J (ev_tags ev))"

definition toJSON :: "'j json_ops \<Rightarrow> Event \<Rightarrow> string" where
  "toJSON J ev = j_to_json J (toStructured J ev)"

definition calc_id :: "'j json_ops \<Rightarrow> (string \<Rightarrow> bytes) \<Rightarrow> Event \<Rightarrow> bytes" where
  "calc_id J sha ev =
     (let eventToSign =
        mk_array J
          [mk_uint J 0, mk_string J (to_hex (ev_author ev)), mk_time J (ev_created_at ev),
           mk_uint J (ev_kind ev), build_tags J (ev_tags ev), mk_string J (ev_content ev)]
      in sha (j_to_json_utf8 J eventToSign))"

fun parse_tags :: "'j json_ops \<Rightarrow> 'j list \<Rightarrow> parse_error + Tag list" where
  "parse_tags J [] = Inr []"
| "parse_tags J (s_row # rows) =
     (if \<not> j_is_array J s_row then Inl tagdef_isnot_array
      else let row = j_array J s_row in
        if length row < 2 then Inl tagdef_isnot_array
        else if \<not> j_is_string J (row ! 0) then Inl tag_mustbe_string
        else if \<not> j_is_string J (row ! 1) then Inl tag_value_mustbe_string
        else case parse_tags J rows of
               Inl e \<Rightarrow> Inl e
             | Inr ts \<Rightarrow>
                 Inr (\<lparr>tg_tag = j_string J (row ! 0), tg_content = j_string J (row ! 1),
                       tg_additional_content = map (j_text J) (drop 2 row)\<rparr> # ts))"

definition fromStructured ::
    "'j json_ops \<Rightarrow> (string \<Rightarrow> bytes) \<Rightarrow> (string \<Rightarrow> u64) \<Rightarrow> (nat \<Rightarrow> nat \<Rightarrow> u8) \<Rightarrow> 'j
       \<Rightarrow> parse_error + Event" where
  "fromStructured J sha hash mem sevent =
     (let s_id = j_field J sevent ''id'';
          s_pubkey = j_field J sevent ''pubkey'';
          s_content = j_field J sevent ''content'';
          s_created_at = j_field J sevent ''created_at'';
          s_kind = j_field J sevent ''kind'';
          s_tags = j_field J sevent ''tags'';
          s_sig = j_field J sevent ''sig''
      in
      if \<not> j_is_string J s_id then Inl field_id
      else if \<not> j_is_string J s_content then Inl field_content
      else if \<not> j_is_string J s_sig then Inl field_signature
      else if \<not> j_is_time J s_created_at then Inl field_created_at
      else if \<not> j_is_uint J s_kind then Inl field_kind
      else if \<not> j_is_string J s_pubkey then Inl field_pubkey
      else if j_defined J s_tags \<and> \<not> j_is_array J s_tags then Inl field_tags
      else case parse_tags J (j_array J s_tags) of
        Inl e \<Rightarrow> Inl e
      | Inr tags \<Rightarrow>
          let ev = \<lparr>ev_kind = j_uint J s_kind, ev_content = j_string J s_content,
                    ev_tags = tags, ev_created_at = j_time J s_created_at,
                    ev_tag_hash_map = [],
                    ev_id = from_hex 32 (mem 0) (j_string J s_id),
                    ev_author = from_hex 32 (mem 1) (j_string J s_pubkey),
                    ev_sig = from_hex 64 (mem 2) (j_string J s_sig),
                    ev_nip97 = False, ev_trusted = False, ev_ref_level = 0\<rparr>
          in if calc_id J sha ev \<noteq> ev_id ev then Inl invalid_id
             else Inr (build_hash_map hash ev))"

section \<open>Signatures\<close>

definition event_verify :: "('k, 'p) secp256k1 \<Rightarrow> Event \<Rightarrow> bool" where
  "event_verify S ev = st_verify S (ev_id ev) (ev_author ev) (ev_sig ev)"

definition event_sign ::
    "'j json_ops \<Rightarrow> (string \<Rightarrow> bytes) \<Rightarrow> ('k, 'p) secp256k1 \<Rightarrow> time_t \<Rightarrow> bytes \<Rightarrow> Event
       \<Rightarrow> bool \<times> Event" where
  "event_sign J sha S now privkey ev =
     (let ev = (if ev_created_at ev = 0 then ev\<lparr>ev_created_at := now\<rparr> else ev);
          ev = ev\<lparr>ev_id := calc_id J sha ev\<rparr>;
          (ok, sig, pub) = st_sign S privkey (ev_id ev) (ev_sig ev) (ev_author ev)
      in (ok, ev\<lparr>ev_sig := sig, ev_author := pub\<rparr>))"

end
