(* ===== verification/Event_Tags.thy ===== *)
theory Event_Tags
  imports Event
begin

text \<open>
  The open-addressing table of \<^verbatim>\<open>event.cpp\<close>: its invariant, kept by every insertion, from which
  both loops end and a lookup gives the first matching tag. The contract is the locale
  \<open>tag_lookup\<close>, interpreted on \<open>find_indexed_tag\<close>; the filters are proved against it.
\<close>

unbundle bit_operations_syntax

section \<open>Probing a ring of slots\<close>

lemma ring_covers:
  assumes "j < L" "idx < (L :: nat)"
  shows "\<exists>d < L. (idx + d) mod L = j"
proof (cases "idx \<le> j")
  case True
  with assms show ?thesis by (intro exI [of _ "j - idx"]) simp
next
  case False
  with assms show ?thesis by (intro exI [of _ "j + L - idx"]) simp
qed

lemma ring_next: "idx < L \<Longrightarrow> ((idx + 1) mod L + d) mod L = (idx + Suc d) mod (L :: nat)"
  by (simp add: mod_add_left_eq)

lemma free_slot_SomeD:
  "free_slot n m idx = Some j \<Longrightarrow> idx < length m \<Longrightarrow>
     \<exists>d < n. j = (idx + d) mod length m \<and> m ! j = 0 \<and>
       (\<forall>d' < d. m ! ((idx + d') mod length m) \<noteq> 0)"
proof (induction n arbitrary: idx)
  case (Suc n)
  show ?case
  proof (cases "m ! idx = 0")
    case True
    with Suc.prems show ?thesis by (intro exI [of _ 0]) auto
  next
    case False
    have next_lt: "(idx + 1) mod length m < length m" using Suc.prems(2) by (intro mod_less_divisor) linarith
    from False Suc.prems(1) have "free_slot n m ((idx + 1) mod length m) = Some j" by simp
    from Suc.IH [OF this next_lt] obtain d where d: "d < n"
      "j = (idx + Suc d) mod length m" "m ! j = 0"
      "\<forall>d' < d. m ! ((idx + Suc d') mod length m) \<noteq> 0"
      by (auto simp only: ring_next [OF Suc.prems(2)])
    have "m ! ((idx + d') mod length m) \<noteq> 0" if "d' < Suc d" for d'
      using that d(4) False Suc.prems(2) by (cases d') auto
    with d show ?thesis by (intro exI [of _ "Suc d"]) auto
  qed
qed simp

lemma free_slot_returns:
  "m ! ((idx + d) mod length m) = 0 \<Longrightarrow> d < n \<Longrightarrow> idx < length m \<Longrightarrow>
     \<exists>j. free_slot n m idx = Some j"
proof (induction n arbitrary: idx d)
  case (Suc n)
  show ?case
  proof (cases d)
    case 0
    with Suc.prems show ?thesis by simp
  next
    case (Suc e)
    have next_lt: "(idx + 1) mod length m < length m" using Suc.prems(3) by (intro mod_less_divisor) linarith
    have "m ! (((idx + 1) mod length m + e) mod length m) = 0"
      using Suc.prems unfolding ring_next [OF Suc.prems(3)] by (simp add: Suc)
    from Suc.IH [OF this _ next_lt] Suc.prems(2) Suc show ?thesis by auto
  qed
qed simp

section \<open>The invariant of the table\<close>

definition tag_home :: "(string \<Rightarrow> u64) \<Rightarrow> nat \<Rightarrow> Tag \<Rightarrow> nat" where
  "tag_home hash L t = unat (tag_hash hash (tg_tag t ! 0) (tg_content t)) mod L"

text \<open>
  Slot \<open>j\<close> holds the tag of index \<open>i\<close> at distance \<open>d\<close> from its home; every slot before it on the
  way from the home is taken, by an earlier tag.
\<close>

definition slot_ok :: "(string \<Rightarrow> u64) \<Rightarrow> Tag list \<Rightarrow> u16 list \<Rightarrow> nat \<Rightarrow> nat \<Rightarrow> nat \<Rightarrow> bool" where
  "slot_ok hash tags m j i d \<longleftrightarrow>
     unat (m ! j) = Suc i \<and> length (tg_tag (tags ! i)) = 1 \<and> d < length m \<and>
     j = (tag_home hash (length m) (tags ! i) + d) mod length m \<and>
     (\<forall>d' < d. m ! ((tag_home hash (length m) (tags ! i) + d') mod length m) \<noteq> 0 \<and>
        unat (m ! ((tag_home hash (length m) (tags ! i) + d') mod length m)) < Suc i)"

definition table_ok :: "(string \<Rightarrow> u64) \<Rightarrow> Tag list \<Rightarrow> nat \<Rightarrow> u16 list \<Rightarrow> bool" where
  "table_ok hash tags k m \<longleftrightarrow>
     length m = length tags * 2 + 1 \<and>
     card {j. j < length m \<and> m ! j \<noteq> 0} \<le> k \<and>
     (\<forall>j < length m. m ! j \<noteq> 0 \<longrightarrow> (\<exists>i < k. \<exists>d. slot_ok hash tags m j i d)) \<and>
     (\<forall>i < k. length (tg_tag (tags ! i)) = 1 \<longrightarrow> (\<exists>j < length m. unat (m ! j) = Suc i))"

lemma table_okI:
  assumes "length m = length tags * 2 + 1" "card {j. j < length m \<and> m ! j \<noteq> 0} \<le> k"
    "\<And>j. j < length m \<Longrightarrow> m ! j \<noteq> 0 \<Longrightarrow> \<exists>i < k. \<exists>d. slot_ok hash tags m j i d"
    "\<And>i. i < k \<Longrightarrow> length (tg_tag (tags ! i)) = 1 \<Longrightarrow> \<exists>j < length m. unat (m ! j) = Suc i"
  shows "table_ok hash tags k m"
  unfolding table_ok_def by (intro conjI allI impI assms) (assumption | rule assms)+

lemma table_ok_free:
  assumes "card {j. j < length m \<and> m ! j \<noteq> 0} \<le> k" "k < length m"
  shows "\<exists>j < length m. m ! j = 0"
proof (rule ccontr)
  assume "\<not> ?thesis"
  then have "{j. j < length m \<and> m ! j \<noteq> 0} = {..<length m}" by auto
  with assms show False by simp
qed

lemma free_slot_found:
  assumes "card {j. j < length m \<and> m ! j \<noteq> 0} \<le> k" "k < length m" "idx < length m"
  shows "\<exists>j. free_slot (length m) m idx = Some j"
proof -
  obtain j where j: "j < length m" "m ! j = 0" using table_ok_free [OF assms(1,2)] by blast
  obtain d where "d < length m" "(idx + d) mod length m = j"
    using ring_covers [OF j(1) assms(3)] by blast
  then show ?thesis using free_slot_returns [of m idx d] j(2) assms(3) by simp
qed

lemma table_ok_start: "table_ok hash tags 0 (replicate (length tags * 2 + 1) 0)"
proof -
  have none: "{j. j < length (replicate (length tags * 2 + 1) (0 :: u16)) \<and>
      replicate (length tags * 2 + 1) (0 :: u16) ! j \<noteq> 0} = {}"
    by (auto simp del: replicate_Suc)
  show ?thesis unfolding table_ok_def none by (auto simp del: replicate_Suc)
qed

lemma slot_ok_update:
  assumes "slot_ok hash tags m j i d" "m ! f = 0"
  shows "slot_ok hash tags (m[f := v]) j i d"
proof -
  let ?h = "tag_home hash (length m) (tags ! i)"
  have "f \<noteq> j" using assms by (auto simp: slot_ok_def)
  moreover have "f \<noteq> (?h + d') mod length m" if "d' < d" for d'
    using assms that by (auto simp: slot_ok_def)
  ultimately show ?thesis
    using assms(1) unfolding slot_ok_def by (elim conjE) auto
qed

lemma table_ok_step:
  assumes inv: "table_ok hash tags k m" and k: "k < length tags" "length tags \<le> 65535"
  shows "\<exists>m'. index_tag hash (k, tags ! k) m = Some m' \<and> table_ok hash tags (Suc k) m'"
proof (cases "length (tg_tag (tags ! k)) = 1")
  case False
  have "\<exists>i < Suc k. \<exists>d. slot_ok hash tags m j i d" if "j < length m" "m ! j \<noteq> 0" for j
    using inv that unfolding table_ok_def by (meson less_SucI)
  moreover have "\<exists>j < length m. unat (m ! j) = Suc i"
    if "i < Suc k" "length (tg_tag (tags ! i)) = 1" for i
    using inv that False unfolding table_ok_def by (metis less_antisym)
  ultimately have "table_ok hash tags (Suc k) m"
  proof (intro table_okI)
    show "length m = length tags * 2 + 1" "card {j. j < length m \<and> m ! j \<noteq> 0} \<le> Suc k"
      using inv unfolding table_ok_def by linarith+
  qed
  with False show ?thesis by (simp add: index_tag_def)
next
  case True
  let ?h = "tag_home hash (length m) (tags ! k)"
  have len: "length m = length tags * 2 + 1" and card: "card {j. j < length m \<and> m ! j \<noteq> 0} \<le> k"
    using inv by (auto simp: table_ok_def)
  have h: "?h < length m" by (simp add: tag_home_def len)
  obtain f where f: "free_slot (length m) m ?h = Some f"
    using free_slot_found [OF card _ h] k(1) len by auto
  from free_slot_SomeD [OF f h] obtain d where d: "d < length m" "f = (?h + d) mod length m"
    "m ! f = 0" "\<forall>d' < d. m ! ((?h + d') mod length m) \<noteq> 0" by blast
  have fl: "f < length m" unfolding d(2) by (rule mod_less_divisor) (simp add: len)
  define m' where "m' = m[f := of_nat (k + 1)]"
  have step: "index_tag hash (k, tags ! k) m = Some m'"
    using True f by (simp add: index_tag_def tag_home_def m'_def Let_def)
  have val: "unat (of_nat (k + 1) :: u16) = Suc k"
  proof -
    have "take_bit 16 (k + 1) = k + 1" using k by (intro take_bit_nat_eq_self) simp
    then show ?thesis unfolding unsigned_of_nat by simp
  qed
  have nz: "(of_nat (k + 1) :: u16) \<noteq> 0" using val by auto
  have new: "slot_ok hash tags m' f k d"
  proof -
    have "m' ! ((?h + d') mod length m) \<noteq> 0 \<and> unat (m' ! ((?h + d') mod length m)) < Suc k"
      if "d' < d" for d'
    proof -
      let ?j = "(?h + d') mod length m"
      have j: "?j < length m" "m ! ?j \<noteq> 0" using d(4) that fl by (auto simp: len)
      then obtain i e where "i < k" "slot_ok hash tags m ?j i e"
        using inv unfolding table_ok_def by blast
      then have "unat (m ! ?j) < Suc k" unfolding slot_ok_def by linarith
      moreover have "m' ! ?j = m ! ?j" using j(2) d(3) unfolding m'_def by (metis nth_list_update_neq)
      ultimately show ?thesis using j(2) by simp
    qed
    then show ?thesis using d True fl val by (simp add: slot_ok_def m'_def)
  qed
  have "table_ok hash tags (Suc k) m'"
    unfolding table_ok_def
  proof (intro conjI)
    show "length m' = length tags * 2 + 1" by (simp add: m'_def len)
    have "{j. j < length m' \<and> m' ! j \<noteq> 0} \<subseteq> insert f {j. j < length m \<and> m ! j \<noteq> 0}"
      by (auto simp: m'_def nth_list_update)
    then have "card {j. j < length m' \<and> m' ! j \<noteq> 0}
        \<le> card (insert f {j. j < length m \<and> m ! j \<noteq> 0})" by (intro card_mono) auto
    also have "\<dots> \<le> Suc k" using card by (auto simp: card_insert_if)
    finally show "card {j. j < length m' \<and> m' ! j \<noteq> 0} \<le> Suc k" .
    show "\<forall>j < length m'. m' ! j \<noteq> 0 \<longrightarrow> (\<exists>i < Suc k. \<exists>d. slot_ok hash tags m' j i d)"
    proof (intro allI impI)
      fix j assume j: "j < length m'" "m' ! j \<noteq> 0"
      show "\<exists>i < Suc k. \<exists>d. slot_ok hash tags m' j i d"
      proof (cases "j = f")
        case False
        then have "j < length m" "m ! j \<noteq> 0" using j by (simp_all add: m'_def)
        then obtain i e where "i < k" "slot_ok hash tags m j i e"
          using inv unfolding table_ok_def by blast
        then show ?thesis
          using slot_ok_update [OF _ d(3)] unfolding m'_def by (meson less_SucI)
      qed (use new in blast)
    qed
    show "\<forall>i < Suc k. length (tg_tag (tags ! i)) = 1 \<longrightarrow> (\<exists>j < length m'. unat (m' ! j) = Suc i)"
    proof (intro allI impI)
      fix i assume i: "i < Suc k" "length (tg_tag (tags ! i)) = 1"
      show "\<exists>j < length m'. unat (m' ! j) = Suc i"
      proof (cases "i = k")
        case True
        then show ?thesis using fl val by (intro exI [of _ f]) (simp add: m'_def)
      next
        case False
        then obtain j where j: "j < length m" "unat (m ! j) = Suc i"
          using i inv unfolding table_ok_def by (metis less_antisym)
        then have "j \<noteq> f" using d(3) by auto
        with j show ?thesis by (intro exI [of _ j]) (simp add: m'_def)
      qed
    qed
  qed
  with step show ?thesis by blast
qed

lemma index_tags_ok:
  "table_ok hash tags k m \<Longrightarrow> k \<le> length tags \<Longrightarrow> length tags \<le> 65535 \<Longrightarrow>
     \<exists>m'. index_tags hash (enumerate k (drop k tags)) m = Some m' \<and>
       table_ok hash tags (length tags) m'"
proof (induction "length tags - k" arbitrary: k m)
  case 0
  then show ?case by simp
next
  case (Suc n)
  then have k: "k < length tags" by linarith
  obtain m' where m': "index_tag hash (k, tags ! k) m = Some m'" "table_ok hash tags (Suc k) m'"
    using table_ok_step [OF Suc.prems(1) k Suc.prems(3)] by blast
  have "enumerate k (drop k tags) = (k, tags ! k) # enumerate (Suc k) (drop (Suc k) tags)"
    using Cons_nth_drop_Suc [OF k, symmetric] by simp
  then show ?case
    using Suc.hyps(1) [of "Suc k" m'] Suc.hyps(2) Suc.prems(3) k m' by simp
qed

lemma tag_hash_table_ok:
  assumes "length tags \<le> 65535"
  shows "\<exists>m. tag_hash_table hash tags = Some m \<and> table_ok hash tags (length tags) m"
  using index_tags_ok [OF table_ok_start, of tags hash] assms
  by (simp add: tag_hash_table_def del: replicate_Suc)

section \<open>Looking a tag up\<close>

definition tag_is :: "char \<Rightarrow> string \<Rightarrow> Tag \<Rightarrow> bool" where
  "tag_is t content tg \<longleftrightarrow> tg_tag tg = [t] \<and> tg_content tg = content"

text \<open>What the loop does at the first slot that is empty or holds a match.\<close>

lemma find_slot_at:
  assumes "d < n" "idx < length m"
    "\<forall>d' < d. m ! ((idx + d') mod length m) \<noteq> 0 \<and>
       \<not> (first_char (tg_tag (tags ! (unat (m ! ((idx + d') mod length m)) - 1))) = t \<and>
          tg_content (tags ! (unat (m ! ((idx + d') mod length m)) - 1)) = content)"
  shows "find_slot n tags m t content idx
    = find_slot (n - d) tags m t content ((idx + d) mod length m)"
  using assms
proof (induction d arbitrary: n idx)
  case (Suc d)
  obtain k where n: "n = Suc k" "d < k" using Suc.prems(1) by (cases n) auto
  have next_lt: "(idx + 1) mod length m < length m"
    using Suc.prems(2) by (intro mod_less_divisor) linarith
  have first: "find_slot n tags m t content idx
      = find_slot k tags m t content ((idx + 1) mod length m)"
    using Suc.prems(3) [rule_format, of 0] Suc.prems(2) by (auto simp: n Let_def)
  have rest: "find_slot k tags m t content ((idx + 1) mod length m)
      = find_slot (k - d) tags m t content (((idx + 1) mod length m + d) mod length m)"
  proof (rule Suc.IH [OF n(2) next_lt], unfold ring_next [OF Suc.prems(2)], intro allI impI)
    fix d' assume "d' < d"
    then show "m ! ((idx + Suc d') mod length m) \<noteq> 0 \<and>
       \<not> (first_char (tg_tag (tags ! (unat (m ! ((idx + Suc d') mod length m)) - 1))) = t \<and>
          tg_content (tags ! (unat (m ! ((idx + Suc d') mod length m)) - 1)) = content)"
      using Suc.prems(3) [rule_format, of "Suc d'"] by linarith
  qed
  then show ?case unfolding first ring_next [OF Suc.prems(2)] by (simp add: n(1))
qed simp

lemma first_char_single: "length s = 1 \<Longrightarrow> first_char s = t \<longleftrightarrow> s = [t]"
  by (cases s) (auto simp: first_char_def)

lemma slot_holds:
  assumes "table_ok hash tags (length tags) m" "j < length m" "m ! j \<noteq> 0"
  shows "unat (m ! j) - 1 < length tags \<and>
    (first_char (tg_tag (tags ! (unat (m ! j) - 1))) = t \<and>
     tg_content (tags ! (unat (m ! j) - 1)) = content \<longleftrightarrow>
     tag_is t content (tags ! (unat (m ! j) - 1)))"
proof -
  obtain i d where "i < length tags" "slot_ok hash tags m j i d"
    using assms unfolding table_ok_def by blast
  then have v: "unat (m ! j) = Suc i" and i1: "i < length tags" "length (tg_tag (tags ! i)) = 1"
    unfolding slot_ok_def by blast+
  have i: "i < length tags" "unat (m ! j) - 1 = i" "length (tg_tag (tags ! i)) = 1"
    using v i1 by linarith+
  show ?thesis
    unfolding i(2) tag_is_def first_char_single [OF i(3)] using i(1) by simp
qed

lemma find_slot_finds:
  assumes ok: "table_ok hash tags (length tags) m"
  shows "find_slot (length m) tags m t content (unat (tag_hash hash t content) mod length m)
    = Some (List.find (tag_is t content) tags)"
proof -
  define L where "L = length m"
  define idx where "idx = unat (tag_hash hash t content) mod L"
  have L: "L = length tags * 2 + 1" "0 < L"
    using ok by (simp_all add: L_def table_ok_def)
  have idx: "idx < L" using L(2) by (simp add: idx_def)
  have pos: "(idx + d) mod L < length m" for d using L(2) by (simp add: L_def)
  note holds = slot_holds [OF ok]
  show ?thesis
  proof (cases "List.find (tag_is t content) tags")
    case None
    obtain j where j: "j < L" "m ! j = 0"
      using table_ok_free [of m "length tags"] ok L by (auto simp: table_ok_def L_def)
    define P where "P d \<longleftrightarrow> d < L \<and> m ! ((idx + d) mod L) = 0" for d
    have ex: "\<exists>d. P d" using ring_covers [OF j(1) idx] j(2) by (auto simp: P_def)
    define d where "d = (LEAST d. P d)"
    have d: "P d" "\<And>d'. d' < d \<Longrightarrow> \<not> P d'"
      unfolding d_def using LeastI_ex [OF ex] not_less_Least by blast+
    have "m ! ((idx + d') mod L) \<noteq> 0 \<and>
       \<not> (first_char (tg_tag (tags ! (unat (m ! ((idx + d') mod L)) - 1))) = t \<and>
          tg_content (tags ! (unat (m ! ((idx + d') mod L)) - 1)) = content)" if "d' < d" for d'
    proof -
      have nz: "m ! ((idx + d') mod L) \<noteq> 0" using d that by (auto simp: P_def)
      with holds [OF pos nz, of t content] None show ?thesis
        by (auto simp: find_None_iff dest: nth_mem)
    qed
    then have "find_slot L tags m t content idx
        = find_slot (L - d) tags m t content ((idx + d) mod L)"
      using find_slot_at [of d L idx m] d(1) idx unfolding L_def P_def by blast
    also have "\<dots> = Some None" using d(1) by (cases "L - d") (auto simp: P_def)
    finally show ?thesis using None by (simp add: L_def idx_def)
  next
    case (Some tg)
    then obtain i where i: "i < length tags" "tag_is t content (tags ! i)" "tg = tags ! i"
      "\<forall>i' < i. \<not> tag_is t content (tags ! i')"
      by (auto simp: find_Some_iff)
    then have single: "length (tg_tag (tags ! i)) = 1" by (simp add: tag_is_def)
    obtain j where j: "j < L" "unat (m ! j) = Suc i"
      using ok i(1) single unfolding table_ok_def L_def by blast
    then have "m ! j \<noteq> 0" by auto
    then obtain i' d where "slot_ok hash tags m j i' d"
      using ok j(1) unfolding table_ok_def L_def by blast
    with j(2) have slot: "slot_ok hash tags m j i d" by (simp add: slot_ok_def)
    have home: "tag_home hash L (tags ! i) = idx"
      using i(2) by (simp add: tag_home_def tag_is_def idx_def)
    have "m ! ((idx + d') mod L) \<noteq> 0 \<and>
       \<not> (first_char (tg_tag (tags ! (unat (m ! ((idx + d') mod L)) - 1))) = t \<and>
          tg_content (tags ! (unat (m ! ((idx + d') mod L)) - 1)) = content)" if "d' < d" for d'
    proof -
      have nz: "m ! ((idx + d') mod L) \<noteq> 0" and lt: "unat (m ! ((idx + d') mod L)) < Suc i"
        using slot that home by (simp_all add: slot_ok_def L_def)
      have "unat (m ! ((idx + d') mod L)) \<noteq> 0" using nz by (simp add: unat_eq_0)
      with lt have "unat (m ! ((idx + d') mod L)) - 1 < i" by linarith
      with nz i(4) holds [OF pos nz, of t content] show ?thesis by blast
    qed
    then have "find_slot L tags m t content idx
        = find_slot (L - d) tags m t content ((idx + d) mod L)"
      using find_slot_at [of d L idx m] slot idx unfolding L_def slot_ok_def by blast
    also have "(idx + d) mod L = j" using slot home by (simp add: slot_ok_def L_def)
    also have "find_slot (L - d) tags m t content j = Some (Some tg)"
    proof -
      obtain k where "L - d = Suc k" using slot by (cases "L - d") (auto simp: slot_ok_def L_def)
      then show ?thesis
        using j(2) \<open>m ! j \<noteq> 0\<close> i(2,3) single
        by (simp add: Let_def tag_is_def first_char_def)
    qed
    finally show ?thesis using Some by (simp add: L_def idx_def)
  qed
qed

lemma find_indexed_tag_finds:
  assumes "length (ev_tags ev) \<le> 65535"
  shows "find_indexed_tag hash (build_hash_map hash ev) t content
    = List.find (tag_is t content) (ev_tags ev)"
proof -
  obtain m where m: "tag_hash_table hash (ev_tags ev) = Some m"
    "table_ok hash (ev_tags ev) (length (ev_tags ev)) m"
    using tag_hash_table_ok [OF assms] by blast
  then have "m \<noteq> []" by (auto simp: table_ok_def)
  then show ?thesis
    using find_slot_finds [OF m(2)] by (simp add: find_indexed_tag_def build_hash_map_def m(1))
qed

section \<open>The interface the filters use\<close>

locale tag_lookup =
  fixes lookup :: "'e \<Rightarrow> char \<Rightarrow> string \<Rightarrow> Tag option"
    and tags :: "'e \<Rightarrow> Tag list"
    and ready :: "'e \<Rightarrow> bool"
  assumes lookup_finds: "ready e \<Longrightarrow> lookup e t content = List.find (tag_is t content) (tags e)"
begin

lemma lookup_Some_iff:
  "ready e \<Longrightarrow> (\<exists>tg. lookup e t content = Some tg) \<longleftrightarrow> (\<exists>tg \<in> set (tags e). tag_is t content tg)"
  by (auto simp: lookup_finds find_None_iff simp flip: not_None_eq)

lemma lookup_is: "ready e \<Longrightarrow> lookup e t content = Some tg \<Longrightarrow> tg \<in> set (tags e) \<and> tag_is t content tg"
  by (auto simp: lookup_finds find_Some_iff)

lemma lookup_any_iff:
  "ready e \<Longrightarrow> list_ex (\<lambda>c. lookup e t c \<noteq> None) cs
     \<longleftrightarrow> (\<exists>tg \<in> set (tags e). tg_tag tg = [t] \<and> tg_content tg \<in> set cs)"
  using lookup_Some_iff [of e t] by (auto simp: list_ex_iff tag_is_def)

end

definition event_indexed :: "(string \<Rightarrow> u64) \<Rightarrow> Event \<Rightarrow> bool" where
  "event_indexed hash ev \<longleftrightarrow>
     length (ev_tags ev) \<le> 65535 \<and> ev_tag_hash_map ev = the (tag_hash_table hash (ev_tags ev))"

lemma event_indexed_build [simp]:
  "event_indexed hash (build_hash_map hash ev) \<longleftrightarrow> length (ev_tags ev) \<le> 65535"
  by (simp add: event_indexed_def build_hash_map_def)

lemma find_indexed_tag_indexed:
  "event_indexed hash ev \<Longrightarrow>
     find_indexed_tag hash ev t content = List.find (tag_is t content) (ev_tags ev)"
proof -
  assume idx: "event_indexed hash ev"
  then have "build_hash_map hash ev = ev"
    by (cases ev) (simp add: event_indexed_def build_hash_map_def)
  with idx show ?thesis
    using find_indexed_tag_finds [of ev hash t content] by (simp add: event_indexed_def)
qed

interpretation indexed: tag_lookup "find_indexed_tag hash" ev_tags "event_indexed hash" for hash
  by unfold_locales (rule find_indexed_tag_indexed)

section \<open>Properties\<close>

text \<open>C10: for any hash function, looking a single-character tag up through the table gives the
first tag of that name and content in the event, and both loops of the table end, for events of
at most 65535 tags (the 16-bit slots).\<close>

theorem indexed_lookup_correct:
  assumes "length (ev_tags ev) \<le> 65535"
  shows "find_indexed_tag hash (build_hash_map hash ev) t content
      = List.find (\<lambda>tg. tg_tag tg = [t] \<and> tg_content tg = content) (ev_tags ev) \<and>
    (\<exists>m. tag_hash_table hash (ev_tags ev) = Some m)"
  using find_indexed_tag_finds [OF assms, of hash t content] tag_hash_table_ok [OF assms, of hash]
  by (auto simp: tag_is_def [abs_def])

lemma indexed_lookup_correct_witness:
  "find_indexed_tag (\<lambda>_. 0) (build_hash_map (\<lambda>_. 0)
       \<lparr>ev_kind = 1, ev_content = [],
        ev_tags = [\<lparr>tg_tag = ''e'', tg_content = ''x'', tg_additional_content = []\<rparr>,
                   \<lparr>tg_tag = ''e'', tg_content = ''y'', tg_additional_content = []\<rparr>],
        ev_created_at = 0, ev_tag_hash_map = [], ev_id = [], ev_author = [], ev_sig = [],
        ev_nip97 = False, ev_trusted = False, ev_ref_level = 0\<rparr>) CHR ''e'' ''y''
     = Some \<lparr>tg_tag = ''e'', tg_content = ''y'', tg_additional_content = []\<rparr>"
  by (subst conjunct1 [OF indexed_lookup_correct]) simp_all

end
