(* ===== verification/Event_Json.thy ===== *)
theory Event_Json
  imports Event_Tags
begin

text \<open>
  Reading and writing events as JSON documents (\<open>fromStructured\<close>, \<open>toStructured\<close>): what a parsed
  event satisfies, and that a written event is read back, under the documented behaviour of the
  JSON library (\<open>json_laws\<close>).
\<close>

section \<open>Reading back a written event\<close>

lemma parse_tags_build:
  assumes "json_laws J"
  shows "parse_tags J (j_array J (build_tags J tags)) = Inr tags"
  by (induction tags) (auto simp: build_tags_def json_laws_simps [OF assms] comp_def)

lemma calc_id_build [simp]: "calc_id J sha (build_hash_map hash ev) = calc_id J sha ev"
  by (simp add: calc_id_def build_hash_map_def)

lemma build_hash_map_simps [simp]:
  "ev_id (build_hash_map hash ev) = ev_id ev" "ev_author (build_hash_map hash ev) = ev_author ev"
  "ev_sig (build_hash_map hash ev) = ev_sig ev" "ev_tags (build_hash_map hash ev) = ev_tags ev"
  "ev_kind (build_hash_map hash ev) = ev_kind ev"
  "ev_content (build_hash_map hash ev) = ev_content ev"
  "ev_created_at (build_hash_map hash ev) = ev_created_at ev"
  "ev_nip97 (build_hash_map hash ev) = ev_nip97 ev"
  "ev_trusted (build_hash_map hash ev) = ev_trusted ev"
  "ev_ref_level (build_hash_map hash ev) = ev_ref_level ev"
  by (simp_all add: build_hash_map_def)

text \<open>What a parsed event is, apart from the text it came from.\<close>

lemma fromStructured_event:
  assumes "fromStructured J sha hash mem doc = Inr ev"
  shows "ev_id ev = calc_id J sha ev" "length (ev_id ev) = 32" "length (ev_author ev) = 32"
    "length (ev_sig ev) = 64" "\<not> ev_nip97 ev" "\<not> ev_trusted ev" "ev_ref_level ev = 0"
    "ev_tag_hash_map ev = the (tag_hash_table hash (ev_tags ev))"
  using assms
  by (auto simp: fromStructured_def Let_def build_hash_map_def calc_id_def
      split: if_splits sum.splits)

definition received :: "(string \<Rightarrow> u64) \<Rightarrow> Event \<Rightarrow> Event" where
  "received hash ev = build_hash_map hash
     (ev\<lparr>ev_nip97 := False, ev_trusted := False, ev_ref_level := 0, ev_tag_hash_map := []\<rparr>)"

lemma fromStructured_toStructured:
  assumes "json_laws J" "length (ev_id ev) = 32" "length (ev_author ev) = 32"
    "length (ev_sig ev) = 64"
  shows "fromStructured J sha hash mem (toStructured J ev)
    = (if calc_id J sha ev = ev_id ev then Inr (received hash ev) else Inl invalid_id)"
proof -
  note laws = json_laws_simps [OF assms(1)]
  have tags: "parse_tags J (j_array J (build_tags J (ev_tags ev))) = Inr (ev_tags ev)"
    by (rule parse_tags_build [OF assms(1)])
  have arr: "j_is_array J (build_tags J ts)" "j_defined J (build_tags J ts)" for ts
    by (simp_all add: build_tags_def laws)
  have rec: "\<lparr>ev_kind = ev_kind ev, ev_content = ev_content ev,
         ev_tags = ev_tags ev, ev_created_at = ev_created_at ev,
         ev_tag_hash_map = [], ev_id = ev_id ev, ev_author = ev_author ev,
         ev_sig = ev_sig ev, ev_nip97 = False, ev_trusted = False, ev_ref_level = 0\<rparr>
      = ev\<lparr>ev_nip97 := False, ev_trusted := False, ev_ref_level := 0, ev_tag_hash_map := []\<rparr>"
    by (cases ev) simp
  show ?thesis
    by (simp add: fromStructured_def rec toStructured_def laws tags arr assms(2-4) received_def
        calc_id_def Let_def)
qed

section \<open>Properties\<close>

text \<open>An event that is parsed carries the SHA-256 of its canonical form as its identifier, has
fields of the right sizes, has its tag table built and none of the relay's private marks set,
whatever the document was.\<close>

theorem parsed_event_id:
  assumes "fromStructured J sha hash mem doc = Inr ev"
  shows "ev_id ev = calc_id J sha ev \<and> length (ev_id ev) = 32 \<and> length (ev_author ev) = 32 \<and>
    length (ev_sig ev) = 64 \<and> \<not> ev_nip97 ev \<and> \<not> ev_trusted ev \<and> ev_ref_level ev = 0 \<and>
    ev_tag_hash_map ev = the (tag_hash_table hash (ev_tags ev))"
  using fromStructured_event [OF assms] by blast

definition sample_event :: Event where
  "sample_event =
     \<lparr>ev_kind = 1, ev_content = ''hi'',
      ev_tags = [\<lparr>tg_tag = ''e'', tg_content = ''x'', tg_additional_content = [''y'']\<rparr>],
      ev_created_at = 5, ev_tag_hash_map = [], ev_id = replicate 32 3,
      ev_author = replicate 32 1, ev_sig = replicate 64 2,
      ev_nip97 = False, ev_trusted = False, ev_ref_level = 0\<rparr>"

lemma sample_event_parsed:
  "fromStructured json_ref (\<lambda>_. replicate 32 3) (\<lambda>_. 0) mem (toStructured json_ref sample_event)
     = Inr (received (\<lambda>_. 0) sample_event)"
  by (subst fromStructured_toStructured) (simp_all add: json_ref_laws sample_event_def calc_id_def)

lemma parsed_event_id_witness:
  "ev_id (received (\<lambda>_. 0) sample_event)
     = calc_id json_ref (\<lambda>_. replicate 32 3) (received (\<lambda>_. 0) sample_event)"
  using parsed_event_id [OF sample_event_parsed] by blast

text \<open>C11: a written event is parsed back to itself, without the relay's private marks, exactly when
its identifier is the hash of its content; otherwise it is refused as \<open>invalid_id\<close>.\<close>

theorem event_json_round_trip:
  assumes "json_laws J" "length (ev_id ev) = 32" "length (ev_author ev) = 32"
    "length (ev_sig ev) = 64"
  shows "fromStructured J sha hash mem (toStructured J ev)
    = (if calc_id J sha ev = ev_id ev
       then Inr (build_hash_map hash (ev\<lparr>ev_nip97 := False, ev_trusted := False,
                   ev_ref_level := 0, ev_tag_hash_map := []\<rparr>))
       else Inl invalid_id)"
  using fromStructured_toStructured [OF assms] by (simp only: received_def)

lemma event_json_round_trip_witness:
  "fromStructured json_ref (\<lambda>_. replicate 32 3) (\<lambda>_. 0) (\<lambda>_ _. 9)
       (toStructured json_ref sample_event)
     = (if calc_id json_ref (\<lambda>_. replicate 32 3) sample_event = ev_id sample_event
        then Inr (build_hash_map (\<lambda>_. 0) (sample_event\<lparr>ev_nip97 := False, ev_trusted := False,
                    ev_ref_level := 0, ev_tag_hash_map := []\<rparr>))
        else Inl invalid_id)"
  by (rule event_json_round_trip) (simp_all add: json_ref_laws sample_event_def)

end
