(* ===== verification/Event_Document.thy ===== *)
theory Event_Document
  imports Event_Json
begin

text \<open>
  \<^verbatim>\<open>EventDocument\<close> of \<^verbatim>\<open>src/src/nostr_server/event.h\<close>: the binary form in which the database
  stores events and attachments. The writers append to a byte vector (the output iterator of
  the database is a back inserter). The database library's encodings of strings and numbers
  (\<open>docdb::StructuredDocument\<close>) are the record \<open>srl\<close>, whose readers are given the first byte that
  \<open>get_extra\<close> has already taken; \<open>srl_laws\<close> states that they read back what they wrote and keep
  the two high bits of the extra byte. \<open>mem\<close> is indeterminate memory, as in \<open>Event\<close>.
\<close>

unbundle bit_operations_syntax

record srl =
  string_to_binary :: "u8 \<Rightarrow> string \<Rightarrow> bytes"
  string_from_binary :: "u8 \<Rightarrow> bytes \<Rightarrow> string \<times> bytes"
  uint_to_binary :: "u8 \<Rightarrow> u64 \<Rightarrow> bytes"
  uint_from_binary :: "u8 \<Rightarrow> bytes \<Rightarrow> u64 \<times> bytes"

section \<open>Writing\<close>

definition tag_to_binary :: "srl \<Rightarrow> Tag \<Rightarrow> bytes" where
  "tag_to_binary S t =
     string_to_binary S 0 (tg_tag t) @
     string_to_binary S 0 (tg_content t) @
     uint_to_binary S 0 (of_nat (length (tg_additional_content t))) @
     concat (map (string_to_binary S 0) (tg_additional_content t))"

definition event_to_binary :: "srl \<Rightarrow> Event \<Rightarrow> bytes" where
  "event_to_binary S ev =
     string_to_binary S ((if ev_nip97 ev then 0x80 else 0) OR (if ev_trusted ev then 0x40 else 0))
       (ev_content ev) @
     uint_to_binary S 0 (ucast (ev_kind ev)) @
     uint_to_binary S 0 (ev_created_at ev) @
     uint_to_binary S 0 (of_nat (length (ev_tags ev))) @
     concat (map (tag_to_binary S) (ev_tags ev)) @
     ev_id ev @ ev_author ev @ ev_sig ev @ [ev_ref_level ev]"

text \<open>\<open>index()\<close> of the variant: 0 for an event, 1 for an attachment.\<close>

definition to_binary :: "srl \<Rightarrow> EventOrAttachment \<Rightarrow> bytes" where
  "to_binary S evatt =
     (case evatt of
        AnEvent ev \<Rightarrow> 0 # event_to_binary S ev
      | AnAttachment att \<Rightarrow> 1 # (att_id att @ map byte_of (att_data att)))"

section \<open>Reading\<close>

definition get_extra :: "bytes \<Rightarrow> u8 \<times> bytes" where
  "get_extra s = (case s of [] \<Rightarrow> (0, []) | b # rest \<Rightarrow> (b, rest))"

text \<open>Bytes past the end of the input keep what the destination held.\<close>

definition load_bin :: "nat \<Rightarrow> (nat \<Rightarrow> u8) \<Rightarrow> bytes \<Rightarrow> bytes \<times> bytes" where
  "load_bin n u s = (take n s @ map u [length s..<n], drop n s)"

definition read_string :: "srl \<Rightarrow> bytes \<Rightarrow> string \<times> bytes" where
  "read_string S s = (let (x, s) = get_extra s in string_from_binary S x s)"

definition read_uint :: "srl \<Rightarrow> bytes \<Rightarrow> u64 \<times> bytes" where
  "read_uint S s = (let (x, s) = get_extra s in uint_from_binary S x s)"

definition tag_from_binary :: "srl \<Rightarrow> bytes \<Rightarrow> Tag \<times> bytes" where
  "tag_from_binary S s =
     (let (tag, s) = read_string S s;
          (content, s) = read_string S s;
          (add_count, s) = read_uint S s;
          (additional, s) = read_n (read_string S) (unat add_count) s
      in (\<lparr>tg_tag = tag, tg_content = content, tg_additional_content = additional\<rparr>, s))"

definition event_from_binary ::
    "srl \<Rightarrow> (string \<Rightarrow> u64) \<Rightarrow> (nat \<Rightarrow> nat \<Rightarrow> u8) \<Rightarrow> bytes \<Rightarrow> Event" where
  "event_from_binary S hash mem s =
     (let (x, s) = get_extra s;
          (content, s) = string_from_binary S x s;
          (kind, s) = read_uint S s;
          (created_at, s) = read_uint S s;
          (tag_count, s) = read_uint S s;
          (tags, s) = read_n (tag_from_binary S) (unat tag_count) s;
          (id', s) = load_bin 32 (mem 0) s;
          (author, s) = load_bin 32 (mem 1) s;
          (sig, s) = load_bin 64 (mem 2) s;
          (ref_level, s) = get_extra s
      in build_hash_map hash
           \<lparr>ev_kind = ucast kind, ev_content = content, ev_tags = tags,
            ev_created_at = created_at, ev_tag_hash_map = [], ev_id = id', ev_author = author,
            ev_sig = sig, ev_nip97 = (x AND 0x80 \<noteq> 0), ev_trusted = (x AND 0x40 \<noteq> 0),
            ev_ref_level = ref_level\<rparr>)"

definition from_binary ::
    "srl \<Rightarrow> (string \<Rightarrow> u64) \<Rightarrow> (nat \<Rightarrow> nat \<Rightarrow> u8) \<Rightarrow> bytes \<Rightarrow> EventOrAttachment" where
  "from_binary S hash mem s =
     (let (ex, s) = get_extra s in
      if ex = 1 then
        let (id', s) = load_bin 32 (mem 0) s
        in AnAttachment \<lparr>att_id = id', att_data = map char_of_byte s\<rparr>
      else AnEvent (event_from_binary S hash mem s))"

section \<open>What the encodings of the database promise\<close>

definition srl_laws :: "srl \<Rightarrow> bool" where
  "srl_laws S \<longleftrightarrow>
     (\<forall>x s rest. x AND 0x3F = 0 \<longrightarrow>
        (\<exists>b bs. string_to_binary S x s = b # bs \<and> b AND 0xC0 = x \<and>
           string_from_binary S b (bs @ rest) = (s, rest))) \<and>
     (\<forall>n rest. \<exists>b bs. uint_to_binary S 0 n = b # bs \<and>
        uint_from_binary S b (bs @ rest) = (n, rest))"

lemma srl_string:
  assumes "srl_laws S" "x AND 0x3F = 0"
  shows "\<exists>b bs. string_to_binary S x s = b # bs \<and> b AND 0xC0 = x \<and>
    string_from_binary S b (bs @ rest) = (s, rest)"
  using assms unfolding srl_laws_def by blast

lemma srl_uint:
  assumes "srl_laws S"
  shows "\<exists>b bs. uint_to_binary S 0 n = b # bs \<and> uint_from_binary S b (bs @ rest) = (n, rest)"
  using assms unfolding srl_laws_def by blast

section \<open>Every field is read back and leaves the rest\<close>

interpretation byte_stream: stream_codec "\<lambda>b. [b]" get_extra "\<lambda>_. True"
  by unfold_locales (simp add: get_extra_def)

interpretation bin_stream: stream_codec "\<lambda>b. b" "load_bin n u" "\<lambda>b. length b = n" for n u
  by unfold_locales (simp add: load_bin_def)

lemma string_stream: "srl_laws S \<Longrightarrow> stream_codec (string_to_binary S 0) (read_string S) (\<lambda>_. True)"
proof
  fix s rest assume "srl_laws S"
  then have "\<exists>b bs. string_to_binary S 0 s = b # bs \<and> b AND 0xC0 = 0 \<and>
      string_from_binary S b (bs @ rest) = (s, rest)"
    using srl_string [of S 0] by simp
  then obtain b bs where "string_to_binary S 0 s = b # bs"
    "string_from_binary S b (bs @ rest) = (s, rest)" by blast
  then show "read_string S (string_to_binary S 0 s @ rest) = (s, rest)"
    by (simp add: read_string_def get_extra_def)
qed

lemma uint_stream: "srl_laws S \<Longrightarrow> stream_codec (uint_to_binary S 0) (read_uint S) (\<lambda>_. True)"
proof
  fix n rest assume "srl_laws S"
  then obtain b bs where "uint_to_binary S 0 n = b # bs"
    "uint_from_binary S b (bs @ rest) = (n, rest)"
    using srl_uint by blast
  then show "read_uint S (uint_to_binary S 0 n @ rest) = (n, rest)"
    by (simp add: read_uint_def get_extra_def)
qed

lemma read_string_wr:
  "srl_laws S \<Longrightarrow> read_string S (string_to_binary S 0 s @ rest) = (s, rest)"
  by (rule stream_codec.rd_wr [OF string_stream]) simp_all

lemma read_uint_wr: "srl_laws S \<Longrightarrow> read_uint S (uint_to_binary S 0 n @ rest) = (n, rest)"
  by (rule stream_codec.rd_wr [OF uint_stream]) simp_all

lemma unat_of_length: "length xs < 2 ^ 64 \<Longrightarrow> unat (of_nat (length xs) :: u64) = length xs"
  by (simp add: unsigned_of_nat take_bit_nat_eq_self)

definition tag_storable :: "Tag \<Rightarrow> bool" where
  "tag_storable t \<longleftrightarrow> length (tg_additional_content t) < 2 ^ 64"

lemma tag_stream:
  assumes "srl_laws S"
  shows "stream_codec (tag_to_binary S) (tag_from_binary S) tag_storable"
proof
  fix t rest assume t: "tag_storable t"
  have "read_n (read_string S) (length (tg_additional_content t))
      (concat (map (string_to_binary S 0) (tg_additional_content t)) @ rest)
      = (tg_additional_content t, rest)"
    by (rule stream_codec.read_n_wr [OF string_stream [OF assms]]) simp
  then show "tag_from_binary S (tag_to_binary S t @ rest) = (t, rest)"
    using t unat_of_length [of "tg_additional_content t"]
    by (simp add: tag_from_binary_def tag_to_binary_def tag_storable_def
        read_string_wr [OF assms] read_uint_wr [OF assms])
qed

section \<open>Properties\<close>

text \<open>An event the database can hold: the sizes of its fields and of its counts.\<close>

definition storable :: "EventOrAttachment \<Rightarrow> bool" where
  "storable evatt =
     (case evatt of
        AnEvent ev \<Rightarrow> length (ev_id ev) = 32 \<and> length (ev_author ev) = 32 \<and>
          length (ev_sig ev) = 64 \<and> length (ev_tags ev) < 2 ^ 64 \<and>
          list_all tag_storable (ev_tags ev)
      | AnAttachment att \<Rightarrow> length (att_id att) = 32)"

lemma content_extra:
  fixes a b :: bool
  defines "x \<equiv> (if a then 0x80 else 0) OR (if b then 0x40 else 0 :: u8)"
  shows "x AND 0x3F = 0" "y AND 0xC0 = x \<Longrightarrow> (y AND 0x80 \<noteq> 0) = a \<and> (y AND 0x40 \<noteq> 0) = b"
proof -
  show "x AND 0x3F = 0" by (simp add: x_def)
  assume y: "y AND 0xC0 = x"
  have "y AND 0x80 = (y AND 0xC0) AND 0x80" "y AND 0x40 = (y AND 0xC0) AND 0x40"
    by (simp_all add: and.assoc)
  then show "(y AND 0x80 \<noteq> 0) = a \<and> (y AND 0x40 \<noteq> 0) = b"
    unfolding y by (auto simp: x_def)
qed

text \<open>C9: what the database stores is read back unchanged, with its private marks (NIP-97, trusted,
reference level) and the tag table rebuilt, for events and attachments alike.\<close>

theorem event_document_round_trip:
  assumes "srl_laws S" "storable evatt"
  shows "from_binary S hash mem (to_binary S evatt)
    = (case evatt of AnEvent ev \<Rightarrow> AnEvent (build_hash_map hash ev) | AnAttachment att \<Rightarrow> AnAttachment att)"
proof (cases evatt)
  case (AnAttachment att)
  then show ?thesis
    using assms(2) bin_stream.rd_wr [of "att_id att" 32 "mem 0"]
    by (cases att) (simp add: from_binary_def to_binary_def get_extra_def storable_def comp_def)
next
  case (AnEvent ev)
  let ?x = "(if ev_nip97 ev then 0x80 else 0) OR (if ev_trusted ev then 0x40 else 0 :: u8)"
  define rest where "rest = uint_to_binary S 0 (ucast (ev_kind ev)) @
     uint_to_binary S 0 (ev_created_at ev) @
     uint_to_binary S 0 (of_nat (length (ev_tags ev))) @
     concat (map (tag_to_binary S) (ev_tags ev)) @
     ev_id ev @ ev_author ev @ ev_sig ev @ [ev_ref_level ev]"
  obtain b bs where b: "string_to_binary S ?x (ev_content ev) = b # bs" "b AND 0xC0 = ?x"
    "string_from_binary S b (bs @ rest) = (ev_content ev, rest)"
    using srl_string [OF assms(1) content_extra(1)] by blast
  have sizes: "length (ev_id ev) = 32" "length (ev_author ev) = 32" "length (ev_sig ev) = 64"
    "length (ev_tags ev) < 2 ^ 64" "\<forall>t \<in> set (ev_tags ev). tag_storable t"
    using assms(2) by (simp_all add: AnEvent storable_def list_all_iff)
  note tags = stream_codec.read_n_wr [OF tag_stream [OF assms(1)] sizes(5)]
  have "event_from_binary S hash mem (event_to_binary S ev) = build_hash_map hash
      \<lparr>ev_kind = ucast (ucast (ev_kind ev) :: u64), ev_content = ev_content ev,
       ev_tags = ev_tags ev, ev_created_at = ev_created_at ev, ev_tag_hash_map = [],
       ev_id = ev_id ev, ev_author = ev_author ev, ev_sig = ev_sig ev,
       ev_nip97 = ev_nip97 ev, ev_trusted = ev_trusted ev, ev_ref_level = ev_ref_level ev\<rparr>"
    using b(3) content_extra(2) [OF b(2)]
    unfolding event_to_binary_def b(1) rest_def event_from_binary_def append.simps
    by (simp add: get_extra_def read_uint_wr [OF assms(1)] unat_of_length [OF sizes(4)] tags
        bin_stream.rd_wr sizes)
  also have "\<dots> = build_hash_map hash ev"
  proof -
    have "(ucast (ucast k :: u64) :: u32) = k" for k :: u32
      by (rule bit_word_eqI) (auto simp: bit_simps)
    then show ?thesis by (cases ev) (simp add: build_hash_map_def)
  qed
  finally show ?thesis
    by (simp add: AnEvent from_binary_def to_binary_def get_extra_def)
qed

text \<open>A concrete instance of the encodings.\<close>

fun ref_get_string :: "bytes \<Rightarrow> string \<times> bytes" where
  "ref_get_string (b # c # rest) =
     (if b = 1 then (let (s, r) = ref_get_string rest in (char_of_byte c # s, r)) else ([], c # rest))"
| "ref_get_string s = ([], drop 1 s)"

definition srl_ref :: srl where
  "srl_ref =
     \<lparr>string_to_binary = (\<lambda>x s. x # concat (map (\<lambda>c. [1, byte_of c]) s) @ [0]),
      string_from_binary = (\<lambda>_. ref_get_string),
      uint_to_binary = (\<lambda>x n. x # replicate (unat n) 1 @ [0]),
      uint_from_binary = (\<lambda>_ s. (of_nat (length (takeWhile ((=) 1) s)),
                                 drop 1 (dropWhile ((=) 1) s)))\<rparr>"

lemma srl_ref_laws: "srl_laws srl_ref"
proof -
  have str: "ref_get_string (concat (map (\<lambda>c. [1, byte_of c]) s) @ 0 # rest) = (s, rest)" for s rest
    by (induction s) (cases rest, auto)
  have num: "takeWhile ((=) 1) (replicate k 1 @ (0 :: u8) # rest) = replicate k 1"
    "dropWhile ((=) 1) (replicate k 1 @ (0 :: u8) # rest) = 0 # rest" for k rest
    by (induction k) auto
  have high: "x AND 0xC0 = x" if "x AND 0x3F = 0" for x :: u8
  proof -
    have "(0xFF :: u8) = - 1" by (simp add: word_uint_eq_iff unsigned_minus_1_eq_mask mask_eq_exp_minus_1)
    then have "x AND 0xFF = x" by (simp only: and.right_neutral)
    moreover have "x AND 0xFF = (x AND 0x3F) OR (x AND 0xC0)"
      by (simp flip: bit.conj_disj_distrib)
    ultimately show ?thesis using that by simp
  qed
  show ?thesis
    unfolding srl_laws_def by (simp add: srl_ref_def str num high)
qed

lemma event_document_round_trip_witness:
  "from_binary srl_ref (\<lambda>_. 3) (\<lambda>_ _. 0)
      (to_binary srl_ref (AnEvent (sample_event\<lparr>ev_nip97 := True, ev_ref_level := 4\<rparr>)))
     = AnEvent (build_hash_map (\<lambda>_. 3) (sample_event\<lparr>ev_nip97 := True, ev_ref_level := 4\<rparr>))"
  by (subst event_document_round_trip [OF srl_ref_laws])
    (simp_all add: storable_def sample_event_def tag_storable_def)

end
