(* ===== verification/Filter_Spec.thy ===== *)
theory Filter_Spec
  imports Event_Json "HOL-Library.Product_Lexorder" "HOL-Library.List_Lexorder"
begin

text \<open>
  \<^verbatim>\<open>src/src/nostr_server/filter.h\<close> and \<^verbatim>\<open>filter.cpp\<close>: the filter of a REQ or COUNT command, how it is
  read from a JSON document and how an event is tested against it. \<open>mem key i\<close> is indeterminate
  memory, what the \<open>i\<close>-th identifier listed under \<open>key\<close> finds in the bytes its text does not reach.

  The lemmas show that the test, which goes through the table of tags, decides the declarative
  condition of the protocol.
\<close>

unbundle bit_operations_syntax

section \<open>Data\<close>

type_synonym shorten_id = "bytes \<times> u8"

record nostr_filter =
  f_ids :: "shorten_id list"
  f_authors :: "shorten_id list"
  f_kinds :: "kind list"
  f_tags :: "(char \<times> string list) list"
  f_since :: "time_t option"
  f_until :: "time_t option"
  f_limit :: "u32 option"
  f_ft_search :: string

definition empty_filter :: nostr_filter where
  "empty_filter =
     \<lparr>f_ids = [], f_authors = [], f_kinds = [], f_tags = [], f_since = None, f_until = None,
      f_limit = None, f_ft_search = []\<rparr>"

section \<open>Testing an event\<close>

definition cmp_shorten :: "bytes \<Rightarrow> shorten_id \<Rightarrow> bool" where
  "cmp_shorten v x \<longleftrightarrow>
     (let count = unat (snd x) in take count (fst x) = take count v)"

text \<open>The loop over the groups of tags: every group must have a content the event carries.\<close>

definition filter_test :: "(string \<Rightarrow> u64) \<Rightarrow> nostr_filter \<Rightarrow> Event \<Rightarrow> bool" where
  "filter_test hash f doc =
     (if f_authors f \<noteq> [] \<and> \<not> list_ex (cmp_shorten (ev_author doc)) (f_authors f) then False
      else if f_ids f \<noteq> [] \<and> \<not> list_ex (cmp_shorten (ev_id doc)) (f_ids f) then False
      else if f_kinds f \<noteq> [] \<and> ev_kind doc \<notin> set (f_kinds f) then False
      else if \<not> list_all (\<lambda>(t, contents).
                list_ex (\<lambda>c. find_indexed_tag hash doc t c \<noteq> None) contents) (f_tags f)
           then False
      else case f_since f of
             Some s \<Rightarrow>
               if sint (ev_created_at doc) < sint s then False
               else (case f_until f of
                       Some u \<Rightarrow> \<not> sint (ev_created_at doc) > sint u | None \<Rightarrow> True)
           | None \<Rightarrow>
               (case f_until f of
                  Some u \<Rightarrow> \<not> sint (ev_created_at doc) > sint u | None \<Rightarrow> True))"

section \<open>Reading a filter\<close>

text \<open>
  \<open>std::min<unsigned char>(pk.size(), hx.size()/2)\<close>: both numbers are converted to 8 bits before
  they are compared.
\<close>

definition prefix_count :: "nat \<Rightarrow> string \<Rightarrow> u8" where
  "prefix_count key_size hx = min (of_nat key_size) (of_nat (length hx div 2))"

definition shorten ::
    "'j json_ops \<Rightarrow> (nat \<Rightarrow> nat \<Rightarrow> u8) \<Rightarrow> 'j list \<Rightarrow> shorten_id list" where
  "shorten J mem a =
     map (\<lambda>(i, c). let hx = j_string J c in (from_hex 32 (mem i) hx, prefix_count 32 hx))
       (enumerate 0 a)"

definition create_field ::
    "'j json_ops \<Rightarrow> (string \<Rightarrow> nat \<Rightarrow> nat \<Rightarrow> u8) \<Rightarrow> string \<times> 'j \<Rightarrow> nostr_filter \<Rightarrow> nostr_filter" where
  "create_field J mem kv out =
     (let k = fst kv; v = snd kv in
      if k = ''authors'' then out\<lparr>f_authors := f_authors out @ shorten J (mem k) (j_array J v)\<rparr>
      else if k = ''ids'' then out\<lparr>f_ids := f_ids out @ shorten J (mem k) (j_array J v)\<rparr>
      else if k = ''kinds'' then out\<lparr>f_kinds := f_kinds out @ map (j_uint J) (j_array J v)\<rparr>
      else if take 1 k = ''#'' then
        (let t = drop 1 k in
         if length t = 1 then out\<lparr>f_tags := f_tags out @ [(t ! 0, map (j_text J) (j_array J v))]\<rparr>
         else out)
      else if k = ''since'' then out\<lparr>f_since := Some (j_time J v)\<rparr>
      else if k = ''until'' then out\<lparr>f_until := Some (j_time J v)\<rparr>
      else if k = ''limit'' then out\<lparr>f_limit := Some (j_uint J v)\<rparr>
      else if k = ''search'' then out\<lparr>f_ft_search := j_string J v\<rparr>
      else out)"

text \<open>
  The order of \<open>std::sort\<close> on pairs of a (signed) \<open>char\<close> and a vector of strings, whose characters
  compare as unsigned.
\<close>

definition tag_order :: "char \<times> string list \<Rightarrow> int \<times> nat list list" where
  "tag_order x = (sint (byte_of (fst x)), map (map of_char) (snd x))"

definition filter_create ::
    "'j json_ops \<Rightarrow> (string \<Rightarrow> nat \<Rightarrow> nat \<Rightarrow> u8) \<Rightarrow> 'j \<Rightarrow> nostr_filter" where
  "filter_create J mem f =
     (let out = fold (create_field J mem) (j_keypairs J f) empty_filter
      in out\<lparr>f_tags := sort_key tag_order (f_tags out)\<rparr>)"

section \<open>The condition of the protocol\<close>

definition matches :: "nostr_filter \<Rightarrow> Event \<Rightarrow> bool" where
  "matches f ev \<longleftrightarrow>
     (f_authors f = [] \<or> (\<exists>(p, n) \<in> set (f_authors f). take (unat n) p = take (unat n) (ev_author ev))) \<and>
     (f_ids f = [] \<or> (\<exists>(p, n) \<in> set (f_ids f). take (unat n) p = take (unat n) (ev_id ev))) \<and>
     (f_kinds f = [] \<or> ev_kind ev \<in> set (f_kinds f)) \<and>
     (\<forall>(t, contents) \<in> set (f_tags f).
        \<exists>tg \<in> set (ev_tags ev). tg_tag tg = [t] \<and> tg_content tg \<in> set contents) \<and>
     (\<forall>s. f_since f = Some s \<longrightarrow> sint s \<le> sint (ev_created_at ev)) \<and>
     (\<forall>u. f_until f = Some u \<longrightarrow> sint (ev_created_at ev) \<le> sint u)"

lemma cmp_shorten_iff: "cmp_shorten v (p, n) \<longleftrightarrow> take (unat n) p = take (unat n) v"
  by (simp add: cmp_shorten_def Let_def)

lemma filter_test_matches:
  assumes "event_indexed hash ev"
  shows "filter_test hash f ev \<longleftrightarrow> matches f ev"
proof -
  have ids: "list_ex (cmp_shorten v) xs
      \<longleftrightarrow> (\<exists>(p, n) \<in> set xs. take (unat n) p = take (unat n) v)" for v xs
    unfolding list_ex_iff by (intro bex_cong) (auto simp: cmp_shorten_iff)
  have tags: "list_all (\<lambda>(t, contents).
        list_ex (\<lambda>c. find_indexed_tag hash ev t c \<noteq> None) contents) (f_tags f)
      \<longleftrightarrow> (\<forall>(t, contents) \<in> set (f_tags f).
        \<exists>tg \<in> set (ev_tags ev). tg_tag tg = [t] \<and> tg_content tg \<in> set contents)"
    by (simp only: list_all_iff indexed.lookup_any_iff [OF assms])
  show ?thesis
    unfolding filter_test_def matches_def ids tags
    by (cases "f_since f"; cases "f_until f") (auto simp: not_less)
qed

section \<open>What a filter that was read looks like\<close>

lemma prefix_count_le: "unat (prefix_count 32 hx) \<le> 32"
proof -
  have "prefix_count 32 hx \<le> 32" by (simp add: prefix_count_def)
  then show ?thesis by (simp add: word_le_nat_alt)
qed

lemma prefix_count_short: "length hx \<le> 64 \<Longrightarrow> unat (prefix_count 32 hx) = length hx div 2"
proof -
  assume len: "length hx \<le> 64"
  then have "take_bit 8 (length hx div 2) = length hx div 2"
    by (intro take_bit_nat_eq_self) simp
  then have v: "unat (of_nat (length hx div 2) :: u8) = length hx div 2"
    by (simp add: unsigned_of_nat)
  then have "(of_nat (length hx div 2) :: u8) \<le> 32"
    unfolding word_le_nat_alt using len by simp
  then show ?thesis using v by (simp add: prefix_count_def min_absorb2)
qed

text \<open>
  A filter as it is after \<open>filter_create\<close>: every identifier has 32 bytes and a prefix length of
  at most 32.
\<close>

definition shorten_ok :: "shorten_id \<Rightarrow> bool" where
  "shorten_ok x \<longleftrightarrow> length (fst x) = 32 \<and> unat (snd x) \<le> 32"

definition filter_ok :: "nostr_filter \<Rightarrow> bool" where
  "filter_ok f \<longleftrightarrow> list_all shorten_ok (f_ids f) \<and> list_all shorten_ok (f_authors f)"

lemma shorten_ok_shorten: "list_all shorten_ok (shorten J mem a)"
  by (auto simp: shorten_def list_all_iff shorten_ok_def Let_def prefix_count_le)

lemma create_field_ok: "filter_ok out \<Longrightarrow> filter_ok (create_field J mem kv out)"
  by (auto simp: create_field_def filter_ok_def Let_def shorten_ok_shorten)

lemma filter_create_ok: "filter_ok (filter_create J mem f)"
proof -
  have "filter_ok out \<Longrightarrow> filter_ok (fold (create_field J mem) kvs out)" for kvs out
    by (induction kvs arbitrary: out) (auto intro: create_field_ok)
  then have "filter_ok (fold (create_field J mem) (j_keypairs J f) empty_filter)"
    by (simp add: filter_ok_def empty_filter_def)
  then show ?thesis by (simp add: filter_create_def filter_ok_def Let_def)
qed

text \<open>A prefix of a key, given in hexadecimal, selects exactly the keys that start with it.\<close>

lemma from_hex_prefix:
  assumes "length p \<le> 32"
  shows "take (length p) (from_hex 32 u (to_hex p)) = p"
  using from_hex_loop_to_hex_prefix [OF assms] by (simp add: from_hex_def to_hex_def)

lemma shorten_selects:
  assumes "json_laws J" "length p \<le> 32"
  shows "cmp_shorten v (from_hex 32 u (j_string J (mk_string J (to_hex p))),
      prefix_count 32 (j_string J (mk_string J (to_hex p)))) \<longleftrightarrow> take (length p) v = p"
proof -
  have "unat (prefix_count 32 (to_hex p)) = length p"
    using assms(2) by (subst prefix_count_short) simp_all
  then show ?thesis
    using from_hex_prefix [OF assms(2), of u]
    by (auto simp: cmp_shorten_iff json_laws_simps(2) [OF assms(1)])
qed

text \<open>
  A text whose byte count is a multiple of 256 is given the prefix length 0, and so selects every
  key.
\<close>

lemma long_text_selects_all:
  assumes "256 dvd length hx div 2"
  shows "cmp_shorten v (from_hex 32 u hx, prefix_count 32 hx)"
proof -
  have "(of_nat (length hx div 2) :: u8) = 0"
    using assms by (simp add: word_of_nat_eq_0_iff)
  then show ?thesis by (simp add: cmp_shorten_iff prefix_count_def)
qed

section \<open>Properties\<close>

text \<open>C8: testing an event, with its table of tags, decides the condition of the protocol: author
and id prefixes, kind, every tag group with one of its contents on the event, and the time range,
for every filter and every event of at most 65535 tags.\<close>

theorem filter_test_decides:
  assumes "length (ev_tags ev) \<le> 65535"
  shows "filter_test hash f (build_hash_map hash ev) \<longleftrightarrow> matches f ev"
proof -
  have "filter_test hash f (build_hash_map hash ev) \<longleftrightarrow> matches f (build_hash_map hash ev)"
    using assms by (intro filter_test_matches) simp
  then show ?thesis by (simp add: matches_def)
qed

lemma filter_test_decides_witness:
  "filter_test (\<lambda>_. 0)
     (empty_filter\<lparr>f_tags := [(CHR ''e'', [''a'', ''x''])], f_since := Some 3\<rparr>)
     (build_hash_map (\<lambda>_. 0) sample_event)"
  by (subst filter_test_decides) (simp_all add: matches_def sample_event_def empty_filter_def)

text \<open>A list of hexadecimal prefixes, of any lengths up to a whole key, selects exactly the
keys that start with one of them, whatever the memory behind the incomplete keys holds.\<close>

theorem prefixes_select:
  assumes "json_laws J" "list_all (\<lambda>p. length p \<le> 32) ps"
  shows "list_ex (cmp_shorten v) (shorten J mem (map (\<lambda>p. mk_string J (to_hex p)) ps))
    \<longleftrightarrow> list_ex (\<lambda>p. take (length p) v = p) ps"
proof -
  have "list_ex (cmp_shorten v) (map (\<lambda>(i, c). let hx = j_string J c in
      (from_hex 32 (mem i) hx, prefix_count 32 hx)) (enumerate n (map (\<lambda>p. mk_string J (to_hex p)) ps)))
    \<longleftrightarrow> list_ex (\<lambda>p. take (length p) v = p) ps" for n
    using assms(2) by (induction ps arbitrary: n) (simp_all add: shorten_selects [OF assms(1)] Let_def)
  then show ?thesis by (simp only: shorten_def)
qed

lemma prefixes_select_witness:
  "list_ex (cmp_shorten [0xab, 3, 4])
     (shorten json_ref (\<lambda>_ _. 0) (map (\<lambda>p. mk_string json_ref (to_hex p)) [[1], [0xab, 3]]))"
  by (subst prefixes_select) (simp_all add: json_ref_laws)

end
