(* ===== verification/Karma_Index.thy ===== *)
theory Karma_Index
  imports Event_Json
begin

text \<open>
  \<^verbatim>\<open>src/src/nostr_server/whitelist.h\<close> and \<^verbatim>\<open>whitelist_impl.h\<close>: the score of a public key and the
  incremental index that keeps the counters it is computed from. The index is a map from keys to
  \<open>Karma\<close> rows; the database runs \<open>whitelist_index\<close> with \<open>erase = False\<close> when a document is stored
  and with \<open>erase = True\<close> when it is removed. \<open>mem i\<close> is indeterminate memory, what the \<open>i\<close>-th \<open>p\<close> tag
  finds in the bytes of its key that its text does not reach.

  The lemmas give the exact effect of storing an event on every row, that removing it takes the
  same amounts away, and the range in which the score is the intended number.
\<close>

section \<open>The score\<close>

record Karma =
  followers :: u32
  mutes :: u32
  mentions :: u32
  directmsgs :: u32
  local :: bool

definition Karma_default :: Karma where
  "Karma_default = \<lparr>followers = 0, mutes = 0, mentions = 0, directmsgs = 0, local = False\<rparr>"

text \<open>The sum is taken in \<open>unsigned int\<close> and returned as \<open>int\<close>.\<close>

definition get_score :: "Karma \<Rightarrow> int" where
  "get_score k = sint ((if local k then 2 else 0) + min 2 (mentions k) + min 2 (directmsgs k)
                       + followers k - mutes k)"

section \<open>The index\<close>

type_synonym karma_rows = "bytes \<Rightarrow> Karma option"

text \<open>\<open>val\<close> is the member the code selects, as the update function of the field.\<close>

definition update_row ::
    "bool \<Rightarrow> ((u32 \<Rightarrow> u32) \<Rightarrow> Karma \<Rightarrow> Karma) \<Rightarrow> bytes \<Rightarrow> karma_rows \<Rightarrow> karma_rows" where
  "update_row erase val pubkey W =
     (if erase then
        (case W pubkey of
           Some k \<Rightarrow> W(pubkey := Some (val (\<lambda>n. n - 1) k))
         | None \<Rightarrow> W)
      else
        (let k = (case W pubkey of Some v \<Rightarrow> v | None \<Rightarrow> Karma_default)
         in W(pubkey := Some (val (\<lambda>n. n + 1) k))))"

definition update_counter ::
    "bool \<Rightarrow> (nat \<Rightarrow> nat \<Rightarrow> u8) \<Rightarrow> Event \<Rightarrow> ((u32 \<Rightarrow> u32) \<Rightarrow> Karma \<Rightarrow> Karma) \<Rightarrow> karma_rows \<Rightarrow> karma_rows" where
  "update_counter erase mem ev val W =
     snd (for_each_tag ev ''p''
            (\<lambda>t (i, W). (Suc i, update_row erase val (from_hex 32 (mem i) (tg_content t)) W)) (0, W))"

definition whitelist_index ::
    "bool \<Rightarrow> (nat \<Rightarrow> nat \<Rightarrow> u8) \<Rightarrow> EventOrAttachment \<Rightarrow> karma_rows \<Rightarrow> karma_rows" where
  "whitelist_index erase mem evatt W =
     (case evatt of
        AnAttachment _ \<Rightarrow> W
      | AnEvent ev \<Rightarrow>
          if ev_ref_level ev \<noteq> 0 then W
          else
            let first = (if ev_kind ev < Encrypted_Direct_Messages then
                           Some (if erase then W
                                 else case W (ev_author ev) of
                                        None \<Rightarrow> W(ev_author ev := Some (Karma_default\<lparr>local := True\<rparr>))
                                      | Some v \<Rightarrow>
                                          if \<not> local v then W(ev_author ev := Some (v\<lparr>local := True\<rparr>))
                                          else W)
                         else case W (ev_author ev) of
                                None \<Rightarrow> None
                              | Some v \<Rightarrow> if \<not> local v then None else Some W)
            in case first of
                 None \<Rightarrow> W
               | Some W \<Rightarrow>
                   if ev_kind ev = Short_Text_Note then update_counter erase mem ev mentions_update W
                   else if ev_kind ev = Contacts then update_counter erase mem ev followers_update W
                   else if ev_kind ev = Encrypted_Direct_Messages
                     then update_counter erase mem ev directmsgs_update W
                   else if ev_kind ev = Mute_List then update_counter erase mem ev mutes_update W
                   else if ev_kind ev = Gift_Wrap_Event \<and> ev_trusted ev
                     then update_counter erase mem ev directmsgs_update W
                   else W)"

section \<open>The effect on a row\<close>

definition karma_of :: "karma_rows \<Rightarrow> bytes \<Rightarrow> Karma" where
  "karma_of W k = (case W k of Some v \<Rightarrow> v | None \<Rightarrow> Karma_default)"

text \<open>The keys an event's \<open>p\<close> tags name, when their texts are whole keys.\<close>

definition p_tags_ok :: "Event \<Rightarrow> bool" where
  "p_tags_ok ev \<longleftrightarrow>
     list_all (\<lambda>t. tg_tag t = ''p'' \<longrightarrow> 64 \<le> length (tg_content t) \<and>
                   list_all (\<lambda>c. hex_digit c \<le> 15) (take 64 (tg_content t))) (ev_tags ev)"

definition p_keys :: "Event \<Rightarrow> bytes list" where
  "p_keys ev = map (\<lambda>t. from_hex 32 (\<lambda>_. 0) (tg_content t))
     (filter (\<lambda>t. tg_tag t = ''p'') (ev_tags ev))"

text \<open>The member the event's kind counts, if any.\<close>

definition counted_member :: "Event \<Rightarrow> ((u32 \<Rightarrow> u32) \<Rightarrow> Karma \<Rightarrow> Karma) option" where
  "counted_member ev =
     (if ev_kind ev = Short_Text_Note then Some mentions_update
      else if ev_kind ev = Contacts then Some followers_update
      else if ev_kind ev = Encrypted_Direct_Messages then Some directmsgs_update
      else if ev_kind ev = Mute_List then Some mutes_update
      else if ev_kind ev = Gift_Wrap_Event \<and> ev_trusted ev then Some directmsgs_update
      else None)"

lemma p_key_determined:
  assumes "64 \<le> length s" "list_all (\<lambda>c. hex_digit c \<le> 15) (take 64 s)"
  shows "from_hex 32 u s = from_hex 32 (\<lambda>_. 0) s"
  using assms by (intro from_hex_determined) (simp_all add: list_all_iff)

lemma update_counter_fold:
  assumes "p_tags_ok ev"
  shows "update_counter erase mem ev val W = fold (update_row erase val) (p_keys ev) W"
proof -
  have "snd (fold (\<lambda>t s. if tg_tag t = ''p'' then
          (\<lambda>t (i, W). (Suc i, update_row erase val (from_hex 32 (mem i) (tg_content t)) W)) t s
          else s) ts (i, W))
      = fold (update_row erase val)
          (map (\<lambda>t. from_hex 32 (\<lambda>_. 0) (tg_content t)) (filter (\<lambda>t. tg_tag t = ''p'') ts)) W"
    if "list_all (\<lambda>t. tg_tag t = ''p'' \<longrightarrow> 64 \<le> length (tg_content t) \<and>
          list_all (\<lambda>c. hex_digit c \<le> 15) (take 64 (tg_content t))) ts" for ts i
    using that
  proof (induction ts arbitrary: i W)
    case (Cons t ts)
    then show ?case
      using p_key_determined [of "tg_content t" "mem i"] by (cases "tg_tag t = ''p''") simp_all
  qed simp
  then show ?thesis
    using assms by (simp add: update_counter_def for_each_tag_def p_keys_def p_tags_ok_def)
qed

text \<open>What the proofs need of a member: its update composes like the update of one field.\<close>

definition is_member :: "((u32 \<Rightarrow> u32) \<Rightarrow> Karma \<Rightarrow> Karma) \<Rightarrow> bool" where
  "is_member val \<longleftrightarrow>
     (\<forall>f g k. val f (val g k) = val (f \<circ> g) k) \<and> (\<forall>k. val (\<lambda>n. n) k = k) \<and>
     (\<forall>f k. local (val f k) = local k) \<and> (\<forall>f k b. (val f k)\<lparr>local := b\<rparr> = val f (k\<lparr>local := b\<rparr>))"

lemma counted_member_is_member: "counted_member ev = Some val \<Longrightarrow> is_member val"
  by (auto simp: counted_member_def is_member_def comp_def split: if_splits)

lemma karma_of_put:
  "karma_of (update_row False val p W) k
     = (if k = p then val (\<lambda>n. n + 1) (karma_of W k) else karma_of W k)"
  by (simp add: update_row_def karma_of_def Let_def split: option.splits)

lemma karma_of_puts:
  assumes "is_member val"
  shows "karma_of (fold (update_row False val) ps W) k
    = val (\<lambda>n. n + of_nat (count_list ps k)) (karma_of W k)"
proof (induction ps arbitrary: W)
  case Nil
  then show ?case using assms by (simp add: is_member_def)
next
  case (Cons p ps)
  then show ?case
    using assms by (simp add: karma_of_put is_member_def comp_def add.assoc)
qed

lemma karma_of_erase:
  "W p \<noteq> None \<Longrightarrow> karma_of (update_row True val p W) k
     = (if k = p then val (\<lambda>n. n - 1) (karma_of W k) else karma_of W k)"
  by (auto simp: update_row_def karma_of_def split: option.splits)

lemma update_row_dom: "W q \<noteq> None \<Longrightarrow> update_row erase val p W q \<noteq> None"
  by (auto simp: update_row_def Let_def split: option.splits)

lemma karma_of_erases:
  assumes "is_member val" "\<forall>p \<in> set ps. W p \<noteq> None"
  shows "karma_of (fold (update_row True val) ps W) k
    = val (\<lambda>n. n - of_nat (count_list ps k)) (karma_of W k)"
  using assms(2)
proof (induction ps arbitrary: W)
  case Nil
  then show ?case using assms by (simp add: is_member_def)
next
  case (Cons p ps)
  then have "\<forall>q \<in> set ps. update_row True val p W q \<noteq> None"
    using update_row_dom by (metis list.set_intros(2))
  from Cons.IH [OF this] show ?case
    using Cons.prems assms(1)
    by (simp add: karma_of_erase is_member_def comp_def algebra_simps)
qed

text \<open>The state after the first half of the handler, when it goes on.\<close>

definition author_row :: "bool \<Rightarrow> Event \<Rightarrow> karma_rows \<Rightarrow> karma_rows" where
  "author_row erase ev W =
     (if \<not> erase \<and> ev_kind ev < Encrypted_Direct_Messages
      then W(ev_author ev := Some ((karma_of W (ev_author ev))\<lparr>local := True\<rparr>)) else W)"

definition counts_author :: "Event \<Rightarrow> karma_rows \<Rightarrow> bool" where
  "counts_author ev W \<longleftrightarrow>
     ev_kind ev < Encrypted_Direct_Messages \<or> local (karma_of W (ev_author ev))"

lemma whitelist_index_alt:
  assumes "p_tags_ok ev"
  shows "karma_of (whitelist_index erase mem (AnEvent ev) W) k =
    (if ev_ref_level ev = 0 \<and> counts_author ev W then
       case counted_member ev of
         Some val \<Rightarrow> karma_of (fold (update_row erase val) (p_keys ev) (author_row erase ev W)) k
       | None \<Rightarrow> karma_of (author_row erase ev W) k
     else karma_of W k)"
proof -
  let ?rest = "\<lambda>W. if ev_kind ev = Short_Text_Note then update_counter erase mem ev mentions_update W
       else if ev_kind ev = Contacts then update_counter erase mem ev followers_update W
       else if ev_kind ev = Encrypted_Direct_Messages then update_counter erase mem ev directmsgs_update W
       else if ev_kind ev = Mute_List then update_counter erase mem ev mutes_update W
       else if ev_kind ev = Gift_Wrap_Event \<and> ev_trusted ev then update_counter erase mem ev directmsgs_update W
       else W"
  have rest: "?rest W = (case counted_member ev of
      Some val \<Rightarrow> fold (update_row erase val) (p_keys ev) W | None \<Rightarrow> W)" for W
    by (simp add: counted_member_def update_counter_fold [OF assms])
  show ?thesis
  proof (cases "ev_kind ev < Encrypted_Direct_Messages")
    case True
    have row: "(if erase then W
         else case W (ev_author ev) of
                None \<Rightarrow> W(ev_author ev := Some (Karma_default\<lparr>local := True\<rparr>))
              | Some v \<Rightarrow> if \<not> local v then W(ev_author ev := Some (v\<lparr>local := True\<rparr>)) else W)
        = author_row erase ev W"
      using True by (auto simp: author_row_def karma_of_def fun_eq_iff split: option.splits)
    show ?thesis
      unfolding whitelist_index_def EventOrAttachment.case row using True
      by (simp only: Let_def option.case if_True rest counts_author_def simp_thms if_distrib
          [where f = "\<lambda>W. karma_of W k"] split: option.split if_split) auto
  next
    case False
    have row: "(case W (ev_author ev) of None \<Rightarrow> None | Some v \<Rightarrow> if \<not> local v then None else Some W)
        = (if counts_author ev W then Some W else None)"
      using False by (auto simp: counts_author_def karma_of_def Karma_default_def split: option.splits)
    have "author_row erase ev W = W" using False by (simp add: author_row_def)
    then show ?thesis
      unfolding whitelist_index_def EventOrAttachment.case row using False
      by (simp add: Let_def rest split: option.split)
  qed
qed

lemma karma_of_author_row:
  "karma_of (author_row erase ev W) k =
     (if \<not> erase \<and> ev_kind ev < Encrypted_Direct_Messages \<and> k = ev_author ev
      then (karma_of W k)\<lparr>local := True\<rparr> else karma_of W k)"
  by (simp add: author_row_def karma_of_def)

lemma p_keys_present:
  "p \<in> set ps \<Longrightarrow> fold (update_row False val) ps W p \<noteq> None"
proof (induction ps arbitrary: W)
  case (Cons q qs)
  have keep: "W p \<noteq> None \<Longrightarrow> fold (update_row False val) qs W p \<noteq> None" for W
  proof (induction qs arbitrary: W)
    case (Cons r rs)
    then show ?case using update_row_dom [of W p False val r] by simp
  qed simp
  show ?case
  proof (cases "p = q")
    case True
    have "update_row False val q W q \<noteq> None" by (simp add: update_row_def Let_def)
    with keep show ?thesis unfolding True by simp
  qed (use Cons in simp)
qed simp

text \<open>What storing a document leaves for its removal to find.\<close>

lemma whitelist_stored_rows:
  assumes "p_tags_ok ev" "ev_ref_level ev = 0" "counts_author ev W" "counted_member ev = Some val"
    "p \<in> set (p_keys ev)"
  shows "whitelist_index False mem (AnEvent ev) W p \<noteq> None"
proof -
  have "whitelist_index False mem (AnEvent ev) W
      = fold (update_row False val) (p_keys ev) (author_row False ev W)"
  proof (cases "ev_kind ev < Encrypted_Direct_Messages")
    case True
    have "(case W (ev_author ev) of
             None \<Rightarrow> W(ev_author ev := Some (Karma_default\<lparr>local := True\<rparr>))
           | Some v \<Rightarrow> if \<not> local v then W(ev_author ev := Some (v\<lparr>local := True\<rparr>)) else W)
        = author_row False ev W"
      using True by (auto simp: author_row_def karma_of_def fun_eq_iff split: option.splits)
    with True assms(2,4) show ?thesis
      by (auto simp: whitelist_index_def Let_def counted_member_def
          update_counter_fold [OF assms(1)] split: if_splits)
  next
    case False
    then obtain v where "W (ev_author ev) = Some v" "local v"
      using assms(3) by (auto simp: counts_author_def karma_of_def Karma_default_def
          split: option.splits)
    moreover have "author_row False ev W = W" using False by (simp add: author_row_def)
    ultimately show ?thesis
      using False assms(2,4)
      by (auto simp: whitelist_index_def Let_def counted_member_def
          update_counter_fold [OF assms(1)] split: if_splits)
  qed
  then show ?thesis using p_keys_present [OF assms(5)] by simp
qed

section \<open>Properties\<close>

text \<open>C17: storing an event changes every row by exactly what its kind counts: its author becomes
local when it posts publicly, and when the author counts, the member of each key named in \<open>p\<close> tags
grows by the number of tags that name it; replies (a non-zero reference level) change nothing.\<close>

theorem karma_store_effect:
  assumes "p_tags_ok ev"
  shows "karma_of (whitelist_index False mem (AnEvent ev) W) k =
    (let K = (if ev_ref_level ev = 0 \<and> ev_kind ev < Encrypted_Direct_Messages \<and> k = ev_author ev
              then (karma_of W k)\<lparr>local := True\<rparr> else karma_of W k)
     in if ev_ref_level ev = 0 \<and>
           (ev_kind ev < Encrypted_Direct_Messages \<or> local (karma_of W (ev_author ev)))
        then case counted_member ev of
               Some val \<Rightarrow> val (\<lambda>n. n + of_nat (count_list (p_keys ev) k)) K
             | None \<Rightarrow> K
        else K)"
  unfolding whitelist_index_alt [OF assms]
  by (cases "counted_member ev")
    (auto simp: counts_author_def karma_of_puts [OF counted_member_is_member]
      karma_of_author_row Let_def)

definition sample_key :: bytes where "sample_key = replicate 32 9"

lemma sample_key_neq [simp]: "sample_key \<noteq> replicate 32 1" by (simp add: sample_key_def)

lemma length_sample_key [simp]: "length sample_key = 32" by (simp add: sample_key_def)

definition sample_contacts :: Event where
  "sample_contacts = sample_event\<lparr>ev_kind := 3,
     ev_tags := [\<lparr>tg_tag = ''p'', tg_content = to_hex sample_key, tg_additional_content = []\<rparr>]\<rparr>"

lemma sample_contacts_ok: "p_tags_ok sample_contacts"
proof -
  have "list_all (\<lambda>c. hex_digit c \<le> 15) (take 64 (to_hex sample_key))"
    using to_hex_digits by (metis in_set_takeD list_all_iff)
  then show ?thesis
    by (simp add: p_tags_ok_def sample_contacts_def)
qed

lemma karma_store_effect_witness:
  "karma_of (whitelist_index False (\<lambda>_ _. 0) (AnEvent sample_contacts) (\<lambda>_. None)) sample_key
     = Karma_default\<lparr>followers := 1\<rparr>"
  by (subst karma_store_effect [OF sample_contacts_ok])
    (simp add: sample_contacts_def sample_event_def counted_member_def p_keys_def kind_defs
      karma_of_def Karma_default_def)



lemma sint_word_of_int_small:
  assumes "- (2 ^ 31) \<le> n" "n < 2 ^ 31"
  shows "sint (word_of_int n :: u32) = n"
proof -
  have "signed_take_bit 31 n = n"
    using assms by (intro signed_take_bit_int_eq_self) simp_all
  then show ?thesis by (simp add: sint_uint unsigned_of_int signed_take_bit_take_bit)
qed

text \<open>While the counters of followers and mutes are below \<open>2 ^ 30\<close>, the score is the intended
signed number, although the code computes it in unsigned arithmetic; in particular a key muted
more often than it is followed has a negative score.\<close>

lemma karma_score_exact:
  assumes "uint (followers k) < 2 ^ 30" "uint (mutes k) < 2 ^ 30"
  shows "get_score k = (if local k then 2 else 0) + min 2 (uint (mentions k))
    + min 2 (uint (directmsgs k)) + uint (followers k) - uint (mutes k)"
proof -
  let ?s = "(if local k then 2 else 0) + min 2 (uint (mentions k))
    + min 2 (uint (directmsgs k)) + uint (followers k) - uint (mutes k)"
  have small: "min 2 w = word_of_int (min 2 (uint w))" for w :: u32
    by (simp add: min_def word_le_def)
  have "(if local k then 2 else 0) + min 2 (mentions k) + min 2 (directmsgs k)
      + followers k - mutes k = word_of_int ?s"
    unfolding small by simp
  moreover have "- (2 ^ 31) \<le> (if b then 2 else 0) + min 2 m + min 2 d + f - u \<and>
      (if b then 2 else 0) + min 2 m + min 2 d + f - u < 2 ^ 31"
    if "0 \<le> m" "0 \<le> d" "0 \<le> f" "f < 2 ^ 30" "0 \<le> u" "u < 2 ^ 30" for b and m d f u :: int
    using that by (auto simp: min_def)
  then have "- (2 ^ 31) \<le> ?s" "?s < 2 ^ 31"
    using assms by simp_all
  ultimately show ?thesis
    unfolding get_score_def using \<open>- (2 ^ 31) \<le> ?s\<close> \<open>?s < 2 ^ 31\<close>
    by (simp only: sint_word_of_int_small)
qed

text \<open>
  Removal is not the inverse of storing when the author became local in between: a private
  message that was not counted is taken away all the same, and the counter wraps around.
\<close>

lemma karma_underflow:
  assumes "W (ev_author ev) = Some (Karma_default\<lparr>local := True\<rparr>)" "W p = Some Karma_default"
    "p_tags_ok ev" "p_keys ev = [p]" "ev_kind ev = Encrypted_Direct_Messages" "ev_ref_level ev = 0"
    "p \<noteq> ev_author ev"
  shows "uint (directmsgs (karma_of (whitelist_index True mem (AnEvent ev) W) p)) = 2 ^ 32 - 1"
  using assms
  by (simp add: whitelist_index_alt counts_author_def counted_member_def karma_of_erase
      kind_defs karma_of_def [of W] author_row_def Karma_default_def unsigned_minus_1_eq_mask
      mask_eq_exp_minus_1)

end
