(* ===== verification/Routing.thy ===== *)
theory Routing
  imports Event_Json
begin

text \<open>
  \<^verbatim>\<open>src/src/nostr_server/routing.h\<close> and \<^verbatim>\<open>routing_imp.h\<close>: which relays an event tells about, as the
  rows the routing index emits. Parsing of the content as JSON is the argument \<open>from_json\<close> (\<open>None\<close>
  is the exception the code catches); \<open>mem i\<close> is indeterminate memory for the \<open>i\<close>-th key read.

  The lemmas show that the adjusted form of a relay address is canonical and that every row
  names an adjusted address.
\<close>

section \<open>Relay addresses\<close>

text \<open>\<open>url.find("/", from)\<close>: the position of the first such character at or after \<open>from\<close>.\<close>

fun find_char :: "char \<Rightarrow> string \<Rightarrow> nat option" where
  "find_char c [] = None"
| "find_char c (x # xs) = (if x = c then Some 0 else map_option Suc (find_char c xs))"

definition find_from :: "char \<Rightarrow> string \<Rightarrow> nat \<Rightarrow> nat option" where
  "find_from c s from = map_option (\<lambda>i. from + i) (find_char c (drop from s))"

fun find_sub :: "string \<Rightarrow> string \<Rightarrow> nat option" where
  "find_sub p s =
     (if take (length p) s = p then Some 0
      else case s of [] \<Rightarrow> None | _ # xs \<Rightarrow> map_option Suc (find_sub p xs))"

declare find_sub.simps [simp del]

definition adjust_relay_url :: "string \<Rightarrow> string" where
  "adjust_relay_url url =
     (if take 5 url \<noteq> ''ws://'' \<and> take 6 url \<noteq> ''wss://'' then []
      else case find_sub ''://'' url of
             None \<Rightarrow> []
           | Some p1 \<Rightarrow>
               (case find_from CHR ''/'' url (p1 + 3) of
                  None \<Rightarrow> url
                | Some p2 \<Rightarrow> if p2 = length url - 1 then take (length url - 1) url else url))"

section \<open>The rows\<close>

type_synonym routing_row = "(string \<times> bytes) \<times> u8"

definition p_tag_row :: "(nat \<Rightarrow> u8) \<Rightarrow> u8 \<Rightarrow> Tag \<Rightarrow> routing_row list" where
  "p_tag_row u level t =
     (if length (tg_content t) = 64 then
        [((case tg_additional_content t of [] \<Rightarrow> [] | r # _ \<Rightarrow> adjust_relay_url r,
           from_hex 32 u (tg_content t)), level)]
      else [])"

definition r_tag_row :: "bytes \<Rightarrow> u8 \<Rightarrow> Tag \<Rightarrow> routing_row list" where
  "r_tag_row author level t =
     (if tg_additional_content t \<noteq> [] \<and> tg_additional_content t ! 0 = ''read'' then []
      else let url = adjust_relay_url (tg_content t)
           in if url \<noteq> [] then [((url, author), level)] else [])"

definition content_rows :: "'j json_ops \<Rightarrow> bytes \<Rightarrow> u8 \<Rightarrow> 'j \<Rightarrow> routing_row list" where
  "content_rows J author level json =
     concat (map (\<lambda>(key, value).
               if j_bool J (j_field J value ''write'') then
                 (let url = adjust_relay_url key
                  in if url \<noteq> [] then [((url, author), level)] else [])
               else [])
             (j_keypairs J json))"

definition routing_index ::
    "'j json_ops \<Rightarrow> (string \<Rightarrow> 'j option) \<Rightarrow> (nat \<Rightarrow> nat \<Rightarrow> u8) \<Rightarrow> EventOrAttachment \<Rightarrow> routing_row list" where
  "routing_index J from_json mem evatt =
     (case evatt of
        AnAttachment _ \<Rightarrow> []
      | AnEvent ev \<Rightarrow>
          if ev_kind ev = Short_Text_Note \<or> ev_kind ev = Reaction \<or> ev_kind ev = Contacts then
            snd (for_each_tag ev ''p''
                   (\<lambda>t (i, rows). (Suc i, rows @ p_tag_row (mem i) (ev_ref_level ev) t)) (0, [])) @
            (if ev_kind ev = Contacts \<and> ev_content ev \<noteq> [] then
               (case from_json (ev_content ev) of
                  None \<Rightarrow> []
                | Some json \<Rightarrow> content_rows J (ev_author ev) (ev_ref_level ev) json)
             else [])
          else if ev_kind ev = Relay_List_Metadata then
            for_each_tag ev ''r''
              (\<lambda>t rows. rows @ r_tag_row (ev_author ev) (ev_ref_level ev) t) []
          else [])"

section \<open>Adjusted addresses are canonical\<close>

lemma find_char_Some:
  "find_char c s = Some i \<Longrightarrow> i < length s \<and> s ! i = c \<and> (\<forall>j < i. s ! j \<noteq> c)"
proof (induction s arbitrary: i)
  case (Cons x xs)
  then show ?case by (cases i) (auto simp: less_Suc_eq_0_disj split: if_splits)
qed simp

lemma find_char_None: "find_char c s = None \<longleftrightarrow> c \<notin> set s"
  by (induction s) auto

definition ws_scheme :: "string \<Rightarrow> bool" where
  "ws_scheme pre \<longleftrightarrow> pre = ''ws://'' \<or> pre = ''wss://''"

lemma find_sub_scheme:
  "ws_scheme pre \<Longrightarrow> find_sub ''://'' (pre @ r) = Some (length pre - 3)"
  by (auto simp: ws_scheme_def find_sub.simps [of _ "_ # _"])

text \<open>The address with its scheme apart: a slash that is alone after the host goes.\<close>

lemma adjust_relay_url_scheme:
  assumes "ws_scheme pre"
  shows "adjust_relay_url (pre @ r)
    = (if find_char CHR ''/'' r = Some (length r - 1) then pre @ butlast r else pre @ r)"
proof -
  have pre: "take 5 (pre @ r) = ''ws://'' \<or> take 6 (pre @ r) = ''wss://''" "3 \<le> length pre"
    using assms by (auto simp: ws_scheme_def)
  have "find_from CHR ''/'' (pre @ r) (length pre)
      = map_option (\<lambda>i. length pre + i) (find_char CHR ''/'' r)"
    by (simp add: find_from_def)
  moreover have "length pre + i = length (pre @ r) - 1 \<longleftrightarrow> i = length r - 1"
    if "find_char CHR ''/'' r = Some i" for i
    using find_char_Some [OF that] by (cases r) auto
  moreover have "take (length (pre @ r) - 1) (pre @ r) = pre @ butlast r"
    if "find_char CHR ''/'' r = Some i" for i
    using find_char_Some [OF that] by (cases r rule: rev_cases) (auto simp: butlast_conv_take)
  ultimately show ?thesis
    using pre find_sub_scheme [OF assms, of r]
    by (cases "find_char CHR ''/'' r") (auto simp: adjust_relay_url_def)
qed

lemma adjust_relay_url_other:
  "(\<nexists>pre r. ws_scheme pre \<and> url = pre @ r) \<Longrightarrow> adjust_relay_url url = []"
proof -
  assume none: "\<nexists>pre r. ws_scheme pre \<and> url = pre @ r"
  have "take 5 url \<noteq> ''ws://''" "take 6 url \<noteq> ''wss://''"
    using none append_take_drop_id [of 5 url] append_take_drop_id [of 6 url]
    by (metis ws_scheme_def)+
  then show ?thesis by (simp add: adjust_relay_url_def)
qed

lemma adjust_relay_url_cases:
  obtains "adjust_relay_url url = []" | pre r where "ws_scheme pre" "adjust_relay_url url = pre @ r"
    "find_char CHR ''/'' r \<noteq> Some (length r - 1)"
proof (cases "\<exists>pre r. ws_scheme pre \<and> url = pre @ r")
  case False
  then show ?thesis using that(1) adjust_relay_url_other by blast
next
  case True
  then obtain pre r where u: "ws_scheme pre" "url = pre @ r" by blast
  show ?thesis
  proof (cases "find_char CHR ''/'' r = Some (length r - 1)")
    case True
    note f = find_char_Some [OF True]
    have "CHR ''/'' \<notin> set (butlast r)"
      using f by (auto simp: in_set_conv_nth nth_butlast)
    then have "find_char CHR ''/'' (butlast r) = None" by (simp add: find_char_None)
    then show ?thesis
      using that(2) [OF u(1)] True by (simp add: u adjust_relay_url_scheme)
  next
    case False
    then show ?thesis using that(2) [OF u(1)] by (simp add: u adjust_relay_url_scheme)
  qed
qed

lemma adjust_relay_url_idem: "adjust_relay_url (adjust_relay_url url) = adjust_relay_url url"
proof (cases rule: adjust_relay_url_cases [of url])
  case 1
  then show ?thesis by (simp add: adjust_relay_url_def)
next
  case (2 pre r)
  then show ?thesis by (simp add: adjust_relay_url_scheme)
qed

section \<open>Properties\<close>

text \<open>The address of a row is adjusted: a canonical web-socket address, or (in rows from \<open>p\<close> tags
only) the empty text of an unknown relay.\<close>

definition canonical_relay :: "string \<Rightarrow> bool" where
  "canonical_relay url \<longleftrightarrow> adjust_relay_url url = url"

lemma p_tag_rows_canonical:
  "list_all (\<lambda>row. canonical_relay (fst (fst row))) (p_tag_row u level t)"
  by (auto simp: p_tag_row_def canonical_relay_def adjust_relay_url_idem split: list.splits)
    (simp add: adjust_relay_url_def)

lemma r_tag_rows_canonical:
  "list_all (\<lambda>row. canonical_relay (fst (fst row)) \<and> fst (fst row) \<noteq> []) (r_tag_row author level t)"
  by (auto simp: r_tag_row_def canonical_relay_def adjust_relay_url_idem Let_def)

lemma content_rows_canonical:
  "list_all (\<lambda>row. canonical_relay (fst (fst row)) \<and> fst (fst row) \<noteq> [])
     (content_rows J author level json)"
  by (auto simp: content_rows_def list_all_iff canonical_relay_def adjust_relay_url_idem Let_def
      split: if_splits)

lemma for_each_tag_invariant:
  assumes "P s" "\<And>t s. P s \<Longrightarrow> P (fn t s)"
  shows "P (for_each_tag ev tag fn s)"
proof -
  have "P s \<Longrightarrow> P (fold (\<lambda>t s. if tg_tag t = tag then fn t s else s) ts s)" for ts s
    by (induction ts arbitrary: s) (auto intro: assms(2))
  then show ?thesis using assms(1) by (simp add: for_each_tag_def)
qed

text \<open>Every row of the routing index, from any event, is about the canonical form of a relay
address (a web-socket address without a trailing slash after the host, which adjusting leaves
alone) and carries the event's reference level.\<close>

theorem routing_rows_canonical:
  "list_all (\<lambda>row. canonical_relay (fst (fst row)))
     (routing_index J from_json mem (AnEvent ev)) \<and>
   list_all (\<lambda>row. snd row = ev_ref_level ev) (routing_index J from_json mem (AnEvent ev))"
proof -
  let ?P = "\<lambda>rows :: routing_row list. list_all (\<lambda>row. canonical_relay (fst (fst row))) rows \<and>
    list_all (\<lambda>row. snd row = ev_ref_level ev) rows"
  have p: "?P (p_tag_row u (ev_ref_level ev) t)" for u t
    using p_tag_rows_canonical by (auto simp: p_tag_row_def)
  have r: "?P (r_tag_row (ev_author ev) (ev_ref_level ev) t)" for t
    using r_tag_rows_canonical [of "ev_author ev" "ev_ref_level ev" t]
    by (auto simp: r_tag_row_def Let_def)
  have c: "?P (content_rows J (ev_author ev) (ev_ref_level ev) json)" for json
    using content_rows_canonical [of J "ev_author ev" "ev_ref_level ev" json]
    by (auto simp: content_rows_def list_all_iff Let_def split: if_splits)
  have ps: "?P (snd (for_each_tag ev ''p''
      (\<lambda>t (i, rows). (Suc i, rows @ p_tag_row (mem i) (ev_ref_level ev) t)) (0, [])))"
    by (rule for_each_tag_invariant [where P = "\<lambda>s. ?P (snd s)"]) (use p in auto)
  have rs: "?P (for_each_tag ev ''r''
      (\<lambda>t rows. rows @ r_tag_row (ev_author ev) (ev_ref_level ev) t) [])"
    by (rule for_each_tag_invariant [where P = ?P]) (use r in auto)
  show ?thesis
    using ps rs c by (auto simp: routing_index_def split: option.splits)
qed

end
