(* ===== verification/App_Index.thy ===== *)
theory App_Index
  imports Filter_Spec Karma_Index Routing Fulltext
begin

text \<open>
  The index functions of \<^verbatim>\<open>src/src/nostr_server/app.cpp\<close>: the rows the database derives from a stored
  document, as the lists of what each function emits, in order. \<open>mem\<close> is indeterminate memory, as
  in \<open>Event\<close>. The counters of \<open>Karma_Index\<close> and the rows of \<open>Routing\<close> complete them.
\<close>

type_synonym docid = u64

section \<open>The rows\<close>

definition index_by_id :: "EventOrAttachment \<Rightarrow> (bytes \<times> time_t) list" where
  "index_by_id evatt =
     (case evatt of AnEvent ev \<Rightarrow> [(ev_id ev, ev_created_at ev)] | AnAttachment _ \<Rightarrow> [])"

type_synonym author_kind_tag = "bytes \<times> kind \<times> string"

definition index_by_author_kind :: "EventOrAttachment \<Rightarrow> (author_kind_tag \<times> time_t) list" where
  "index_by_author_kind evatt =
     (case evatt of
        AnAttachment _ \<Rightarrow> []
      | AnEvent ev \<Rightarrow>
          let replacable_1 = (ev_kind ev = Metadata \<or> ev_kind ev = Contacts \<or>
                (ev_kind ev \<ge> Replaceable_Begin \<and> ev_kind ev < Replaceable_End));
              replacable_2 = (ev_kind ev \<ge> Parameterized_Replaceable_Begin \<and>
                ev_kind ev < Parameterized_Replaceable_End);
              replacable = (replacable_1 \<or> replacable_2);
              tag = (if replacable_2 then get_tag_content ev ''d'' else [])
          in if replacable then [((ev_author ev, ev_kind ev, tag), ev_created_at ev)] else [])"

definition index_by_pubkey_time :: "EventOrAttachment \<Rightarrow> (bytes \<times> time_t) list" where
  "index_by_pubkey_time evatt =
     (case evatt of AnEvent ev \<Rightarrow> [(ev_author ev, ev_created_at ev)] | AnAttachment _ \<Rightarrow> [])"

definition index_tag_value_time ::
    "(string \<Rightarrow> u64) \<Rightarrow> EventOrAttachment \<Rightarrow> (char \<times> u64 \<times> time_t) list" where
  "index_tag_value_time hash evatt =
     (case evatt of
        AnAttachment _ \<Rightarrow> []
      | AnEvent ev \<Rightarrow>
          concat (map (\<lambda>t. if length (tg_tag t) = 1
                          then [(tg_tag t ! 0, hash (tg_content t), ev_created_at ev)] else [])
                    (ev_tags ev)))"

definition index_kind_time :: "EventOrAttachment \<Rightarrow> (kind \<times> time_t) list" where
  "index_kind_time evatt =
     (case evatt of AnEvent ev \<Rightarrow> [(ev_kind ev, ev_created_at ev)] | AnAttachment _ \<Rightarrow> [])"

definition index_time :: "EventOrAttachment \<Rightarrow> time_t list" where
  "index_time evatt =
     (case evatt of AnEvent ev \<Rightarrow> [ev_created_at ev] | AnAttachment _ \<Rightarrow> [])"

text \<open>
  Two kinds of keys: an attachment's own row has its identifier alone, a file event's row the
  identifier followed by the event's document number.
\<close>

type_synonym attachment_key = "bytes \<times> docid option"

definition index_attachment ::
    "(string \<Rightarrow> u64) \<Rightarrow> (nat \<Rightarrow> u8) \<Rightarrow> docid \<Rightarrow> EventOrAttachment \<Rightarrow> (attachment_key \<times> bool) list" where
  "index_attachment hash u emit_id evatt =
     (case evatt of
        AnEvent ev \<Rightarrow>
          if ev_kind ev = File_Header \<and> find_indexed_tag hash ev CHR ''f'' ''file'' \<noteq> None
          then [((from_hex 32 u (get_tag_content ev ''x''), Some emit_id), True)] else []
      | AnAttachment att \<Rightarrow> [((att_id att, None), False)])"

definition emit_tokens :: "text_ops \<Rightarrow> string \<Rightarrow> WordToken list" where
  "emit_tokens T text =
     (case tokenize_text T text of
        None \<Rightarrow> [] | Some tokens \<Rightarrow> filter (\<lambda>x. length (fst x) > 1) tokens)"

definition index_fulltext :: "text_ops \<Rightarrow> EventOrAttachment \<Rightarrow> WordToken list" where
  "index_fulltext T evatt =
     (case evatt of
        AnAttachment _ \<Rightarrow> []
      | AnEvent ev \<Rightarrow>
          (if ev_kind ev = Metadata \<or> ev_kind ev = Short_Text_Note \<or> ev_kind ev = Recommend_Relay
              \<or> ev_kind ev = Long_form_Content
           then emit_tokens T (ev_content ev) else []) @
          concat (map (\<lambda>t. if tg_tag t = ''description'' \<or> tg_tag t = ''name'' \<or> tg_tag t = ''subject''
                              \<or> tg_tag t = ''summary'' \<or> tg_tag t = ''title''
                          then emit_tokens T (tg_content t) else [])
                    (ev_tags ev)))"

definition index_nip05 ::
    "'j json_ops \<Rightarrow> (string \<Rightarrow> 'j option) \<Rightarrow> EventOrAttachment \<Rightarrow> string list" where
  "index_nip05 J from_json evatt =
     (case evatt of
        AnAttachment _ \<Rightarrow> []
      | AnEvent ev \<Rightarrow>
          if ev_kind ev = Metadata then
            (case from_json (ev_content ev) of
               None \<Rightarrow> []
             | Some ctx \<Rightarrow>
                 let name = j_string J (j_field J ctx ''nip05'')
                 in if CHR ''@'' \<in> set name then [name] else [])
          else [])"

section \<open>What the rows say\<close>

definition replaceable_key :: "Event \<Rightarrow> author_kind_tag option" where
  "replaceable_key ev =
     (case index_by_author_kind (AnEvent ev) of [] \<Rightarrow> None | (k, _) # _ \<Rightarrow> Some k)"

lemma index_by_author_kind_rows:
  "index_by_author_kind (AnEvent ev) =
     (case replaceable_key ev of None \<Rightarrow> [] | Some k \<Rightarrow> [(k, ev_created_at ev)])"
  by (simp add: replaceable_key_def index_by_author_kind_def Let_def)

text \<open>A key is the author and kind of the event, with its \<open>d\<close> tag for parameterized kinds.\<close>

lemma replaceable_key_author: "replaceable_key ev = Some (a, k, d) \<Longrightarrow> a = ev_author ev \<and> k = ev_kind ev"
  by (auto simp: replaceable_key_def index_by_author_kind_def Let_def split: if_splits)

text \<open>Every condition on a single-character tag finds the event's row in the tag index.\<close>

lemma index_tag_value_row:
  assumes "tg \<in> set (ev_tags ev)" "tg_tag tg = [t]"
  shows "(t, hash (tg_content tg), ev_created_at ev) \<in> set (index_tag_value_time hash (AnEvent ev))"
  using assms by (auto simp: index_tag_value_time_def intro!: bexI [of _ tg])

end
