(* ===== verification/App.thy ===== *)
theory App
  imports App_Index
begin

text \<open>
  \<^verbatim>\<open>src/src/nostr_server/app.h\<close> and \<^verbatim>\<open>app.cpp\<close>: the application object all connections share, with
  its operations of the interface \<^verbatim>\<open>iapp.h\<close>.

  The database (\<open>docdb\<close>) is not part of the repository: its storage and the look-ups of its indexes
  are the record \<open>db_ops\<close> over an arbitrary type of database states, a thrown exception being a
  value of \<open>db_error\<close>. \<open>db_laws\<close> states what the code relies on: after a \<open>put\<close> the document is
  found under a fresh number and the replaced one is gone (the transaction observer
  \<open>autocompact\<close> of the code deletes it), and the unique indexes hold exactly the rows the index
  functions of \<open>App_Index\<close> emit for the stored documents.
\<close>

section \<open>The libraries\<close>

datatype db_error = DuplicateKey | DbError string

datatype batch_op = Put EventOrAttachment docid | Erase docid

record 'd db_ops =
  storage_find :: "'d \<Rightarrow> docid \<Rightarrow> EventOrAttachment option"
  commit_batch :: "'d \<Rightarrow> batch_op list \<Rightarrow> db_error + 'd"
  by_id_find :: "'d \<Rightarrow> bytes \<Rightarrow> (docid \<times> time_t) option"
  replaceable_find :: "'d \<Rightarrow> author_kind_tag \<Rightarrow> (docid \<times> time_t) option"
  attachments_find :: "'d \<Rightarrow> bytes \<Rightarrow> docid option"
  attachments_all :: "'d \<Rightarrow> (bytes \<times> bool) list" \<comment> \<open>identifier and state, in key order\<close>
  whitelist_find :: "'d \<Rightarrow> bytes \<Rightarrow> Karma option"
  whitelist_empty :: "'d \<Rightarrow> bool"
  nip05_find :: "'d \<Rightarrow> string \<Rightarrow> docid option"

text \<open>\<open>storage.put(doc, old)\<close> and \<open>storage.erase(id)\<close> outside a batch are batches of one.\<close>

definition storage_put :: "'d db_ops \<Rightarrow> 'd \<Rightarrow> EventOrAttachment \<Rightarrow> docid \<Rightarrow> db_error + 'd" where
  "storage_put D d doc old = commit_batch D d [Put doc old]"

section \<open>The state\<close>

text \<open>
  An event on its way to the subscribers of all connections, with the connection that published
  it (\<open>None\<close> is the null pointer). \<open>published\<close> is the queue of the publisher, oldest first.
\<close>

type_synonym event_source = "Event \<times> nat option"

record 'd app =
  app_db :: 'd
  app_published :: "event_source list"
  app_gc_running :: bool
  app_empty_database :: bool
  app_clients :: int
  app_this_relay_url :: "string list"

definition app_publish_event :: "Event \<Rightarrow> nat option \<Rightarrow> 'd app \<Rightarrow> 'd app" where
  "app_publish_event ev publisher a = a\<lparr>app_published := app_published a @ [(ev, publisher)]\<rparr>"

section \<open>Look-ups\<close>

definition find_event_by_id :: "'d db_ops \<Rightarrow> 'd app \<Rightarrow> bytes \<Rightarrow> docid" where
  "find_event_by_id D a i = (case by_id_find D (app_db a) i of Some (d, _) \<Rightarrow> d | None \<Rightarrow> 0)"

definition find_attachment :: "'d db_ops \<Rightarrow> 'd app \<Rightarrow> bytes \<Rightarrow> docid" where
  "find_attachment D a i = (case attachments_find D (app_db a) i of Some d \<Rightarrow> d | None \<Rightarrow> 0)"

definition find_replacable :: "'d db_ops \<Rightarrow> 'd app \<Rightarrow> bytes \<Rightarrow> kind \<Rightarrow> string \<Rightarrow> docid" where
  "find_replacable D a pubkey kind category =
     (case replaceable_find D (app_db a) (pubkey, kind, category) of Some (d, _) \<Rightarrow> d | None \<Rightarrow> 0)"

text \<open>\<open>doc_to_replace\<close>: 0 for none, \<open>-1\<close> when the stored event is newer.\<close>

definition doc_to_replace :: "'d db_ops \<Rightarrow> 'd app \<Rightarrow> Event \<Rightarrow> docid" where
  "doc_to_replace D a ev =
     fold (\<lambda>(k, new_tm) to_replace.
             case replaceable_find D (app_db a) k of
               None \<Rightarrow> to_replace
             | Some (d, tm) \<Rightarrow> if sint tm > sint new_tm then - 1 else d)
       (index_by_author_kind (AnEvent ev)) 0"

text \<open>The flag of an empty database is a cache, kept once a row was seen.\<close>

definition check_whitelist :: "'d db_ops \<Rightarrow> 'd app \<Rightarrow> bytes \<Rightarrow> bool \<times> 'd app" where
  "check_whitelist D a k =
     (let a' = (if app_empty_database a
                then a\<lparr>app_empty_database := whitelist_empty D (app_db a)\<rparr> else a)
      in if app_empty_database a' then (True, a')
         else case whitelist_find D (app_db a') k of
                None \<Rightarrow> (False, a')
              | Some r \<Rightarrow> (get_score r > 0, a'))"

definition get_karma :: "'d db_ops \<Rightarrow> 'd app \<Rightarrow> bytes \<Rightarrow> int" where
  "get_karma D a k = (case whitelist_find D (app_db a) k of None \<Rightarrow> 0 | Some r \<Rightarrow> get_score r)"

definition is_home_user :: "'d db_ops \<Rightarrow> 'd app \<Rightarrow> bytes \<Rightarrow> bool" where
  "is_home_user D a pubkey =
     (case whitelist_find D (app_db a) pubkey of None \<Rightarrow> False | Some r \<Rightarrow> local r)"

definition client_counter :: "int \<Rightarrow> string \<Rightarrow> 'd app \<Rightarrow> 'd app" where
  "client_counter increment url a =
     (let a = a\<lparr>app_clients := app_clients a + increment\<rparr>
      in if url \<notin> set (app_this_relay_url a)
         then a\<lparr>app_this_relay_url := url # app_this_relay_url a\<rparr> else a)"

definition is_this_me :: "'d app \<Rightarrow> string \<Rightarrow> bool" where
  "is_this_me a relay =
     (if relay = [] then False
      else let relay = (if last relay = CHR ''/'' then take (length relay - 1) relay else relay)
           in relay \<in> set (app_this_relay_url a))"

section \<open>Publishing\<close>

definition start_gc_thread :: "'d app \<Rightarrow> 'd app" where
  "start_gc_thread a = a\<lparr>app_gc_running := True\<rparr>"

text \<open>A failed \<open>put\<close> is an exception that leaves the state as it was.\<close>

definition publish :: "'d db_ops \<Rightarrow> Event \<Rightarrow> nat option \<Rightarrow> 'd app \<Rightarrow> db_error + 'd app" where
  "publish D ev publisher a =
     (let to_replace = doc_to_replace D a ev;
          gc = (ev_kind ev = Event_Deletion)
      in if to_replace \<noteq> - 1 then
           (case storage_put D (app_db a) (AnEvent ev) to_replace of
              Inl e \<Rightarrow> Inl e
            | Inr d \<Rightarrow>
                let a = app_publish_event ev publisher (a\<lparr>app_db := d\<rparr>)
                in Inr (if gc then start_gc_thread a else a))
         else Inr a)"

definition publish_attachment ::
    "'d db_ops \<Rightarrow> Event \<Rightarrow> Attachment \<Rightarrow> nat option \<Rightarrow> 'd app \<Rightarrow> db_error + 'd app" where
  "publish_attachment D ev attach publisher a =
     (let to_replace = doc_to_replace D a ev;
          att_to_replace = find_attachment D a (att_id attach)
      in if to_replace \<noteq> - 1 then
           (case commit_batch D (app_db a)
                   [Put (AnEvent ev) to_replace, Put (AnAttachment attach) att_to_replace] of
              Inl e \<Rightarrow> Inl e
            | Inr d \<Rightarrow> Inr (app_publish_event ev publisher (a\<lparr>app_db := d\<rparr>)))
         else Inr a)"

section \<open>Collecting attachments without an event\<close>

text \<open>
  The first loop. A row of an event (state true) takes its identifier off the list when it was
  the last one put there; \<open>killthem\<close> is kept in reverse.
\<close>

fun gc_candidates :: "(bytes \<times> bool) list \<Rightarrow> bytes list \<Rightarrow> bytes list" where
  "gc_candidates [] killthem = killthem"
| "gc_candidates ((i, state) # rows) killthem =
     gc_candidates rows
       (if \<not> state then i # killthem
        else if killthem \<noteq> [] \<and> hd killthem = i then tl killthem else killthem)"

text \<open>Every \<open>erase\<close> is a transaction of its own, so those before a failed one stay.\<close>

fun gc_erase :: "'d db_ops \<Rightarrow> bytes list \<Rightarrow> 'd \<Rightarrow> db_error option \<times> 'd" where
  "gc_erase D [] d = (None, d)"
| "gc_erase D (k # ks) d =
     (case attachments_find D d k of
        None \<Rightarrow> gc_erase D ks d
      | Some i \<Rightarrow>
          (case commit_batch D d [Erase i] of
             Inl e \<Rightarrow> (Some e, d) | Inr d' \<Rightarrow> gc_erase D ks d'))"

text \<open>A run of the collector that is not asked to stop, with the number it reports.\<close>

definition run_attachment_gc :: "'d db_ops \<Rightarrow> 'd app \<Rightarrow> (db_error + nat) \<times> 'd app" where
  "run_attachment_gc D a =
     (let killthem = rev (gc_candidates (attachments_all D (app_db a)) []);
          (e, d) = gc_erase D killthem (app_db a);
          a = a\<lparr>app_db := d, app_gc_running := False\<rparr>
      in case e of Some e \<Rightarrow> (Inl e, a) | None \<Rightarrow> (Inr (length killthem), a))"

section \<open>What the database promises\<close>

text \<open>
  The documents after a batch whose \<open>Put\<close>s were given the numbers \<open>ns\<close>: a \<open>Put\<close> also removes the
  document it replaces.
\<close>

fun apply_batch ::
    "batch_op list \<Rightarrow> docid list \<Rightarrow> (docid \<Rightarrow> EventOrAttachment option) \<Rightarrow> docid \<Rightarrow> EventOrAttachment option" where
  "apply_batch [] ns m = m"
| "apply_batch (Erase i # ops) ns m = apply_batch ops ns (m(i := None))"
| "apply_batch (Put doc old # ops) (n # ns) m = apply_batch ops ns ((m(old := None))(n := Some doc))"
| "apply_batch (Put doc old # ops) [] m = m"

definition fresh_numbers :: "docid list \<Rightarrow> (docid \<Rightarrow> EventOrAttachment option) \<Rightarrow> bool" where
  "fresh_numbers ns m \<longleftrightarrow> distinct ns \<and> list_all (\<lambda>n. n \<noteq> 0 \<and> n \<noteq> - 1 \<and> m n = None) ns"

definition puts :: "batch_op list \<Rightarrow> nat" where
  "puts ops = length (filter (\<lambda>x. case x of Put _ _ \<Rightarrow> True | Erase _ \<Rightarrow> False) ops)"

text \<open>\<open>ok\<close> are the states the database can be in.\<close>

definition db_laws :: "'d db_ops \<Rightarrow> ('d \<Rightarrow> bool) \<Rightarrow> bool" where
  "db_laws D ok \<longleftrightarrow>
     (\<forall>d. ok d \<longrightarrow> storage_find D d 0 = None \<and> storage_find D d (- 1) = None) \<and>
     (\<forall>d i n t. ok d \<longrightarrow> (by_id_find D d i = Some (n, t) \<longleftrightarrow>
        (\<exists>doc. storage_find D d n = Some doc \<and> (i, t) \<in> set (index_by_id doc)))) \<and>
     (\<forall>d k n t. ok d \<longrightarrow> (replaceable_find D d k = Some (n, t) \<longleftrightarrow>
        (\<exists>doc. storage_find D d n = Some doc \<and> (k, t) \<in> set (index_by_author_kind doc)))) \<and>
     (\<forall>d i n. ok d \<longrightarrow> (attachments_find D d i = Some n \<longleftrightarrow>
        (\<exists>att. storage_find D d n = Some (AnAttachment att) \<and> att_id att = i))) \<and>
     (\<forall>d ops d'. ok d \<longrightarrow> commit_batch D d ops = Inr d' \<longrightarrow> ok d' \<and>
        (\<exists>ns. length ns = puts ops \<and> fresh_numbers ns (storage_find D d) \<and>
           storage_find D d' = apply_batch ops ns (storage_find D d)))"

lemma db_lawsD:
  assumes "db_laws D ok" "ok d"
  shows "storage_find D d 0 = None" "storage_find D d (- 1) = None"
    "by_id_find D d i = Some (n, t) \<longleftrightarrow>
       (\<exists>doc. storage_find D d n = Some doc \<and> (i, t) \<in> set (index_by_id doc))"
    "replaceable_find D d k = Some (n, t) \<longleftrightarrow>
       (\<exists>doc. storage_find D d n = Some doc \<and> (k, t) \<in> set (index_by_author_kind doc))"
    "attachments_find D d i = Some n \<longleftrightarrow>
       (\<exists>att. storage_find D d n = Some (AnAttachment att) \<and> att_id att = i)"
    "commit_batch D d ops = Inr d' \<Longrightarrow> ok d' \<and>
       (\<exists>ns. length ns = puts ops \<and> fresh_numbers ns (storage_find D d) \<and>
          storage_find D d' = apply_batch ops ns (storage_find D d))"
  using assms unfolding db_laws_def by blast+

end
