(* ===== verification/App_Search.thy ===== *)
theory App_Search
  imports App
begin

text \<open>
  \<open>App::find_in_index\<close> of \<^verbatim>\<open>src/src/nostr_server/app.cpp\<close>: from the filters of a command to the
  set of candidate documents, each with the pair of numbers that orders the answers.

  The range reads of the indexes and the calculator with recordsets are the database library's:
  they are the record \<open>search_ops\<close>, over an arbitrary type of recordsets. A recordset can be
  inverted, then its items are the documents it does not hold. The calculator is a stack; the code
  always pushes one operand and merges it with the one below, so the stack is written as nested
  values here: \<open>acc\<close> is the top before the push.

  \<open>search_laws\<close> states what the search relies on, kept to what holds for any choice of the ends of a
  range: a row strictly inside is read. \<open>search_complete\<close> shows that every stored event that
  matches a filter is a candidate.
\<close>

unbundle bit_operations_syntax

type_synonym ordering_item = "u32 \<times> u32"
type_synonym 'k row = "'k \<times> docid"
type_synonym candidate = "docid \<times> ordering_item"

record ('d, 'r) search_ops =
  sel_by_id :: "'d \<Rightarrow> bytes \<Rightarrow> bytes \<Rightarrow> (bytes \<times> time_t) row list"
  sel_pubkeys :: "'d \<Rightarrow> bytes \<Rightarrow> bytes \<Rightarrow> (bytes \<times> time_t) row list" \<comment> \<open>bounds without a time\<close>
  sel_pubkey_time :: "'d \<Rightarrow> bytes \<times> time_t \<Rightarrow> bytes \<times> time_t \<Rightarrow> (bytes \<times> time_t) row list"
  sel_tag_time :: "'d \<Rightarrow> char \<times> u64 \<times> time_t \<Rightarrow> char \<times> u64 \<times> time_t \<Rightarrow> (char \<times> u64 \<times> time_t) row list"
  sel_kind_time :: "'d \<Rightarrow> kind \<times> time_t \<Rightarrow> kind \<times> time_t \<Rightarrow> (kind \<times> time_t) row list"
  sel_time :: "'d \<Rightarrow> time_t \<Rightarrow> time_t \<Rightarrow> time_t row list"
  sel_words :: "'d \<Rightarrow> string \<Rightarrow> WordToken row list" \<comment> \<open>the words with a prefix\<close>
  second_number :: "bytes \<times> time_t \<Rightarrow> time_t" \<comment> \<open>\<open>key.get<std::size_t, std::time_t>()\<close> of such a key\<close>
  rs_empty :: 'r
  rs_all :: 'r
  rs_of :: "candidate list \<Rightarrow> 'r"
  rs_or :: "(ordering_item \<Rightarrow> ordering_item \<Rightarrow> ordering_item) \<Rightarrow> 'r \<Rightarrow> 'r \<Rightarrow> 'r"
  rs_and :: "(ordering_item \<Rightarrow> ordering_item \<Rightarrow> ordering_item) \<Rightarrow> 'r \<Rightarrow> 'r \<Rightarrow> 'r"
  rs_items :: "'r \<Rightarrow> candidate list"
  rs_inverted :: "'r \<Rightarrow> bool"
  rs_is_empty :: "'r \<Rightarrow> bool"
  rs_size :: "'r \<Rightarrow> int"

section \<open>The order of the candidates\<close>

definition unique_key_value_ordering :: "time_t \<Rightarrow> ordering_item" where
  "unique_key_value_ordering time = (0, ucast (time - 946681200))"

definition unique_index_ordering :: "(bytes \<times> time_t) row \<Rightarrow> candidate" where
  "unique_index_ordering row = (snd row, unique_key_value_ordering (snd (fst row)))"

text \<open>The time is the last part of the key.\<close>

definition multi_index_ordering :: "('k \<Rightarrow> time_t) \<Rightarrow> 'k row \<Rightarrow> candidate" where
  "multi_index_ordering time row = (snd row, unique_key_value_ordering (time (fst row)))"

text \<open>The product is stored back in an \<open>unsigned char\<close>, and the division is of \<open>int\<close>s.\<close>

definition fulltext_relevance_ordering :: "string \<Rightarrow> WordToken row \<Rightarrow> candidate" where
  "fulltext_relevance_ordering word row =
     (let (k, rel) = fst row;
          rel = rel * (of_nat (length k) - of_nat (length word) + 1)
      in (snd row, (of_nat (256 div unat rel), 0)))"

definition merge_relevance :: "ordering_item \<Rightarrow> ordering_item \<Rightarrow> ordering_item" where
  "merge_relevance a b = (max (fst a) (fst b), max (snd a) (snd b))"

section \<open>The search\<close>

text \<open>The bounds in time, closing a key from below and from above.\<close>

definition append_time :: "nostr_filter \<Rightarrow> time_t \<times> time_t" where
  "append_time f =
     (case f_since f of Some s \<Rightarrow> s | None \<Rightarrow> 0,
      case f_until f of Some u \<Rightarrow> u | None \<Rightarrow> 0x7FFFFFFFFFFFFFFF)"

definition searchShortenID :: "shorten_id \<Rightarrow> bytes \<times> bytes" where
  "searchShortenID def =
     (let n = unat (snd def); rest = length (fst def) - n
      in (take n (fst def) @ replicate rest 0, take n (fst def) @ replicate rest 0xFF))"

definition find_words ::
    "text_ops \<Rightarrow> ('d, 'r) search_ops \<Rightarrow> 'd \<Rightarrow> string \<Rightarrow> 'r" where
  "find_words T Q d text =
     fold (\<lambda>tk acc. rs_or Q merge_relevance acc
                      (rs_of Q (map (fulltext_relevance_ordering (fst tk)) (sel_words Q d (fst tk)))))
       (case tokenize_text T text of None \<Rightarrow> [] | Some wt \<Rightarrow> wt) (rs_empty Q)"

definition find_ids ::
    "'d db_ops \<Rightarrow> ('d, 'r) search_ops \<Rightarrow> 'd \<Rightarrow> shorten_id list \<Rightarrow> 'r" where
  "find_ids D Q d ids =
     fold (\<lambda>a acc. rs_or Q merge_relevance acc
             (if unat (snd a) \<noteq> length (fst a) then
                (let (from, to) = searchShortenID a
                 in rs_of Q (map unique_index_ordering (sel_by_id Q d from to)))
              else
                rs_of Q (case by_id_find D d (fst a) of
                           Some (i, time) \<Rightarrow> [(i, unique_key_value_ordering time)] | None \<Rightarrow> [])))
       ids (rs_empty Q)"

text \<open>
  A full key is read with its bounds in time; its rows are ordered by what the key holds as a
  number and a time, though the key is an author and a time.
\<close>

definition find_authors ::
    "('d, 'r) search_ops \<Rightarrow> 'd \<Rightarrow> nostr_filter \<Rightarrow> shorten_id list \<Rightarrow> 'r" where
  "find_authors Q d f authors =
     fold (\<lambda>a acc. rs_or Q merge_relevance acc
             (if unat (snd a) \<noteq> length (fst a) then
                (let (from, to) = searchShortenID a
                 in rs_of Q (map (multi_index_ordering snd) (sel_pubkeys Q d from to)))
              else
                (let (since, until) = append_time f
                 in rs_of Q (map (multi_index_ordering (second_number Q))
                               (sel_pubkey_time Q d (fst a, since) (fst a, until))))))
       authors (rs_empty Q)"

definition find_tag ::
    "(string \<Rightarrow> u64) \<Rightarrow> ('d, 'r) search_ops \<Rightarrow> 'd \<Rightarrow> nostr_filter \<Rightarrow> char \<Rightarrow> string list \<Rightarrow> 'r" where
  "find_tag hash Q d f t contents =
     fold (\<lambda>x acc. rs_or Q merge_relevance acc
             (let h = hash x; (since, until) = append_time f
              in rs_of Q (map (multi_index_ordering (\<lambda>(_, _, tm). tm))
                            (sel_tag_time Q d (t, h, since) (t, h, until)))))
       contents (rs_empty Q)"

definition find_kinds :: "('d, 'r) search_ops \<Rightarrow> 'd \<Rightarrow> nostr_filter \<Rightarrow> kind list \<Rightarrow> 'r" where
  "find_kinds Q d f kinds =
     fold (\<lambda>a acc. rs_or Q merge_relevance acc
             (let (since, until) = append_time f
              in rs_of Q (map (multi_index_ordering snd) (sel_kind_time Q d (a, since) (a, until)))))
       kinds (rs_empty Q)"

text \<open>\<open>need_time\<close> stays true when no part of the filter was read with its bounds in time.\<close>

definition need_time :: "nostr_filter \<Rightarrow> bool" where
  "need_time f \<longleftrightarrow>
     \<not> list_ex (\<lambda>a. unat (snd a) = length (fst a)) (f_authors f) \<and>
     \<not> list_ex (\<lambda>(t, contents). contents \<noteq> []) (f_tags f) \<and> f_kinds f = []"

definition find_filter ::
    "'d db_ops \<Rightarrow> text_ops \<Rightarrow> (string \<Rightarrow> u64) \<Rightarrow> ('d, 'r) search_ops \<Rightarrow> 'd \<Rightarrow> nostr_filter \<Rightarrow> 'r" where
  "find_filter D T hash Q d f =
     (let top = rs_all Q;
          top = (if f_ft_search f \<noteq> []
                 then rs_and Q merge_relevance top (find_words T Q d (f_ft_search f)) else top)
      in if rs_is_empty Q top then top
         else
           let top = (if f_ids f \<noteq> []
                      then rs_and Q merge_relevance top (find_ids D Q d (f_ids f)) else top)
           in if f_ids f \<noteq> [] \<and> rs_is_empty Q top then top
              else
                let top = (if f_authors f \<noteq> []
                           then rs_and Q merge_relevance top (find_authors Q d f (f_authors f))
                           else top)
                in if f_authors f \<noteq> [] \<and> rs_is_empty Q top then top
                   else
                     let top = fold (\<lambda>(t, contents) top.
                                  rs_and Q merge_relevance top (find_tag hash Q d f t contents))
                                (f_tags f) top;
                         top = (if f_kinds f \<noteq> []
                                then rs_and Q merge_relevance top (find_kinds Q d f (f_kinds f))
                                else top)
                     in if need_time f \<and> (f_since f \<noteq> None \<or> f_until f \<noteq> None)
                        then let (since, until) = append_time f
                             in rs_and Q merge_relevance top
                                  (rs_of Q (map (multi_index_ordering (\<lambda>tm. tm)) (sel_time Q d since until)))
                        else top)"

definition find_in_index ::
    "'d db_ops \<Rightarrow> text_ops \<Rightarrow> (string \<Rightarrow> u64) \<Rightarrow> ('d, 'r) search_ops \<Rightarrow> 'd \<Rightarrow> nostr_filter list \<Rightarrow> 'r" where
  "find_in_index D T hash Q d filters =
     fold (\<lambda>f acc. rs_or Q merge_relevance acc (find_filter D T hash Q d f)) filters (rs_empty Q)"

section \<open>What the search relies on\<close>

definition rs_has :: "('d, 'r) search_ops \<Rightarrow> 'r \<Rightarrow> docid \<Rightarrow> bool" where
  "rs_has Q r i \<longleftrightarrow> (i \<in> fst ` set (rs_items Q r)) \<noteq> rs_inverted Q r"

definition recordset_laws :: "('d, 'r) search_ops \<Rightarrow> bool" where
  "recordset_laws Q \<longleftrightarrow>
     rs_items Q (rs_empty Q) = [] \<and> \<not> rs_inverted Q (rs_empty Q) \<and>
     rs_items Q (rs_all Q) = [] \<and> rs_inverted Q (rs_all Q) \<and>
     (\<forall>cs. fst ` set (rs_items Q (rs_of Q cs)) = fst ` set cs \<and> \<not> rs_inverted Q (rs_of Q cs)) \<and>
     (\<forall>m a b i. rs_has Q (rs_or Q m a b) i \<longleftrightarrow> rs_has Q a i \<or> rs_has Q b i) \<and>
     (\<forall>m a b. rs_inverted Q (rs_or Q m a b) \<longleftrightarrow> rs_inverted Q a \<or> rs_inverted Q b) \<and>
     (\<forall>m a b i. rs_has Q (rs_and Q m a b) i \<longleftrightarrow> rs_has Q a i \<and> rs_has Q b i) \<and>
     (\<forall>m a b. rs_inverted Q (rs_and Q m a b) \<longleftrightarrow> rs_inverted Q a \<and> rs_inverted Q b) \<and>
     (\<forall>r. rs_is_empty Q r \<longleftrightarrow> rs_items Q r = [] \<and> \<not> rs_inverted Q r)"

lemma recordset_lawsD:
  assumes "recordset_laws Q"
  shows "\<not> rs_has Q (rs_empty Q) i" "rs_has Q (rs_all Q) i"
    "rs_has Q (rs_of Q cs) i \<longleftrightarrow> i \<in> fst ` set cs"
    "rs_has Q (rs_or Q m a b) i \<longleftrightarrow> rs_has Q a i \<or> rs_has Q b i"
    "rs_has Q (rs_and Q m a b) i \<longleftrightarrow> rs_has Q a i \<and> rs_has Q b i"
    "rs_is_empty Q r \<Longrightarrow> \<not> rs_has Q r i"
    "\<not> rs_inverted Q (rs_empty Q)" "rs_inverted Q (rs_all Q)" "\<not> rs_inverted Q (rs_of Q cs)"
    "rs_inverted Q (rs_or Q m a b) \<longleftrightarrow> rs_inverted Q a \<or> rs_inverted Q b"
    "rs_inverted Q (rs_and Q m a b) \<longleftrightarrow> rs_inverted Q a \<and> rs_inverted Q b"
proof -
  have base: "rs_items Q (rs_empty Q) = []" "\<not> rs_inverted Q (rs_empty Q)"
    "rs_items Q (rs_all Q) = []" "rs_inverted Q (rs_all Q)"
    and rows: "\<forall>cs. fst ` set (rs_items Q (rs_of Q cs)) = fst ` set cs \<and> \<not> rs_inverted Q (rs_of Q cs)"
    and either: "\<forall>m a b i. rs_has Q (rs_or Q m a b) i \<longleftrightarrow> rs_has Q a i \<or> rs_has Q b i"
      "\<forall>m a b. rs_inverted Q (rs_or Q m a b) \<longleftrightarrow> rs_inverted Q a \<or> rs_inverted Q b"
    and both: "\<forall>m a b i. rs_has Q (rs_and Q m a b) i \<longleftrightarrow> rs_has Q a i \<and> rs_has Q b i"
      "\<forall>m a b. rs_inverted Q (rs_and Q m a b) \<longleftrightarrow> rs_inverted Q a \<and> rs_inverted Q b"
    and none: "\<forall>r. rs_is_empty Q r \<longleftrightarrow> rs_items Q r = [] \<and> \<not> rs_inverted Q r"
    using assms unfolding recordset_laws_def by - (elim conjE, assumption)+
  show "\<not> rs_has Q (rs_empty Q) i" "rs_has Q (rs_all Q) i" "\<not> rs_inverted Q (rs_empty Q)"
    "rs_inverted Q (rs_all Q)" using base by (simp_all add: rs_has_def)
  show "rs_has Q (rs_of Q cs) i \<longleftrightarrow> i \<in> fst ` set cs" "\<not> rs_inverted Q (rs_of Q cs)"
    using rows by (simp_all add: rs_has_def)
  show "rs_is_empty Q r \<Longrightarrow> \<not> rs_has Q r i" using none by (simp add: rs_has_def)
  show "rs_has Q (rs_or Q m a b) i \<longleftrightarrow> rs_has Q a i \<or> rs_has Q b i"
    "rs_inverted Q (rs_or Q m a b) \<longleftrightarrow> rs_inverted Q a \<or> rs_inverted Q b" using either by blast+
  show "rs_has Q (rs_and Q m a b) i \<longleftrightarrow> rs_has Q a i \<and> rs_has Q b i"
    "rs_inverted Q (rs_and Q m a b) \<longleftrightarrow> rs_inverted Q a \<and> rs_inverted Q b" using both by blast+
qed

text \<open>A time inside a range, away from its upper end and from negative numbers.\<close>

definition in_time :: "time_t \<Rightarrow> time_t \<Rightarrow> time_t \<Rightarrow> bool" where
  "in_time since until t \<longleftrightarrow> 0 \<le> sint since \<and> sint since \<le> sint t \<and> sint t < sint until"

text \<open>The rows of a stored document are read by every range they are inside of.\<close>

definition range_laws ::
    "'d db_ops \<Rightarrow> (string \<Rightarrow> u64) \<Rightarrow> ('d, 'r) search_ops \<Rightarrow> ('d \<Rightarrow> bool) \<Rightarrow> bool" where
  "range_laws D hash Q ok \<longleftrightarrow>
     (\<forall>d n doc. ok d \<longrightarrow> storage_find D d n = Some doc \<longrightarrow>
        (\<forall>(k, t) \<in> set (index_by_id doc). \<forall>from to. from \<le> k \<longrightarrow> k < to \<longrightarrow>
           ((k, t), n) \<in> set (sel_by_id Q d from to)) \<and>
        (\<forall>(k, t) \<in> set (index_by_pubkey_time doc). \<forall>from to. from \<le> k \<longrightarrow> k < to \<longrightarrow>
           ((k, t), n) \<in> set (sel_pubkeys Q d from to)) \<and>
        (\<forall>(k, t) \<in> set (index_by_pubkey_time doc). \<forall>since until. in_time since until t \<longrightarrow>
           ((k, t), n) \<in> set (sel_pubkey_time Q d (k, since) (k, until))) \<and>
        (\<forall>(c, h, t) \<in> set (index_tag_value_time hash doc). \<forall>since until. in_time since until t \<longrightarrow>
           ((c, h, t), n) \<in> set (sel_tag_time Q d (c, h, since) (c, h, until))) \<and>
        (\<forall>(k, t) \<in> set (index_kind_time doc). \<forall>since until. in_time since until t \<longrightarrow>
           ((k, t), n) \<in> set (sel_kind_time Q d (k, since) (k, until))) \<and>
        (\<forall>t \<in> set (index_time doc). \<forall>since until. in_time since until t \<longrightarrow>
           (t, n) \<in> set (sel_time Q d since until)))"

definition search_laws ::
    "'d db_ops \<Rightarrow> (string \<Rightarrow> u64) \<Rightarrow> ('d, 'r) search_ops \<Rightarrow> ('d \<Rightarrow> bool) \<Rightarrow> bool" where
  "search_laws D hash Q ok \<longleftrightarrow> recordset_laws Q \<and> range_laws D hash Q ok"

lemma range_lawsD:
  assumes "range_laws D hash Q ok" "ok d" "storage_find D d n = Some (AnEvent ev)"
  shows "from \<le> ev_id ev \<Longrightarrow> ev_id ev < to \<Longrightarrow>
      ((ev_id ev, ev_created_at ev), n) \<in> set (sel_by_id Q d from to)"
    "from \<le> ev_author ev \<Longrightarrow> ev_author ev < to \<Longrightarrow>
      ((ev_author ev, ev_created_at ev), n) \<in> set (sel_pubkeys Q d from to)"
    "in_time since until (ev_created_at ev) \<Longrightarrow>
      ((ev_author ev, ev_created_at ev), n)
        \<in> set (sel_pubkey_time Q d (ev_author ev, since) (ev_author ev, until))"
    "in_time since until (ev_created_at ev) \<Longrightarrow> tg \<in> set (ev_tags ev) \<Longrightarrow> tg_tag tg = [c] \<Longrightarrow>
      ((c, hash (tg_content tg), ev_created_at ev), n)
        \<in> set (sel_tag_time Q d (c, hash (tg_content tg), since) (c, hash (tg_content tg), until))"
    "in_time since until (ev_created_at ev) \<Longrightarrow>
      ((ev_kind ev, ev_created_at ev), n)
        \<in> set (sel_kind_time Q d (ev_kind ev, since) (ev_kind ev, until))"
    "in_time since until (ev_created_at ev) \<Longrightarrow>
      (ev_created_at ev, n) \<in> set (sel_time Q d since until)"
proof -
  note laws = assms(1) [unfolded range_laws_def, rule_format, OF assms(2,3)]
  show "((ev_id ev, ev_created_at ev), n) \<in> set (sel_by_id Q d from to)"
    if "from \<le> ev_id ev" "ev_id ev < to" using laws that by (simp add: index_by_id_def)
  show "((ev_author ev, ev_created_at ev), n) \<in> set (sel_pubkeys Q d from to)"
    if "from \<le> ev_author ev" "ev_author ev < to" using laws that by (simp add: index_by_pubkey_time_def)
  show "((ev_author ev, ev_created_at ev), n)
        \<in> set (sel_pubkey_time Q d (ev_author ev, since) (ev_author ev, until))"
    if "in_time since until (ev_created_at ev)" using laws that by (simp add: index_by_pubkey_time_def)
  show "((c, hash (tg_content tg), ev_created_at ev), n)
        \<in> set (sel_tag_time Q d (c, hash (tg_content tg), since) (c, hash (tg_content tg), until))"
    if "in_time since until (ev_created_at ev)" "tg \<in> set (ev_tags ev)" "tg_tag tg = [c]"
    using laws index_tag_value_row [OF that(2,3)] that(1) by fastforce
  show "((ev_kind ev, ev_created_at ev), n)
        \<in> set (sel_kind_time Q d (ev_kind ev, since) (ev_kind ev, until))"
    if "in_time since until (ev_created_at ev)" using laws that by (simp add: index_kind_time_def)
  show "(ev_created_at ev, n) \<in> set (sel_time Q d since until)"
    if "in_time since until (ev_created_at ev)" using laws that by (simp add: index_time_def)
qed

section \<open>Every part of the search keeps a matching event\<close>

lemma has_fold_or:
  assumes "recordset_laws Q"
  shows "rs_has Q (fold (\<lambda>x acc. rs_or Q m acc (g x)) xs acc) i
    \<longleftrightarrow> rs_has Q acc i \<or> (\<exists>x \<in> set xs. rs_has Q (g x) i)"
  by (induction xs arbitrary: acc) (auto simp: recordset_lawsD(4) [OF assms])

lemma has_fold_and:
  assumes "recordset_laws Q"
  shows "rs_has Q (fold (\<lambda>x acc. rs_and Q m acc (g x)) xs acc) i
    \<longleftrightarrow> rs_has Q acc i \<and> (\<forall>x \<in> set xs. rs_has Q (g x) i)"
  by (induction xs arbitrary: acc) (auto simp: recordset_lawsD(5) [OF assms])

text \<open>
  The bounds of a shortened identifier hold between them every identifier with the prefix, except
  that the last one of them is the upper bound itself.
\<close>

lemma replicate_0_le: "length ys = n \<Longrightarrow> replicate n (0 :: u8) \<le> ys"
  by (induction n arbitrary: ys)
    (auto simp: length_Suc_conv List_Lexorder.Cons_le_Cons word_gt_0)

lemma le_replicate_FF: "length ys = n \<Longrightarrow> ys \<le> replicate n (0xFF :: u8)"
proof (induction n arbitrary: ys)
  case 0
  then show ?case by simp
next
  case (Suc n)
  then obtain y ys' where ys: "ys = y # ys'" "length ys' = n" by (auto simp: length_Suc_conv)
  have "unat y < 256" using unsigned_less [of y] by simp
  then have "y \<le> 0xFF" by (simp add: word_le_nat_alt)
  then show ?case using ys Suc by (auto simp: List_Lexorder.Cons_le_Cons order_le_less)
qed

lemma append_le_append: "(xs @ ys :: u8 list) \<le> xs @ zs \<longleftrightarrow> ys \<le> zs"
  by (induction xs) (auto simp: List_Lexorder.Cons_le_Cons)

lemma searchShortenID_between:
  assumes "take (unat c) p = take (unat c) k" "length k = length p" "searchShortenID (p, c) = (from, to)"
  shows "from \<le> k" "k \<le> to"
proof -
  let ?n = "unat c"
  have k: "k = take ?n p @ drop ?n k" using assms(1) by (metis append_take_drop_id)
  have len: "length (drop ?n k) = length p - ?n" using assms(2) by simp
  have ft: "from = take ?n p @ replicate (length p - ?n) 0"
    "to = take ?n p @ replicate (length p - ?n) 0xFF"
    using assms(3) by (auto simp: searchShortenID_def Let_def)
  show "from \<le> k" unfolding ft by (subst k) (simp only: append_le_append replicate_0_le [OF len])
  show "k \<le> to" unfolding ft by (subst k) (simp only: append_le_append le_replicate_FF [OF len])
qed

text \<open>
  An event away from the ends of the ranges a filter reads: its time is not negative and not the
  very last one the filter allows, and its key is not the greatest with a given prefix (a complete
  key is looked up and has no such end).
\<close>

definition not_last :: "shorten_id \<Rightarrow> bytes \<Rightarrow> bool" where
  "not_last a k \<longleftrightarrow> unat (snd a) = length (fst a) \<or>
     drop (unat (snd a)) k \<noteq> replicate (length (fst a) - unat (snd a)) 0xFF"

definition inside_ranges :: "nostr_filter \<Rightarrow> Event \<Rightarrow> bool" where
  "inside_ranges f ev \<longleftrightarrow>
     0 \<le> sint (ev_created_at ev) \<and> (case f_since f of Some s \<Rightarrow> 0 \<le> sint s | None \<Rightarrow> True) \<and>
     sint (ev_created_at ev) \<noteq> (case f_until f of Some u \<Rightarrow> sint u | None \<Rightarrow> 2 ^ 63 - 1) \<and>
     (\<forall>a \<in> set (f_ids f). not_last a (ev_id ev)) \<and> (\<forall>a \<in> set (f_authors f). not_last a (ev_author ev))"

lemma inside_time:
  assumes "matches f ev" "inside_ranges f ev"
  shows "in_time (fst (append_time f)) (snd (append_time f)) (ev_created_at ev)"
proof -
  have "sint (ev_created_at ev) < 2 ^ 63" using sint_lt [of "ev_created_at ev"] by simp
  then show ?thesis
    using assms by (auto simp: in_time_def append_time_def matches_def inside_ranges_def split: option.splits)
qed

lemma shortened_between:
  assumes "take (unat c) p = take (unat c) k" "length k = length p" "not_last (p, c) k" "unat c \<noteq> length p"
  shows "fst (searchShortenID (p, c)) \<le> k" "k < snd (searchShortenID (p, c))"
proof -
  have "drop (unat c) (snd (searchShortenID (p, c))) = replicate (length p - unat c) 0xFF"
    by (simp add: searchShortenID_def Let_def)
  then have "k \<noteq> snd (searchShortenID (p, c))" using assms(3,4) by (auto simp: not_last_def)
  then show "fst (searchShortenID (p, c)) \<le> k" "k < snd (searchShortenID (p, c))"
    using searchShortenID_between [OF assms(1,2), of "fst (searchShortenID (p, c))" "snd (searchShortenID (p, c))"]
    by (simp_all add: order_le_less)
qed

lemma find_ids_has:
  assumes "db_laws D ok" "search_laws D hash Q ok" "ok d" "storage_find D d n = Some (AnEvent ev)"
    and mem: "(p, c) \<in> set ids" "take (unat c) p = take (unat c) (ev_id ev)"
      "length (ev_id ev) = length p" "not_last (p, c) (ev_id ev)"
  shows "rs_has Q (find_ids D Q d ids) n"
proof -
  have rs: "recordset_laws Q" and rng: "range_laws D hash Q ok"
    using assms(2) by (simp_all add: search_laws_def)
  have "rs_has Q (if unat c \<noteq> length p then
       (let (from, to) = searchShortenID (p, c)
        in rs_of Q (map unique_index_ordering (sel_by_id Q d from to)))
     else rs_of Q (case by_id_find D d p of
            Some (i, time) \<Rightarrow> [(i, unique_key_value_ordering time)] | None \<Rightarrow> [])) n"
  proof (cases "unat c = length p")
    case True
    then have "p = ev_id ev" using mem by simp
    then have "by_id_find D d p = Some (n, ev_created_at ev)"
      using assms(4) unfolding db_lawsD(3) [OF assms(1,3)] by (auto simp: index_by_id_def)
    then show ?thesis using True by (simp add: recordset_lawsD(3) [OF rs])
  next
    case False
    obtain lo hi where ft: "searchShortenID (p, c) = (lo, hi)" by fastforce
    have "((ev_id ev, ev_created_at ev), n) \<in> set (sel_by_id Q d lo hi)"
      using shortened_between [OF mem(2-4) False] ft
      by (intro range_lawsD(1) [OF rng assms(3,4)]) simp_all
    then show ?thesis
      using False ft by (force simp: recordset_lawsD(3) [OF rs] unique_index_ordering_def)
  qed
  with mem(1) show ?thesis
    unfolding find_ids_def has_fold_or [OF rs] by (intro disjI2 bexI [of _ "(p, c)"]) (simp_all only: fst_conv snd_conv)
qed

lemma find_authors_has:
  assumes "search_laws D hash Q ok" "ok d" "storage_find D d n = Some (AnEvent ev)"
    and mem: "(p, c) \<in> set authors" "take (unat c) p = take (unat c) (ev_author ev)"
      "length (ev_author ev) = length p" "not_last (p, c) (ev_author ev)"
    and time: "in_time (fst (append_time f)) (snd (append_time f)) (ev_created_at ev)"
  shows "rs_has Q (find_authors Q d f authors) n"
proof -
  have rs: "recordset_laws Q" and rng: "range_laws D hash Q ok"
    using assms(1) by (simp_all add: search_laws_def)
  obtain since until where su: "append_time f = (since, until)" by fastforce
  have "rs_has Q (if unat c \<noteq> length p then
       (let (from, to) = searchShortenID (p, c)
        in rs_of Q (map (multi_index_ordering snd) (sel_pubkeys Q d from to)))
     else
       (let (since, until) = append_time f
        in rs_of Q (map (multi_index_ordering (second_number Q))
                      (sel_pubkey_time Q d (p, since) (p, until))))) n"
  proof (cases "unat c = length p")
    case True
    then have p: "p = ev_author ev" using mem by simp
    have "((ev_author ev, ev_created_at ev), n)
        \<in> set (sel_pubkey_time Q d (ev_author ev, since) (ev_author ev, until))"
      using time su by (intro range_lawsD(3) [OF rng assms(2,3)]) simp
    then show ?thesis
      using True su p by (force simp: recordset_lawsD(3) [OF rs] multi_index_ordering_def)
  next
    case False
    obtain lo hi where ft: "searchShortenID (p, c) = (lo, hi)" by fastforce
    have "((ev_author ev, ev_created_at ev), n) \<in> set (sel_pubkeys Q d lo hi)"
      using shortened_between [OF mem(2-4) False] ft
      by (intro range_lawsD(2) [OF rng assms(2,3)]) simp_all
    then show ?thesis
      using False ft by (force simp: recordset_lawsD(3) [OF rs] multi_index_ordering_def)
  qed
  with mem(1) show ?thesis
    unfolding find_authors_def has_fold_or [OF rs] by (intro disjI2 bexI [of _ "(p, c)"]) (simp_all only: fst_conv snd_conv)
qed

lemma find_tag_has:
  assumes "search_laws D hash Q ok" "ok d" "storage_find D d n = Some (AnEvent ev)"
    and tag: "tg \<in> set (ev_tags ev)" "tg_tag tg = [t]" "tg_content tg \<in> set contents"
    and time: "in_time (fst (append_time f)) (snd (append_time f)) (ev_created_at ev)"
  shows "rs_has Q (find_tag hash Q d f t contents) n"
proof -
  have rs: "recordset_laws Q" and rng: "range_laws D hash Q ok"
    using assms(1) by (simp_all add: search_laws_def)
  obtain since until where su: "append_time f = (since, until)" by fastforce
  let ?h = "hash (tg_content tg)"
  have "((t, ?h, ev_created_at ev), n) \<in> set (sel_tag_time Q d (t, ?h, since) (t, ?h, until))"
    using time su by (intro range_lawsD(4) [OF rng assms(2,3) _ tag(1,2)]) simp
  then show ?thesis
    unfolding find_tag_def has_fold_or [OF rs] using tag(3) su
    by (intro disjI2 bexI [of _ "tg_content tg"])
      (force simp: recordset_lawsD(3) [OF rs] multi_index_ordering_def Let_def)+
qed

lemma find_kinds_has:
  assumes "search_laws D hash Q ok" "ok d" "storage_find D d n = Some (AnEvent ev)"
    "ev_kind ev \<in> set kinds" "in_time (fst (append_time f)) (snd (append_time f)) (ev_created_at ev)"
  shows "rs_has Q (find_kinds Q d f kinds) n"
proof -
  have rs: "recordset_laws Q" and rng: "range_laws D hash Q ok"
    using assms(1) by (simp_all add: search_laws_def)
  obtain since until where su: "append_time f = (since, until)" by fastforce
  have "((ev_kind ev, ev_created_at ev), n)
      \<in> set (sel_kind_time Q d (ev_kind ev, since) (ev_kind ev, until))"
    using assms(5) su by (intro range_lawsD(5) [OF rng assms(2,3)]) simp
  then show ?thesis
    unfolding find_kinds_def has_fold_or [OF rs] using assms(4) su
    by (intro disjI2 bexI [of _ "ev_kind ev"])
      (force simp: recordset_lawsD(3) [OF rs] multi_index_ordering_def)+
qed

lemma find_time_has:
  assumes "search_laws D hash Q ok" "ok d" "storage_find D d n = Some (AnEvent ev)"
    "in_time since until (ev_created_at ev)"
  shows "rs_has Q (rs_of Q (map (multi_index_ordering (\<lambda>tm. tm)) (sel_time Q d since until))) n"
proof -
  have rs: "recordset_laws Q" and rng: "range_laws D hash Q ok"
    using assms(1) by (simp_all add: search_laws_def)
  show ?thesis
    using range_lawsD(6) [OF rng assms(2-4)]
    by (force simp: recordset_lawsD(3) [OF rs] multi_index_ordering_def)
qed

text \<open>A conjunct that is only there under a condition.\<close>

lemma has_if_and:
  assumes "recordset_laws Q" "rs_has Q a i" "b \<Longrightarrow> rs_has Q r i"
  shows "rs_has Q (if b then rs_and Q m a r else a) i"
  using assms(2,3) by (simp add: recordset_lawsD(5) [OF assms(1)])

lemma find_filter_has:
  assumes laws: "db_laws D ok" "search_laws D hash Q ok" "ok d"
    and doc: "storage_find D d n = Some (AnEvent ev)" "length (ev_id ev) = 32" "length (ev_author ev) = 32"
    and f: "filter_ok f" "f_ft_search f = []" "matches f ev" "inside_ranges f ev"
  shows "rs_has Q (find_filter D T hash Q d f) n"
proof -
  have rs: "recordset_laws Q" using laws(2) by (simp add: search_laws_def)
  have time: "in_time (fst (append_time f)) (snd (append_time f)) (ev_created_at ev)"
    by (rule inside_time [OF f(3,4)])
  have ids: "rs_has Q (find_ids D Q d (f_ids f)) n" if nonempty: "f_ids f \<noteq> []"
  proof -
    obtain p c where pc: "(p, c) \<in> set (f_ids f)" "take (unat c) p = take (unat c) (ev_id ev)"
      using f(3) nonempty by (auto simp: matches_def)
    moreover have "length p = 32" using f(1) pc(1) by (auto simp: filter_ok_def list_all_iff shorten_ok_def)
    moreover have "not_last (p, c) (ev_id ev)" using f(4) pc(1) unfolding inside_ranges_def by blast
    ultimately show ?thesis using doc by (intro find_ids_has [OF laws doc(1)]) simp_all
  qed
  have authors: "rs_has Q (find_authors Q d f (f_authors f)) n" if nonempty: "f_authors f \<noteq> []"
  proof -
    obtain p c where pc: "(p, c) \<in> set (f_authors f)" "take (unat c) p = take (unat c) (ev_author ev)"
      using f(3) nonempty by (auto simp: matches_def)
    moreover have "length p = 32" using f(1) pc(1) by (auto simp: filter_ok_def list_all_iff shorten_ok_def)
    moreover have "not_last (p, c) (ev_author ev)" using f(4) pc(1) unfolding inside_ranges_def by blast
    ultimately show ?thesis using doc by (intro find_authors_has [OF laws(2,3) doc(1) _ _ _ _ time]) simp_all
  qed
  have tags: "rs_has Q (find_tag hash Q d f t contents) n" if "(t, contents) \<in> set (f_tags f)" for t contents
  proof -
    obtain tg where "tg \<in> set (ev_tags ev)" "tg_tag tg = [t]" "tg_content tg \<in> set contents"
      using f(3) \<open>(t, contents) \<in> set (f_tags f)\<close> by (auto simp: matches_def)
    then show ?thesis by (intro find_tag_has [OF laws(2,3) doc(1) _ _ _ time])
  qed
  have kinds: "rs_has Q (find_kinds Q d f (f_kinds f)) n" if "f_kinds f \<noteq> []"
    using f(3) that by (intro find_kinds_has [OF laws(2,3) doc(1) _ time]) (simp add: matches_def)
  note some = recordset_lawsD(6) [OF rs]
  let ?all = "rs_all Q"
  let ?ids = "if f_ids f \<noteq> [] then rs_and Q merge_relevance ?all (find_ids D Q d (f_ids f)) else ?all"
  let ?auth = "if f_authors f \<noteq> [] then rs_and Q merge_relevance ?ids (find_authors Q d f (f_authors f)) else ?ids"
  let ?tags = "fold (\<lambda>(t, contents) top. rs_and Q merge_relevance top (find_tag hash Q d f t contents))
    (f_tags f) ?auth"
  let ?kinds = "if f_kinds f \<noteq> [] then rs_and Q merge_relevance ?tags (find_kinds Q d f (f_kinds f)) else ?tags"
  have h1: "rs_has Q ?all n" by (rule recordset_lawsD(2) [OF rs])
  have h2: "rs_has Q ?ids n" by (rule has_if_and [OF rs h1 ids])
  have h3: "rs_has Q ?auth n" by (rule has_if_and [OF rs h2 authors])
  have h4: "rs_has Q ?tags n"
    using h3 tags has_fold_and [OF rs, of merge_relevance "\<lambda>(t, contents). find_tag hash Q d f t contents"]
    by (simp add: case_prod_unfold)
  have h5: "rs_has Q ?kinds n" by (rule has_if_and [OF rs h4 kinds])
  have ne: "rs_is_empty Q ?all = False" "rs_is_empty Q ?ids = False" "rs_is_empty Q ?auth = False"
    using some h1 h2 h3 by blast+
  have h6: "rs_has Q (case append_time f of (since, until) \<Rightarrow> rs_and Q merge_relevance ?kinds
      (rs_of Q (map (multi_index_ordering (\<lambda>tm. tm)) (sel_time Q d since until)))) n"
    using h5 find_time_has [OF laws(2,3) doc(1) time]
    by (simp add: case_prod_unfold recordset_lawsD(5) [OF rs])
  show ?thesis
    unfolding find_filter_def Let_def f(2)
    by (simp only: ne simp_thms if_False h5 h6 split: if_split)
qed

section \<open>The search for one event\<close>

definition id_filter :: "bytes \<Rightarrow> nostr_filter" where
  "id_filter i = empty_filter\<lparr>f_ids := [(i, of_nat (length i))]\<rparr>"

lemma search_one_id:
  assumes "recordset_laws Q" "length i = 32"
  shows "fst ` set (rs_items Q (find_in_index D T hash Q d [id_filter i]))
      = (case by_id_find D d i of None \<Rightarrow> {} | Some (n, _) \<Rightarrow> {n})"
    "\<not> rs_inverted Q (find_in_index D T hash Q d [id_filter i])"
proof -
  note laws = recordset_lawsD [OF assms(1)]
  define top where "top = rs_and Q merge_relevance (rs_all Q) (find_ids D Q d [(i, of_nat (length i))])"
  have top: "find_filter D T hash Q d (id_filter i) = top"
    using laws(2) laws(6) [of "rs_all Q"]
    by (auto simp: find_filter_def id_filter_def empty_filter_def top_def Let_def)
  have inv: "\<not> rs_inverted Q (find_in_index D T hash Q d [id_filter i])"
    by (simp add: find_in_index_def top top_def find_ids_def laws assms(2))
  have "rs_has Q (find_in_index D T hash Q d [id_filter i]) n
      \<longleftrightarrow> n \<in> (case by_id_find D d i of None \<Rightarrow> {} | Some (n, _) \<Rightarrow> {n})" for n
    using assms(2) by (auto simp: find_in_index_def top top_def find_ids_def laws split: option.splits)
  then show "fst ` set (rs_items Q (find_in_index D T hash Q d [id_filter i]))
      = (case by_id_find D d i of None \<Rightarrow> {} | Some (n, _) \<Rightarrow> {n})"
    using inv unfolding rs_has_def by blast
  show "\<not> rs_inverted Q (find_in_index D T hash Q d [id_filter i])" by (rule inv)
qed

lemma find_in_index_has:
  assumes "db_laws D ok" "search_laws D hash Q ok" "ok d"
    and "storage_find D d n = Some (AnEvent ev)" "length (ev_id ev) = 32" "length (ev_author ev) = 32"
    and "f \<in> set filters" "filter_ok f" "f_ft_search f = []" "matches f ev" "inside_ranges f ev"
  shows "rs_has Q (find_in_index D T hash Q d filters) n"
proof -
  have rs: "recordset_laws Q" using assms(2) by (simp add: search_laws_def)
  have "rs_has Q (find_filter D T hash Q d f) n"
    by (rule find_filter_has [OF assms(1-6,8-11)])
  then show ?thesis
    unfolding find_in_index_def has_fold_or [OF rs] using assms(7) by blast
qed

section \<open>Properties\<close>

text \<open>C4: the search finds every stored event that matches one of the filters (and does not lie at
the very end of a range the filter reads), through the indexes of ids, authors, tags, kinds and
times, whichever of them the filter makes the code use.\<close>

theorem search_complete:
  assumes "db_laws D ok" "search_laws D hash Q ok" "ok d"
    and "storage_find D d n = Some (AnEvent ev)" "length (ev_id ev) = 32" "length (ev_author ev) = 32"
    and "f \<in> set filters" "filter_ok f" "f_ft_search f = []" "matches f ev" "inside_ranges f ev"
  shows "rs_has Q (find_in_index D T hash Q d filters) n"
  using assms by (rule find_in_index_has)

end
