(* ===== verification/Rate_Limiter.thy ===== *)
theory Rate_Limiter
  imports Nostr_Prelude
begin

text \<open>
  \<^verbatim>\<open>src/src/nostr_server/rate_limiter.h\<close> and \<^verbatim>\<open>rate_limiter.cpp\<close>: the sliding-window limiter a
  connection asks before it accepts an event. Time points are nanoseconds since the epoch
  (the clock's 64-bit count, which no date before the year 2262 overflows), so they are
  integers here; the window and the limit keep the code's \<open>unsigned int\<close>.
\<close>

record rate_limiter =
  window_size :: u32
  window_limit :: u32
  queue :: "int list" \<comment> \<open>\<open>_q\<close>, front first\<close>

definition RateLimiter :: "u32 \<Rightarrow> u32 \<Rightarrow> rate_limiter" where
  "RateLimiter ws wl = \<lparr>window_size = ws, window_limit = wl, queue = []\<rparr>"

definition window_ns :: "rate_limiter \<Rightarrow> int" where
  "window_ns rl = 1000000000 * uint (window_size rl)"

definition test_and_add :: "rate_limiter \<Rightarrow> int \<Rightarrow> bool \<times> rate_limiter" where
  "test_and_add rl pt =
     (if window_size rl = 0 then (True, rl)
      else let begin_window = pt - window_ns rl;
               q = dropWhile (\<lambda>t. t < begin_window) (queue rl)
           in if unat (window_limit rl) \<le> length q then (False, rl\<lparr>queue := q\<rparr>)
              else (True, rl\<lparr>queue := q @ [pt]\<rparr>))"

text \<open>A connection's life: the time points at which it asks, and those that were accepted.\<close>

fun accepted :: "rate_limiter \<Rightarrow> int list \<Rightarrow> int list" where
  "accepted rl [] = []"
| "accepted rl (pt # pts) =
     (let (ok, rl') = test_and_add rl pt
      in if ok then pt # accepted rl' pts else accepted rl' pts)"

section \<open>The specification: a window over the whole history\<close>

text \<open>
  The reference never forgets: a request at \<open>pt\<close> is accepted when fewer than \<open>limit\<close> of all
  earlier accepted requests lie in the window that ends at \<open>pt\<close>.
\<close>

definition in_window :: "int \<Rightarrow> int \<Rightarrow> int list \<Rightarrow> int list" where
  "in_window w pt ts = filter (\<lambda>t. pt - w \<le> t \<and> t \<le> pt) ts"

fun window_spec :: "int \<Rightarrow> nat \<Rightarrow> int list \<Rightarrow> int list \<Rightarrow> int list" where
  "window_spec w l hist [] = []"
| "window_spec w l hist (pt # pts) =
     (if length (in_window w pt hist) < l
      then pt # window_spec w l (hist @ [pt]) pts else window_spec w l hist pts)"

section \<open>The queue is the part of the history a later window can reach\<close>

text \<open>
  \<open>tracks hist now rl\<close>: the limiter's queue is the history without a prefix that every window
  ending at \<open>now\<close> or later has left.
\<close>

definition tracks :: "int list \<Rightarrow> int \<Rightarrow> rate_limiter \<Rightarrow> bool" where
  "tracks hist now rl \<longleftrightarrow>
     (\<exists>gone. hist = gone @ queue rl \<and> (\<forall>t \<in> set gone. t < now - window_ns rl)) \<and>
     sorted hist \<and> (\<forall>t \<in> set hist. t \<le> now)"

lemma tracksI:
  assumes "hist = gone @ queue rl" "\<forall>t \<in> set gone. t < now - window_ns rl"
    "sorted hist" "\<forall>t \<in> set hist. t \<le> now"
  shows "tracks hist now rl"
  using assms by (auto simp: tracks_def)

lemma filter_ge_sorted:
  "sorted (xs :: int list) \<Longrightarrow> filter (\<lambda>t. b \<le> t) xs = dropWhile (\<lambda>t. t < b) xs"
proof (induction xs)
  case (Cons x xs)
  show ?case
  proof (cases "b \<le> x")
    case True
    with Cons.prems have "filter (\<lambda>t. b \<le> t) xs = xs"
      by (intro filter_True) auto
    with True show ?thesis by simp
  qed (use Cons in simp)
qed simp

lemma tracks_in_window:
  assumes "tracks hist now rl" "now \<le> pt"
  shows "in_window (window_ns rl) pt hist
    = dropWhile (\<lambda>t. t < pt - window_ns rl) (queue rl)"
proof -
  from assms(1) obtain gone where g: "hist = gone @ queue rl"
    "\<forall>t \<in> set gone. t < now - window_ns rl" and s: "sorted hist"
    and le: "\<forall>t \<in> set hist. t \<le> now"
    by (auto simp: tracks_def)
  have "in_window (window_ns rl) pt hist = filter (\<lambda>t. pt - window_ns rl \<le> t) hist"
    using le assms(2) unfolding in_window_def by (intro filter_cong) auto
  also have "\<dots> = filter (\<lambda>t. pt - window_ns rl \<le> t) (queue rl)"
    using g assms(2) by (auto simp: filter_empty_conv)
  also have "\<dots> = dropWhile (\<lambda>t. t < pt - window_ns rl) (queue rl)"
    using s g(1) by (intro filter_ge_sorted) (simp add: sorted_append)
  finally show ?thesis .
qed

lemma test_and_add_window [simp]:
  "window_size (snd (test_and_add rl pt)) = window_size rl"
  "window_limit (snd (test_and_add rl pt)) = window_limit rl"
  "window_ns (snd (test_and_add rl pt)) = window_ns rl"
  by (auto simp: test_and_add_def window_ns_def Let_def)

lemma test_and_add_iff:
  assumes "tracks hist now rl" "now \<le> pt" "window_size rl \<noteq> 0"
  shows "fst (test_and_add rl pt) \<longleftrightarrow>
    length (in_window (window_ns rl) pt hist) < unat (window_limit rl)"
  using assms(3) by (auto simp: test_and_add_def Let_def tracks_in_window [OF assms(1,2)])

lemma tracks_drop:
  assumes "tracks hist now rl" "now \<le> pt"
  shows "tracks hist pt (rl\<lparr>queue := dropWhile (\<lambda>t. t < pt - window_ns rl) (queue rl)\<rparr>)"
proof -
  let ?old = "takeWhile (\<lambda>t. t < pt - window_ns rl) (queue rl)"
  from assms(1) obtain gone where g: "hist = gone @ queue rl"
    "\<forall>t \<in> set gone. t < now - window_ns rl"
    by (auto simp: tracks_def)
  show ?thesis
  proof (rule tracksI)
    show "hist = (gone @ ?old)
        @ queue (rl\<lparr>queue := dropWhile (\<lambda>t. t < pt - window_ns rl) (queue rl)\<rparr>)"
      using g(1) by simp
    show "\<forall>t \<in> set (gone @ ?old). t < pt
        - window_ns (rl\<lparr>queue := dropWhile (\<lambda>t. t < pt - window_ns rl) (queue rl)\<rparr>)"
      using g(2) assms(2) by (auto simp: window_ns_def dest: set_takeWhileD)
  qed (use assms in \<open>auto simp: tracks_def\<close>)
qed

lemma tracks_add:
  "tracks hist pt rl \<Longrightarrow> tracks (hist @ [pt]) pt (rl\<lparr>queue := queue rl @ [pt]\<rparr>)"
  by (auto simp: tracks_def window_ns_def sorted_append)

lemma tracks_step:
  assumes "tracks hist now rl" "now \<le> pt" "window_size rl \<noteq> 0"
  shows "tracks (if fst (test_and_add rl pt) then hist @ [pt] else hist) pt
    (snd (test_and_add rl pt))"
  using tracks_drop [OF assms(1,2)] tracks_add [OF tracks_drop [OF assms(1,2)]] assms(3)
  by (auto simp: test_and_add_def Let_def)

lemma tracks_new: "tracks [] now (RateLimiter ws wl)"
  by (simp add: tracks_def RateLimiter_def)

lemma accepted_refines:
  assumes "tracks hist now rl" "sorted pts" "\<forall>pt \<in> set pts. now \<le> pt" "window_size rl \<noteq> 0"
  shows "accepted rl pts = window_spec (window_ns rl) (unat (window_limit rl)) hist pts"
  using assms
proof (induction pts arbitrary: hist now rl)
  case (Cons pt pts)
  let ?rl = "snd (test_and_add rl pt)"
  let ?hist = "if fst (test_and_add rl pt) then hist @ [pt] else hist"
  have le: "now \<le> pt" using Cons.prems by simp
  have t: "tracks ?hist pt ?rl" by (rule tracks_step [OF Cons.prems(1) le Cons.prems(4)])
  have "accepted ?rl pts
      = window_spec (window_ns ?rl) (unat (window_limit ?rl)) ?hist pts"
    using Cons.prems by (intro Cons.IH [OF t]) auto
  then show ?case
    using test_and_add_iff [OF Cons.prems(1) le Cons.prems(4)]
    by (auto simp: case_prod_beta)
qed simp

section \<open>The window bound\<close>

lemma in_window_append [simp]: "in_window w t (xs @ ys) = in_window w t xs @ in_window w t ys"
  by (simp add: in_window_def)

lemma length_in_window_mono:
  "\<forall>t \<in> set xs. pt - w \<le> t \<and> t \<le> pt \<longrightarrow> pt' - w \<le> t \<and> t \<le> pt' \<Longrightarrow>
   length (in_window w pt xs) \<le> length (in_window w pt' xs)"
  by (induction xs) (auto simp: in_window_def)

text \<open>
  Every window over the history that the specification builds holds at most \<open>l\<close> points: a new
  point is accepted only when the window ending there has room, and any window that contains
  the new point lies, on the earlier points, inside that one.
\<close>

lemma window_spec_bound:
  assumes "\<forall>t. length (in_window w t hist) \<le> l"
    and "sorted pts" "\<forall>t \<in> set hist. \<forall>p \<in> set pts. t \<le> p" "0 \<le> w"
  shows "length (in_window w t (hist @ window_spec w l hist pts)) \<le> l"
  using assms
proof (induction pts arbitrary: hist)
  case (Cons p pts)
  show ?case
  proof (cases "length (in_window w p hist) < l")
    case True
    have new: "length (in_window w t (hist @ [p])) \<le> l" for t
    proof (cases "t - w \<le> p \<and> p \<le> t")
      case in_w: True
      have "length (in_window w t hist) \<le> length (in_window w p hist)"
        using in_w Cons.prems by (intro length_in_window_mono) auto
      with True show ?thesis by (simp add: in_window_def)
    next
      case False
      with Cons.prems(1) show ?thesis by (auto simp: in_window_def)
    qed
    have "length (in_window w t ((hist @ [p]) @ window_spec w l (hist @ [p]) pts)) \<le> l"
      using Cons.prems new by (intro Cons.IH) auto
    with True show ?thesis by simp
  next
    case False
    then have "window_spec w l hist (p # pts) = window_spec w l hist pts" by simp
    moreover have "length (in_window w t (hist @ window_spec w l hist pts)) \<le> l"
      using Cons.prems by (intro Cons.IH) auto
    ultimately show ?thesis by (simp only:)
  qed
qed simp

lemma accepted_new:
  assumes "sorted pts" "ws \<noteq> 0"
  shows "accepted (RateLimiter ws wl) pts
    = window_spec (1000000000 * uint ws) (unat wl) [] pts"
proof (cases pts)
  case (Cons p ps)
  have "\<forall>pt \<in> set pts. p \<le> pt" using assms(1) by (auto simp: Cons)
  from accepted_refines [OF tracks_new [of p ws wl] assms(1) this] assms(2) show ?thesis
    by (simp add: RateLimiter_def window_ns_def)
qed simp

lemma in_window_spec_le:
  assumes "sorted pts" "0 \<le> w"
  shows "length (in_window w t (window_spec w l [] pts)) \<le> l"
  using window_spec_bound [where hist = "[]" and w = w and l = l and pts = pts and t = t] assms by (simp add: in_window_def)

section \<open>Properties\<close>

text \<open>C15: for time points that never decrease, the limiter with its bounded queue accepts
exactly the requests the window over the whole history accepts.\<close>

theorem rate_limiter_refines_window:
  assumes "sorted pts" "ws \<noteq> 0"
  shows "accepted (RateLimiter ws wl) pts
    = window_spec (1000000000 * uint ws) (unat wl) [] pts"
  using assms by (rule accepted_new)

lemma rate_limiter_refines_window_witness:
  "accepted (RateLimiter 1 2) [0, 5, 9, 1000000006, 1000000008]
    = window_spec (1000000000 * uint (1 :: u32)) (unat (2 :: u32)) []
        [0, 5, 9, 1000000006, 1000000008]
   \<and> accepted (RateLimiter 1 2) [0, 5, 9, 1000000006, 1000000008] = [0, 5, 1000000006, 1000000008]"
proof
  show "accepted (RateLimiter 1 2) [0, 5, 9, 1000000006, 1000000008]
      = window_spec (1000000000 * uint (1 :: u32)) (unat (2 :: u32)) []
          [0, 5, 9, 1000000006, 1000000008]"
    by (rule rate_limiter_refines_window) simp_all
  show "accepted (RateLimiter 1 2) [0, 5, 9, 1000000006, 1000000008] = [0, 5, 1000000006, 1000000008]"
    by (simp add: RateLimiter_def test_and_add_def window_ns_def Let_def)
qed

text \<open>No window of the configured size, wherever it ends, holds more accepted requests
than the limit.\<close>

lemma rate_limiter_window_bound:
  assumes "sorted pts" "ws \<noteq> 0"
  shows "length (in_window (1000000000 * uint ws) t (accepted (RateLimiter ws wl) pts)) \<le> unat wl"
  unfolding accepted_new [OF assms] using assms(1) by (rule in_window_spec_le) simp

end
