(* ===== verification/Peer_State.thy ===== *)
theory Peer_State
  imports App_Search Rate_Limiter Std_Text "HOL-Library.Signed_Division"
begin

text \<open>
  What a connection (\<^verbatim>\<open>src/src/nostr_server/peer.h\<close>) consists of: the commands of
  \<^verbatim>\<open>protocol.h\<close>, the options of \<^verbatim>\<open>config.h\<close> it obeys, its state, the replies it sends and the
  exceptions its handlers throw; and the helpers of \<^verbatim>\<open>peer.cpp\<close> that need no database.

  \<open>env\<close> collects what is fixed while a connection lives: the options, and the libraries as
  records of operations. \<open>moment\<close> is what one handler takes from its surroundings: the clock, the
  indeterminate memory its calls of \<open>from_hex\<close> find, and whether each write to the web socket
  finds it open.
\<close>

section \<open>Commands and options\<close>

datatype Command =
    Cmd_unknown | REQ | EVENT | CLOSE | COUNT | EOSE | NOTICE | AUTH | OK | FILE | RETRIEVE

record server_options =
  opt_pow :: int
  event_rate_window :: int
  event_rate_limit :: int
  attachment_max_size :: u64
  max_message_size :: u64
  read_only :: bool
  whitelisting :: bool

text \<open>
  \<open>commands\<close> is the table of the names (\<open>NAMED_ENUM\<close> of the server library), the content types
  and base64 are the web library's.
\<close>

record ('j, 'd, 'r, 'k, 'p) env =
  e_options :: server_options
  e_json :: "'j json_ops"
  e_from_json :: "string \<Rightarrow> 'j option"        \<comment> \<open>\<open>None\<close> throws\<close>
  e_command :: "string \<Rightarrow> Command"            \<comment> \<open>\<open>commands[text]\<close>\<close>
  e_name :: "Command \<Rightarrow> string"               \<comment> \<open>\<open>commands[command]\<close>\<close>
  e_sha :: "string \<Rightarrow> bytes"
  e_hash :: "string \<Rightarrow> u64"
  e_secp :: "('k, 'p) secp256k1"
  e_text :: text_ops
  e_db :: "'d db_ops"
  e_search :: "('d, 'r) search_ops"
  e_sort :: "candidate list \<Rightarrow> candidate list" \<comment> \<open>\<open>std::sort\<close> by decreasing order value\<close>
  e_base64url :: "bytes \<Rightarrow> string"
  e_extension :: "string \<Rightarrow> string option"     \<comment> \<open>of a MIME type, \<open>None\<close> for the binary type\<close>

record moment =
  now :: int                                  \<comment> \<open>nanoseconds since the epoch\<close>
  mem :: "nat \<Rightarrow> nat \<Rightarrow> u8"
  filter_mem :: "nat \<Rightarrow> string \<Rightarrow> nat \<Rightarrow> nat \<Rightarrow> u8"
  writes :: "nat \<Rightarrow> bool"

section \<open>State\<close>

text \<open>The messages a connection sends; all but the last are JSON arrays.\<close>

datatype 'j reply =
    AuthReply string
  | EventReply string 'j
  | OkReply string bool string
  | EoseReply string
  | CountReply string int
  | NoticeReply string
  | RetrieveReply string bool string
  | BinaryReply string

record 'j peer =
  p_self :: nat                               \<comment> \<open>the address of the object, for the publisher\<close>
  p_url :: string                             \<comment> \<open>\<open>_req.get_url()\<close>\<close>
  p_rate_limiter :: rate_limiter
  p_authent :: bool
  p_no_limit :: bool
  p_auth_pubkey :: bytes
  p_auth_nonce :: string
  p_file_event :: "Event option"
  p_subscriptions :: "(string \<times> nostr_filter list) list"
  p_out :: "'j reply list"                    \<comment> \<open>what was written, oldest first\<close>

definition reply_document :: "('j, 'd, 'r, 'k, 'p) env \<Rightarrow> 'j reply \<Rightarrow> 'j option" where
  "reply_document E r =
     (let J = e_json E; cmd = \<lambda>c. mk_string J (e_name E c) in
      case r of
        AuthReply nonce \<Rightarrow> Some (mk_array J [cmd AUTH, mk_string J nonce])
      | EventReply subid doc \<Rightarrow> Some (mk_array J [cmd EVENT, mk_string J subid, doc])
      | OkReply i ok text \<Rightarrow>
          Some (mk_array J [cmd OK, mk_string J i, mk_bool J ok, mk_string J text])
      | EoseReply subid \<Rightarrow> Some (mk_array J [cmd EOSE, mk_string J subid])
      | CountReply subid n \<Rightarrow>
          Some (mk_array J [cmd COUNT, mk_string J subid, mk_object J [(''count'', mk_int J n)]])
      | NoticeReply text \<Rightarrow> Some (mk_array J [cmd NOTICE, mk_string J text])
      | RetrieveReply i ok text \<Rightarrow>
          Some (mk_array J [cmd RETRIEVE, mk_string J i, mk_bool J ok, mk_string J text])
      | BinaryReply data \<Rightarrow> None)"

text \<open>What goes over the wire: the payload and whether it is a binary frame.\<close>

definition frame_of :: "('j, 'd, 'r, 'k, 'p) env \<Rightarrow> 'j reply \<Rightarrow> string \<times> bool" where
  "frame_of E r =
     (case reply_document E r of
        Some doc \<Rightarrow> (j_to_json_utf8 (e_json E) doc, False)
      | None \<Rightarrow> (case r of BinaryReply data \<Rightarrow> (data, True) | _ \<Rightarrow> ([], False)))"

text \<open>\<open>send\<close> and \<open>_stream.write\<close>: the result tells whether the stream is still open.\<close>

definition send :: "moment \<Rightarrow> 'j reply \<Rightarrow> 'j peer \<Rightarrow> bool \<times> 'j peer" where
  "send W r p = (writes W (length (p_out p)), p\<lparr>p_out := p_out p @ [r]\<rparr>)"

abbreviation reply :: "moment \<Rightarrow> 'j reply \<Rightarrow> 'j peer \<Rightarrow> 'j peer" where
  "reply W r p \<equiv> snd (send W r p)"

definition send_error :: "moment \<Rightarrow> string \<Rightarrow> string \<Rightarrow> 'j peer \<Rightarrow> 'j peer" where
  "send_error W i text p = reply W (OkReply i False text) p"

definition send_notice :: "moment \<Rightarrow> string \<Rightarrow> 'j peer \<Rightarrow> 'j peer" where
  "send_notice W text p = reply W (NoticeReply text) p"

section \<open>Exceptions\<close>

text \<open>
  \<open>OutOfBounds\<close> is not an exception: it is an access past the end of a vector, which C++ leaves
  undefined, so no \<open>catch\<close> handles it.
\<close>

datatype exn =
    EventParseException parse_error
  | DuplicateKeyException
  | Blocked string
  | InvalidArgument string
  | StdException string
  | OutOfBounds

fun what :: "exn \<Rightarrow> string" where
  "what (EventParseException e) = parse_error_message e"
| "what DuplicateKeyException = ''duplicate key''"
| "what (Blocked text) = text"
| "what (InvalidArgument text) = text"
| "what (StdException text) = text"
| "what OutOfBounds = []"

fun exn_of_db :: "db_error \<Rightarrow> exn" where
  "exn_of_db DuplicateKey = DuplicateKeyException"
| "exn_of_db (DbError text) = StdException text"

type_synonym ('j, 'd) conn = "'j peer \<times> 'd app"

section \<open>Proof of work\<close>

definition nibble_sizes :: "int list" where
  "nibble_sizes = [4, 3, 2, 2, 1, 1, 1, 1, 0, 0, 0, 0, 0, 0, 0, 0]"

definition pow_nibble :: "char \<Rightarrow> nat option" where
  "pow_nibble c =
     (let v = of_char c :: nat in
      if 48 \<le> v \<and> v \<le> 57 then Some (v - 48)
      else if 65 \<le> v \<and> v \<le> 70 then Some (v - 65 + 10)
      else if 97 \<le> v \<and> v \<le> 102 then Some (v - 97 + 10)
      else None)"

fun check_pow_loop :: "int \<Rightarrow> string \<Rightarrow> int \<Rightarrow> bool" where
  "check_pow_loop pow [] bits \<longleftrightarrow> True"
| "check_pow_loop pow (c # cs) bits \<longleftrightarrow>
     (case pow_nibble c of
        None \<Rightarrow> False
      | Some nibble \<Rightarrow>
          if nibble \<noteq> 0 then bits + nibble_sizes ! nibble \<ge> pow
          else check_pow_loop pow cs (bits + 4))"

definition check_pow :: "server_options \<Rightarrow> string \<Rightarrow> bool" where
  "check_pow options i = check_pow_loop (opt_pow options) i 0"

section \<open>The challenge\<close>

text \<open>\<open>rnum\<close> are the fifteen numbers from 33 to 126 the generator gives.\<close>

definition prepare_auth_challenge :: "(nat \<Rightarrow> nat) \<Rightarrow> 'j peer \<Rightarrow> 'j peer" where
  "prepare_auth_challenge rnum p =
     p\<lparr>p_auth_nonce := map (\<lambda>i. char_of (rnum i)) [0..<15]\<rparr>"

end
