(* ===== verification/Peer_Pow.thy ===== *)
theory Peer_Pow
  imports Peer_State
begin

text \<open>
  The proof of work of \<^verbatim>\<open>src/src/nostr_server/peer.cpp\<close>: \<open>check_pow\<close> walks over the hexadecimal digits
  of an identifier with a table of the zero bits that lead each digit. It computes the number of
  leading zero bits of the identifier.
\<close>

unbundle bit_operations_syntax

definition byte_bits :: "u8 \<Rightarrow> bool list" where
  "byte_bits b = map (bit b) [7, 6, 5, 4, 3, 2, 1, 0]"

definition leading_zero_bits :: "bytes \<Rightarrow> nat" where
  "leading_zero_bits i = length (takeWhile Not (concat (map byte_bits i)))"

definition nibble_bits :: "u8 \<Rightarrow> bool list" where
  "nibble_bits n = map (bit n) [3, 2, 1, 0]"

lemma byte_bits_nibbles: "byte_bits b = nibble_bits (drop_bit 4 b) @ nibble_bits (b AND 15)"
  by (simp add: byte_bits_def nibble_bits_def bit_drop_bit_eq and_15_u8 bit_take_bit_iff)

lemma pow_nibble_hex:
  assumes "n \<le> 15"
  shows "pow_nibble (hex_char n) = Some (unat n)"
  using nibble_cases [OF assms]
  by (auto simp: pow_nibble_def hex_char_def char_of_byte_def)

lemma leading_nibble:
  assumes "n \<le> 15"
  shows "length (takeWhile Not (nibble_bits n @ rest)) =
    (if n = 0 then 4 + length (takeWhile Not rest) else nat (nibble_sizes ! unat n))"
    "n \<noteq> 0 \<Longrightarrow> 0 \<le> nibble_sizes ! unat n"
  using nibble_cases [OF assms] by (auto simp: nibble_bits_def nibble_sizes_def bit_numeral_rec)

lemma check_pow_loop_step:
  assumes "n \<le> 15"
  shows "check_pow_loop pow (hex_char n # cs) bits \<longleftrightarrow>
    (if n = 0 then check_pow_loop pow cs (bits + 4) else pow \<le> bits + nibble_sizes ! unat n)"
  using pow_nibble_hex [OF assms] by (simp add: unsigned_eq_0_iff)

lemma drop_bit_4_and_15_zero: "drop_bit 4 b = 0 \<and> b AND 15 = 0 \<longleftrightarrow> (b :: u8) = 0"
proof
  assume "drop_bit 4 b = 0 \<and> b AND 15 = 0"
  then have "push_bit 4 (drop_bit 4 b) OR (b AND 15) = 0" by simp
  then show "b = 0" by (simp only: nibbles_join)
qed simp

lemma check_pow_loop_bits:
  "check_pow_loop pow (binary_to_hex i) bits \<longleftrightarrow>
     (\<forall>b \<in> set i. b = 0) \<or> pow \<le> bits + int (leading_zero_bits i)"
proof (induction i arbitrary: bits)
  case Nil
  then show ?case by simp
next
  case (Cons b i)
  let ?h = "drop_bit 4 b" and ?l = "b AND 15"
  let ?rest = "concat (map byte_bits i)"
  have le: "?h \<le> 15" "?l \<le> 15" by (rule drop_bit_4_u8_le, rule and_15_u8_le)
  have lz: "leading_zero_bits (b # i) = length (takeWhile Not (nibble_bits ?h @ nibble_bits ?l @ ?rest))"
    by (simp add: leading_zero_bits_def byte_bits_nibbles)
  note high = leading_nibble(1) [OF le(1), of "nibble_bits ?l @ ?rest"] leading_nibble(2) [OF le(1)]
  note low = leading_nibble(1) [OF le(2), of ?rest] leading_nibble(2) [OF le(2)]
  have zero: "?h = 0 \<and> ?l = 0 \<longleftrightarrow> b = 0" by (rule drop_bit_4_and_15_zero)
  consider "?h \<noteq> 0" | "?h = 0" "?l \<noteq> 0" | "?h = 0" "?l = 0" by blast
  then show ?case
  proof cases
    case 1
    then have "b \<noteq> 0" by auto
    then show ?thesis using 1 high check_pow_loop_step [OF le(1)] by (simp add: lz)
  next
    case 2
    then have "b \<noteq> 0" by auto
    then show ?thesis
      using 2 high low check_pow_loop_step [OF le(1)] check_pow_loop_step [OF le(2)]
      by (simp add: lz add.assoc)
  next
    case 3
    then have "b = 0" using zero by simp
    moreover have "leading_zero_bits (b # i) = 8 + leading_zero_bits i"
      unfolding lz using 3 high low by (simp add: leading_zero_bits_def)
    ultimately show ?thesis
      using 3 Cons [of "bits + 8"] check_pow_loop_step [OF le(1)] check_pow_loop_step [OF le(2)]
      by (simp add: algebra_simps)
  qed
qed

section \<open>Properties\<close>

text \<open>C26: proof of work accepts the hexadecimal text of an identifier exactly when the identifier
starts with at least the required number of zero bits (the identifier of zeros alone is accepted
for any requirement).\<close>

theorem check_pow_leading_zeros:
  "check_pow options (to_hex i) \<longleftrightarrow>
     list_all (\<lambda>b. b = 0) i \<or> opt_pow options \<le> int (leading_zero_bits i)"
  using check_pow_loop_bits [of "opt_pow options" i 0] by (simp add: check_pow_def to_hex_def list_all_iff)

end
