(* ===== verification/Peer_Commands.thy ===== *)
theory Peer_Commands
  imports Peer_State
begin

text \<open>
  The handlers of \<^verbatim>\<open>src/src/nostr_server/peer.cpp\<close>. A handler takes the state of the connection and
  of the application and returns both with the exception it throws, if any: the state holds
  what was done before the throw. The \<open>k\<close>-th call of \<open>from_hex\<close> within a handler finds the
  indeterminate memory \<open>mem W k\<close>; the calls of \<open>Event::fromStructured\<close> come first.
\<close>

section \<open>Publishing an event\<close>

definition no_throw :: "('j, 'd) conn \<Rightarrow> exn option \<times> ('j, 'd) conn" where
  "no_throw c = (None, c)"

text \<open>The callback of \<open>on_event\<close>.\<close>

definition publish_verified ::
    "('j, 'd, 'r, 'k, 'p) env \<Rightarrow> moment \<Rightarrow> string \<Rightarrow> Event \<Rightarrow> ('j, 'd) conn
       \<Rightarrow> exn option \<times> ('j, 'd) conn" where
  "publish_verified E W i event c =
     (let (p, a) = c in
      case publish (e_db E) event (Some (p_self p)) a of
        Inl e \<Rightarrow> (Some (exn_of_db e), c)
      | Inr a' \<Rightarrow> (None, (reply W (OkReply i True []) p, a')))"

text \<open>
  The loop of \<open>event_deletion\<close> over the rows that were found: the first event found is replaced by
  the deletion event, further ones are erased.
\<close>

fun deletion_batch ::
    "'d db_ops \<Rightarrow> 'd \<Rightarrow> Event \<Rightarrow> candidate list \<Rightarrow> bool \<Rightarrow> batch_op list
       \<Rightarrow> exn + (bool \<times> batch_op list)" where
  "deletion_batch D d event [] deleted_something b = Inr (deleted_something, b)"
| "deletion_batch D d event (row # rows) deleted_something b =
     (case storage_find D d (fst row) of
        Some (AnEvent ev) \<Rightarrow>
          if ev_author ev \<noteq> ev_author event then Inl (InvalidArgument ''pubkey missmatch'')
          else if deleted_something then deletion_batch D d event rows True (b @ [Erase (fst row)])
          else deletion_batch D d event rows True (b @ [Put (AnEvent event) (fst row)])
      | _ \<Rightarrow> deletion_batch D d event rows deleted_something b)"

definition event_deletion ::
    "('j, 'd, 'r, 'k, 'p) env \<Rightarrow> moment \<Rightarrow> Event \<Rightarrow> ('j, 'd) conn \<Rightarrow> exn option \<times> ('j, 'd) conn" where
  "event_deletion E W event c =
     (let (p, a) = c;
          D = e_db E;
          evtodel = get_tag_content event ''e'';
          i = from_hex 32 (mem W 3) evtodel;
          flts = [empty_filter\<lparr>f_ids := [(i, of_nat (length i))]\<rparr>];
          found = find_in_index D (e_text E) (e_hash E) (e_search E) (app_db a) flts
      in case deletion_batch D (app_db a) event (rs_items (e_search E) found) False [] of
           Inl e \<Rightarrow> (Some e, c)
         | Inr (deleted_something, b) \<Rightarrow>
             if deleted_something then
               (case commit_batch D (app_db a) b of
                  Inl e \<Rightarrow> (Some (exn_of_db e), c)
                | Inr d \<Rightarrow>
                    (None, (reply W (OkReply (to_hex (ev_id event)) True []) p,
                            app_publish_event event (Some (p_self p)) (a\<lparr>app_db := d\<rparr>))))
             else (None, (reply W (OkReply (to_hex (ev_id event)) True []) p, a)))"

section \<open>What every published event goes through\<close>

text \<open>
  Who may publish on a relay with a whitelist: a user whose score is positive, and anybody who
  writes to a local user. \<open>None\<close> lets the event through.
\<close>

definition whitelist_check ::
    "('j, 'd, 'r, 'k, 'p) env \<Rightarrow> moment \<Rightarrow> Event \<Rightarrow> 'd app \<Rightarrow> exn option \<times> 'd app" where
  "whitelist_check E W event a =
     (let k = ev_kind event; (ok, a) = check_whitelist (e_db E) a (ev_author event) in
      if \<not> ok then
        if k = Encrypted_Direct_Messages \<or> k = Gift_Wrap_Event then
          let target = get_tag_content event ''p'';
              pk = from_hex 32 (mem W 3) target
          in (if \<not> is_home_user (e_db E) a pk then Some (Blocked ''Target user not found'') else None, a)
        else (Some (Blocked ''Not invited''), a)
      else (None, a))"

definition is_ephemeral :: "kind \<Rightarrow> bool" where
  "is_ephemeral k \<longleftrightarrow> k \<ge> Ephemeral_Begin \<and> k < Ephemeral_End"

text \<open>From the check of the signature on; \<open>i\<close> is the identifier's text as it was received.\<close>

definition process_verified ::
    "('j, 'd, 'r, 'k, 'p) env \<Rightarrow> moment
       \<Rightarrow> (string \<Rightarrow> Event \<Rightarrow> ('j, 'd) conn \<Rightarrow> exn option \<times> ('j, 'd) conn)
       \<Rightarrow> bool \<Rightarrow> string \<Rightarrow> Event \<Rightarrow> ('j, 'd) conn \<Rightarrow> exn option \<times> ('j, 'd) conn" where
  "process_verified E W on_verify no_special_events i event c =
     (let (p, a) = c; options = e_options E; k = ev_kind event in
      if \<not> event_verify (e_secp E) event
      then (Some (InvalidArgument ''Signature verification failed''), c)
      else if is_ephemeral k then
        if no_special_events then (Some (InvalidArgument ''This event is not allowed here''), c)
        else (None, (reply W (OkReply i True []) p, app_publish_event event (Some (p_self p)) a))
      else if \<not> p_no_limit p \<and> read_only options
      then (Some (Blocked ''Sorry, server is in read_only mode''), c)
      else
        let (blocked, a) =
          (if \<not> p_no_limit p \<and> whitelisting options \<and> \<not> ev_trusted event
           then whitelist_check E W event a else (None, a))
        in case blocked of
             Some e \<Rightarrow> (Some e, (p, a))
           | None \<Rightarrow>
               if k = 5 then
                 if no_special_events
                 then (Some (InvalidArgument ''This event is not allowed here''), (p, a))
                 else event_deletion E W event (p, a)
               else on_verify i event (p, a))"

text \<open>The body of the \<open>try\<close> block.\<close>

definition process_event ::
    "('j, 'd, 'r, 'k, 'p) env \<Rightarrow> moment
       \<Rightarrow> (string \<Rightarrow> Event \<Rightarrow> ('j, 'd) conn \<Rightarrow> exn option \<times> ('j, 'd) conn)
       \<Rightarrow> bool \<Rightarrow> 'j \<Rightarrow> string \<Rightarrow> ('j, 'd) conn \<Rightarrow> exn option \<times> ('j, 'd) conn" where
  "process_event E W on_verify no_special_events msg i c =
     (let (p, a) = c; options = e_options E in
      case fromStructured (e_json E) (e_sha E) (e_hash E) (mem W) msg of
        Inl e \<Rightarrow> (Some (EventParseException e), c)
      | Inr event \<Rightarrow>
          if find_event_by_id (e_db E) a (ev_id event) \<noteq> 0 \<and> \<not> no_special_events
          then (None, (reply W (OkReply i True ''duplicate: ok'') p, a))
          else
            let (within, p) =
              (if \<not> p_no_limit p
               then (let (ok, rl) = test_and_add (p_rate_limiter p) (now W)
                     in (ok, p\<lparr>p_rate_limiter := rl\<rparr>))
               else (True, p))
            in if \<not> within then
                 (None, (send_error W i
                    (''rate-limited: you can only post '' @ int_text (event_rate_limit options)
                       @ '' events every '' @ int_text (event_rate_window options) @ '' seconds'') p, a))
               else if \<not> p_no_limit p \<and> opt_pow options > 0 \<and> \<not> check_pow options i then
                 (None, (send_error W i (''pow: required difficulty '' @ int_text (opt_pow options)) p, a))
               else
                 let event = (if p_authent p \<and> is_home_user (e_db E) a (p_auth_pubkey p)
                              then event\<lparr>ev_trusted := True\<rparr> else event)
                 in process_verified E W on_verify no_special_events i event (p, a))"

text \<open>The \<open>catch\<close> clauses: every exception becomes a reply.\<close>

definition reply_of_exn :: "string \<Rightarrow> exn \<Rightarrow> 'j reply" where
  "reply_of_exn i e =
     (case e of
        EventParseException _ \<Rightarrow> OkReply i False (''invalid: '' @ what e)
      | DuplicateKeyException \<Rightarrow> OkReply i True ''duplicate:''
      | Blocked _ \<Rightarrow> OkReply i False (''blocked: '' @ what e)
      | InvalidArgument _ \<Rightarrow> OkReply i False (''invalid: '' @ what e)
      | _ \<Rightarrow> OkReply i False (''error:'' @ what e))"

definition on_event_generic ::
    "('j, 'd, 'r, 'k, 'p) env \<Rightarrow> moment
       \<Rightarrow> (string \<Rightarrow> Event \<Rightarrow> ('j, 'd) conn \<Rightarrow> exn option \<times> ('j, 'd) conn)
       \<Rightarrow> bool \<Rightarrow> 'j \<Rightarrow> ('j, 'd) conn \<Rightarrow> ('j, 'd) conn" where
  "on_event_generic E W on_verify no_special_events msg c =
     (let i = j_text (e_json E) (j_field (e_json E) msg ''id'') in
      case process_event E W on_verify no_special_events msg i c of
        (None, c') \<Rightarrow> c'
      | (Some e, (p, a)) \<Rightarrow> (reply W (reply_of_exn i e) p, a))"

definition on_event ::
    "('j, 'd, 'r, 'k, 'p) env \<Rightarrow> moment \<Rightarrow> 'j \<Rightarrow> ('j, 'd) conn \<Rightarrow> ('j, 'd) conn" where
  "on_event E W msg c =
     on_event_generic E W (publish_verified E W) False (j_item (e_json E) msg 1) c"

section \<open>Files\<close>

datatype file_error = malformed | unsupported_kind | max_size

text \<open>\<open>(hash, mime, size)\<close>; a second non-empty value is malformed.\<close>

fun file_tags :: "Tag list \<Rightarrow> string \<times> string \<times> string \<Rightarrow> (string \<times> string \<times> string) option" where
  "file_tags [] hms = Some hms"
| "file_tags (x # xs) (h, m, s) =
     (if tg_tag x = ''x'' then (if h = [] then file_tags xs (tg_content x, m, s) else None)
      else if tg_tag x = ''m'' then (if m = [] then file_tags xs (h, tg_content x, s) else None)
      else if tg_tag x = ''size'' then (if s = [] then file_tags xs (h, m, tg_content x) else None)
      else file_tags xs (h, m, s))"

definition file_check :: "server_options \<Rightarrow> Event \<Rightarrow> file_error option" where
  "file_check options event =
     (if ev_kind event \<noteq> File_Header then Some unsupported_kind
      else case file_tags (ev_tags event) ([], [], []) of
        None \<Rightarrow> Some malformed
      | Some (h, m, s) \<Rightarrow>
          if s = [] \<or> m = [] \<or> length h \<noteq> 64 then Some malformed
          else let (sz, s_end) = strtoul s
               in if s_end \<noteq> [] then Some malformed
                  else if sz > attachment_max_size options then Some max_size
                  else None)"

definition file_error_text :: "server_options \<Rightarrow> file_error \<Rightarrow> string" where
  "file_error_text options e =
     (case e of
        malformed \<Rightarrow> ''invalid: malformed''
      | unsupported_kind \<Rightarrow> ''invalid: unsupported kind''
      | max_size \<Rightarrow> ''max_size: '' @ nat_text (unat (attachment_max_size options)))"

definition accept_file ::
    "('j, 'd, 'r, 'k, 'p) env \<Rightarrow> moment \<Rightarrow> string \<Rightarrow> Event \<Rightarrow> ('j, 'd) conn
       \<Rightarrow> exn option \<times> ('j, 'd) conn" where
  "accept_file E W i event c =
     (let (p, a) = c in
      case file_check (e_options E) event of
        None \<Rightarrow>
          no_throw (reply W (OkReply i True ''continue'') (p\<lparr>p_file_event := Some event\<rparr>), a)
      | Some e \<Rightarrow> no_throw (reply W (OkReply i False (file_error_text (e_options E) e)) p, a))"

definition on_file ::
    "('j, 'd, 'r, 'k, 'p) env \<Rightarrow> moment \<Rightarrow> 'j \<Rightarrow> ('j, 'd) conn \<Rightarrow> ('j, 'd) conn" where
  "on_file E W msg c =
     on_event_generic E W (accept_file E W) True (j_item (e_json E) msg 1) c"

section \<open>Binary messages\<close>

text \<open>
  The data of the file that was announced. An exception of the database passes through the
  connection's loop. The reply after the success reads the identifier of an event that was
  destroyed just before; here the value is still the event's.
\<close>

definition processBinaryMessage ::
    "('j, 'd, 'r, 'k, 'p) env \<Rightarrow> moment \<Rightarrow> string \<Rightarrow> ('j, 'd) conn \<Rightarrow> exn option \<times> ('j, 'd) conn" where
  "processBinaryMessage E W msg_text c =
     (let (p, a) = c; D = e_db E in
      case p_file_event p of
        None \<Rightarrow> no_throw (send_notice W ''unsupported binary message'' p, a)
      | Some ev \<Rightarrow>
          let hash = e_sha E msg_text;
              need_hash = from_hex 32 (mem W 0) (get_tag_content ev ''x'');
              sz = fst (strtoul (get_tag_content ev ''size''))
          in if unat sz \<noteq> length msg_text \<or> hash \<noteq> need_hash
             then no_throw (reply W (OkReply (to_hex (ev_id ev)) False ''invalid: file mismatch'') p, a)
             else
               let ev = ev\<lparr>ev_nip97 := True\<rparr>; p = p\<lparr>p_file_event := Some ev\<rparr>
               in if find_event_by_id D a (ev_id ev) \<noteq> 0
                  then no_throw (reply W (OkReply (to_hex (ev_id ev)) True ''duplicate'') p, a)
                  else
                    let result = (if find_attachment D a hash \<noteq> 0 then publish D ev None a
                                  else publish_attachment D ev \<lparr>att_id = hash, att_data = msg_text\<rparr> None a);
                        p = p\<lparr>p_file_event := None\<rparr>
                    in case result of
                         Inr a' \<Rightarrow> no_throw (reply W (OkReply (to_hex (ev_id ev)) True []) p, a')
                       | Inl e \<Rightarrow>
                           (Some (exn_of_db e),
                            (reply W (OkReply (to_hex (ev_id ev)) False ''error: internal error'') p, a)))"

definition on_retrieve ::
    "('j, 'd, 'r, 'k, 'p) env \<Rightarrow> moment \<Rightarrow> 'j \<Rightarrow> ('j, 'd) conn \<Rightarrow> ('j, 'd) conn" where
  "on_retrieve E W msg c =
     (let (p, a) = c; D = e_db E; d = app_db a;
          i = j_text (e_json E) (j_item (e_json E) msg 1);
          ev_id = from_hex 32 (mem W 0) i;
          docid = find_event_by_id D a ev_id;
          missing = (reply W (RetrieveReply i False ''missing: not found'') p, a)
      in if docid = 0 then missing
         else case storage_find D d docid of
           Some (AnEvent event) \<Rightarrow>
             if \<not> ev_nip97 event then missing
             else
               let att_hex = from_hex 32 (mem W 1) (get_tag_content event ''x'');
                   att_id = find_attachment D a att_hex
               in if att_id = 0 then missing
                  else (case storage_find D d att_id of
                          Some (AnAttachment att) \<Rightarrow>
                            (reply W (BinaryReply (att_data att)) (reply W (OkReply i True []) p), a)
                        | _ \<Rightarrow> missing)
         | _ \<Rightarrow> missing)"

section \<open>Subscriptions and queries\<close>

definition get_attachment_link ::
    "('j, 'd, 'r, 'k, 'p) env \<Rightarrow> bytes \<Rightarrow> string \<Rightarrow> string" where
  "get_attachment_link E i mime =
     (let s = ''file/'' @ e_base64url E i in
      case e_extension E mime of
        None \<Rightarrow> s
      | Some ext \<Rightarrow> if ext \<noteq> [] then s @ ''.'' @ ext else s)"

text \<open>The filters of a command, with the memory each finds; the limit is the largest one.\<close>

definition read_filters ::
    "('j, 'd, 'r, 'k, 'p) env \<Rightarrow> moment \<Rightarrow> 'j list \<Rightarrow> nostr_filter list" where
  "read_filters E W rq =
     map (\<lambda>(pos, f). filter_create (e_json E) (filter_mem W pos) f) (enumerate 2 (drop 2 rq))"

definition request_limit :: "nostr_filter list \<Rightarrow> u64" where
  "request_limit flts =
     fold (\<lambda>f limit. case f_limit f of Some l \<Rightarrow> max limit (ucast l) | None \<Rightarrow> - 1) flts 0"

text \<open>The document of an event in an answer; the address of the relay starts with \<open>ws\<close>.\<close>

definition answer_document ::
    "('j, 'd, 'r, 'k, 'p) env \<Rightarrow> 'j peer \<Rightarrow> 'd app \<Rightarrow> Event \<Rightarrow> exn + 'j" where
  "answer_document E p a ev =
     (let J = e_json E; sevent = toStructured J ev;
          with_karma = \<lambda>doc. j_set J doc ''karma'' (mk_int J (get_karma (e_db E) a (ev_author ev)))
      in if ev_nip97 ev then
           (if length (p_url p) < 2 then Inl (StdException ''basic_string_view::substr'')
            else let url = ''http'' @ drop 2 (p_url p)
                       @ get_attachment_link E (ev_id ev) (get_tag_content ev ''m'')
                 in Inr (with_karma (j_set J (j_set J sevent ''file_url'' (mk_string J url))
                                       ''nip97'' (mk_bool J True))))
         else Inr (with_karma sevent))"

text \<open>
  The loop over the candidates. \<open>None\<close> is the normal end; \<open>Some None\<close> the return after a write that
  failed; \<open>Some (Some e)\<close> a throw.
\<close>

fun send_candidates ::
    "('j, 'd, 'r, 'k, 'p) env \<Rightarrow> moment \<Rightarrow> string \<Rightarrow> nostr_filter list \<Rightarrow> 'd app \<Rightarrow> candidate list
       \<Rightarrow> u64 \<Rightarrow> 'j peer \<Rightarrow> exn option option \<times> 'j peer" where
  "send_candidates E W subid flts a [] limit p = (None, p)"
| "send_candidates E W subid flts a (cd # cds) limit p =
     (if limit = 0 then (None, p)
      else case storage_find (e_db E) (app_db a) (fst cd) of
        Some (AnEvent ev) \<Rightarrow>
          if list_ex (\<lambda>f. filter_test (e_hash E) f ev) flts then
            (case answer_document E p a ev of
               Inl e \<Rightarrow> (Some (Some e), p)
             | Inr sevent \<Rightarrow>
                 let (is_open, p) = send W (EventReply subid sevent) p
                 in if \<not> is_open then (Some None, p)
                    else send_candidates E W subid flts a cds (limit - 1) p)
          else send_candidates E W subid flts a cds limit p
      | _ \<Rightarrow> send_candidates E W subid flts a cds limit p)"

definition on_req ::
    "('j, 'd, 'r, 'k, 'p) env \<Rightarrow> moment \<Rightarrow> 'j \<Rightarrow> ('j, 'd) conn \<Rightarrow> exn option \<times> ('j, 'd) conn" where
  "on_req E W msg c =
     (let (p, a) = c; J = e_json E; Q = e_search E; rq = j_array J msg in
      if length rq < 2 then (Some OutOfBounds, c)
      else
        let subid = j_text J (rq ! 1);
            flts = read_filters E W rq;
            limit = request_limit flts;
            candidates = find_in_index (e_db E) (e_text E) (e_hash E) Q (app_db a) flts;
            (stopped, p) =
              (if \<not> rs_inverted Q candidates
               then send_candidates E W subid flts a (e_sort E (rs_items Q candidates)) limit p
               else (None, p))
        in case stopped of
             Some e \<Rightarrow> (e, (p, a))
           | None \<Rightarrow>
               let p = reply W (EoseReply subid) p
               in no_throw (p\<lparr>p_subscriptions := p_subscriptions p @ [(subid, flts)]\<rparr>, a))"

definition on_count ::
    "('j, 'd, 'r, 'k, 'p) env \<Rightarrow> moment \<Rightarrow> 'j \<Rightarrow> ('j, 'd) conn \<Rightarrow> exn option \<times> ('j, 'd) conn" where
  "on_count E W msg c =
     (let (p, a) = c; J = e_json E; Q = e_search E; rq = j_array J msg in
      if length rq < 2 then (Some OutOfBounds, c)
      else
        let subid = j_text J (rq ! 1);
            flts = read_filters E W rq;
            count = rs_size Q (find_in_index (e_db E) (e_text E) (e_hash E) Q (app_db a) flts)
        in no_throw (reply W (CountReply subid count) p, a))"

definition on_close ::
    "('j, 'd, 'r, 'k, 'p) env \<Rightarrow> 'j \<Rightarrow> ('j, 'd) conn \<Rightarrow> ('j, 'd) conn" where
  "on_close E msg c =
     (let (p, a) = c; i = j_text (e_json E) (j_item (e_json E) msg 1)
      in (p\<lparr>p_subscriptions := filter (\<lambda>s. fst s \<noteq> i) (p_subscriptions p)\<rparr>, a))"

text \<open>The subscriptions an event is delivered to, in their order.\<close>

definition filter_event :: "(string \<Rightarrow> u64) \<Rightarrow> Event \<Rightarrow> 'j peer \<Rightarrow> string list" where
  "filter_event hash doc p =
     map fst (filter (\<lambda>sbs. list_ex (\<lambda>f. filter_test hash f doc) (snd sbs)) (p_subscriptions p))"

text \<open>One turn of \<open>listen_publisher\<close>.\<close>

definition deliver :: "('j, 'd, 'r, 'k, 'p) env \<Rightarrow> moment \<Rightarrow> event_source \<Rightarrow> 'j peer \<Rightarrow> 'j peer" where
  "deliver E W v p =
     fold (\<lambda>s p. reply W (EventReply s (toStructured (e_json E) (fst v))) p)
       (filter_event (e_hash E) (fst v) p) p"

section \<open>Authentication\<close>

text \<open>
  \<open>now - created_at\<close> in nanoseconds of 64 bits, wrapping around, then in whole minutes towards
  zero.
\<close>

definition challenge_age :: "int \<Rightarrow> time_t \<Rightarrow> int" where
  "challenge_age t created_at =
     sint (word_of_int t - created_at * 1000000000 :: u64) sdiv 60000000000"

definition auth_check ::
    "('j, 'd, 'r, 'k, 'p) env \<Rightarrow> moment \<Rightarrow> 'j peer \<Rightarrow> 'j \<Rightarrow> exn + Event" where
  "auth_check E W p jevent =
     (case fromStructured (e_json E) (e_sha E) (e_hash E) (mem W) jevent of
        Inl e \<Rightarrow> Inl (EventParseException e)
      | Inr event \<Rightarrow>
          if \<not> event_verify (e_secp E) event
          then Inl (InvalidArgument ''Signature verification failed'')
          else if ev_kind event \<noteq> Client_Authentication
          then Inl (InvalidArgument ''Unsupported kind'')
          else if challenge_age (now W) (ev_created_at event) > 10
          then Inl (InvalidArgument ''Challenge expired'')
          else if get_tag_content event ''challenge'' \<noteq> p_auth_nonce p
          then Inl (InvalidArgument ''Invalid challenge'')
          else Inr event)"

definition process_auth ::
    "('j, 'd, 'r, 'k, 'p) env \<Rightarrow> moment \<Rightarrow> 'j \<Rightarrow> ('j, 'd) conn \<Rightarrow> ('j, 'd) conn" where
  "process_auth E W jevent c =
     (let (p, a) = c; i = j_string (e_json E) (j_field (e_json E) jevent ''id'') in
      case auth_check E W p jevent of
        Inr event \<Rightarrow>
          (reply W (OkReply i True ''Welcome to relay!'')
             (p\<lparr>p_authent := True, p_auth_pubkey := ev_author event\<rparr>), a)
      | Inl e \<Rightarrow> (send_error W i (''restricted:'' @ what e) p, a))"

end
