(* ===== verification/Peer_Session.thy ===== *)
theory Peer_Session
  imports Peer_Commands
begin

text \<open>
  The life of a connection: \<open>Peer::processMessage\<close> and the loop of \<open>Peer::client_main\<close> of
  \<^verbatim>\<open>src/src/nostr_server/peer.cpp\<close>. The handshake of the web socket, the log and the header that
  identifies the client are not part of the state.

  \<open>session_step\<close> is one step of a connection among others: it handles a message, it delivers an
  event somebody published, or the application changes under it because of other connections
  (any change). The coroutine of the publisher runs between the messages, under the same lock, so
  steps do not overlap.
\<close>

section \<open>Text messages\<close>

text \<open>The body of the \<open>try\<close> block; \<open>on_event\<close> and its kin catch their own exceptions.\<close>

definition dispatch ::
    "('j, 'd, 'r, 'k, 'p) env \<Rightarrow> moment \<Rightarrow> 'j \<Rightarrow> ('j, 'd) conn \<Rightarrow> exn option \<times> ('j, 'd) conn" where
  "dispatch E W msg c =
     (let J = e_json E; cmd_text = j_string J (j_item J msg 0); (p, a) = c in
      case e_command E cmd_text of
        EVENT \<Rightarrow> no_throw (on_event E W msg c)
      | REQ \<Rightarrow> on_req E W msg c
      | COUNT \<Rightarrow> on_count E W msg c
      | CLOSE \<Rightarrow> no_throw (on_close E msg c)
      | AUTH \<Rightarrow> no_throw (process_auth E W (j_item J msg 1) c)
      | FILE \<Rightarrow> no_throw (on_file E W msg c)
      | RETRIEVE \<Rightarrow> no_throw (on_retrieve E W msg c)
      | _ \<Rightarrow> no_throw (send_notice W (''Unknown command: '' @ cmd_text) p, a))"

text \<open>A message that is too long is answered with a notice and then handled all the same.\<close>

definition processMessage ::
    "('j, 'd, 'r, 'k, 'p) env \<Rightarrow> moment \<Rightarrow> string \<Rightarrow> ('j, 'd) conn \<Rightarrow> exn option \<times> ('j, 'd) conn" where
  "processMessage E W msg_text c =
     (let (p, a) = c;
          p = (if length msg_text > unat (max_message_size (e_options E))
               then send_notice W ''Text message is too long'' p else p);
          ignored = \<lambda>(p, a). (send_notice W ''error: Internal error - command ignored'' p, a)
      in case e_from_json E msg_text of
           None \<Rightarrow> no_throw (ignored (p, a))
         | Some msg \<Rightarrow>
             (case dispatch E W msg (p, a) of
                (None, c) \<Rightarrow> no_throw c
              | (Some e, c) \<Rightarrow> if e = OutOfBounds then (Some e, c) else no_throw (ignored c)))"

section \<open>The connection\<close>

datatype message =
    TextMessage string
  | BinaryMessage string
  | ConnClose
  | LargeFrame
  | OtherFrame

text \<open>
  The state before the constructor's body; \<open>_auth_pubkey\<close> has no initial value and is only read once
  \<open>_authent\<close> is set, together with it.
\<close>

definition new_peer :: "('j, 'd, 'r, 'k, 'p) env \<Rightarrow> nat \<Rightarrow> string \<Rightarrow> 'j peer" where
  "new_peer E self url =
     \<lparr>p_self = self, p_url = url,
      p_rate_limiter = RateLimiter (word_of_int (event_rate_window (e_options E)))
        (word_of_int (event_rate_limit (e_options E))),
      p_authent = False, p_no_limit = False, p_auth_pubkey = replicate 32 0, p_auth_nonce = [],
      p_file_event = None, p_subscriptions = [], p_out = []\<rparr>"

text \<open>The constructor, the challenge, and its sending.\<close>

definition client_start ::
    "('j, 'd, 'r, 'k, 'p) env \<Rightarrow> moment \<Rightarrow> (nat \<Rightarrow> nat) \<Rightarrow> nat \<Rightarrow> string \<Rightarrow> 'd app \<Rightarrow> ('j, 'd) conn" where
  "client_start E W rnum self url a =
     (let me = prepare_auth_challenge rnum (new_peer E self url)
      in (reply W (AuthReply (p_auth_nonce me)) me, client_counter 1 url a))"

text \<open>One turn of the loop: whether it goes on.\<close>

definition client_message ::
    "('j, 'd, 'r, 'k, 'p) env \<Rightarrow> moment \<Rightarrow> message \<Rightarrow> ('j, 'd) conn
       \<Rightarrow> exn option \<times> bool \<times> ('j, 'd) conn" where
  "client_message E W m c =
     (case m of
        TextMessage payload \<Rightarrow> (let (e, c) = processMessage E W payload c in (e, e = None, c))
      | BinaryMessage payload \<Rightarrow> (let (e, c) = processBinaryMessage E W payload c in (e, e = None, c))
      | ConnClose \<Rightarrow> (None, False, c)
      | LargeFrame \<Rightarrow> (let (p, a) = c in (None, True, (send_notice W ''Message too large'' p, a)))
      | OtherFrame \<Rightarrow> (None, True, c))"

fun client_main ::
    "('j, 'd, 'r, 'k, 'p) env \<Rightarrow> (moment \<times> message) list \<Rightarrow> ('j, 'd) conn \<Rightarrow> exn option \<times> ('j, 'd) conn" where
  "client_main E [] c = (None, c)"
| "client_main E ((W, m) # ms) c =
     (case client_message E W m c of
        (e, rep, c') \<Rightarrow> if rep then client_main E ms c' else (e, c'))"

text \<open>The destructor.\<close>

definition client_end :: "('j, 'd) conn \<Rightarrow> 'd app" where
  "client_end c = (let (p, a) = c in client_counter (- 1) (p_url p) a)"

inductive session_step :: "('j, 'd, 'r, 'k, 'p) env \<Rightarrow> ('j, 'd) conn \<Rightarrow> ('j, 'd) conn \<Rightarrow> bool"
  for E where
  message: "client_message E W m c = (e, rep, c') \<Longrightarrow> session_step E c c'"
| delivery: "session_step E (p, a) (deliver E W v p, a)"
| others: "session_step E (p, a) (p, a')"

inductive session :: "('j, 'd, 'r, 'k, 'p) env \<Rightarrow> ('j, 'd) conn \<Rightarrow> bool"
  for E where
  start: "session E (client_start E W rnum self url a)"
| step: "session E c \<Longrightarrow> session_step E c c' \<Longrightarrow> session E c'"

inductive_cases session_stepE: "session_step E c c'"

end
