(* ===== verification/Mem_Db.thy ===== *)
theory Mem_Db
  imports App
begin

text \<open>
  A database in memory that satisfies \<open>db_laws\<close>: it shows that the laws can hold together, and the
  examples of the development evaluate the handlers on it. Documents get increasing numbers; a
  batch that would leave two documents with one unique key is refused as a whole.
\<close>

record mem_db =
  md_docs :: "(docid \<times> EventOrAttachment) list"
  md_next :: nat
  md_karma :: "bytes \<Rightarrow> Karma option"

fun mem_apply :: "batch_op list \<Rightarrow> mem_db \<Rightarrow> mem_db option" where
  "mem_apply [] d = Some d"
| "mem_apply (Erase i # ops) d =
     mem_apply ops (d\<lparr>md_docs := filter (\<lambda>p. fst p \<noteq> i) (md_docs d)\<rparr>)"
| "mem_apply (Put doc old # ops) d =
     (if md_next d \<ge> 2 ^ 64 - 1 then None
      else mem_apply ops
        (d\<lparr>md_docs := (of_nat (md_next d), doc) # filter (\<lambda>p. fst p \<noteq> old) (md_docs d),
           md_next := md_next d + 1\<rparr>))"

definition index_rows :: "(EventOrAttachment \<Rightarrow> ('k \<times> 't) list) \<Rightarrow> (docid \<times> EventOrAttachment) list
    \<Rightarrow> ('k \<times> docid \<times> 't) list" where
  "index_rows ix docs = concat (map (\<lambda>(n, doc). map (\<lambda>(k, t). (k, n, t)) (ix doc)) docs)"

definition attachment_ids :: "EventOrAttachment \<Rightarrow> (bytes \<times> unit) list" where
  "attachment_ids evatt = (case evatt of AnAttachment att \<Rightarrow> [(att_id att, ())] | AnEvent _ \<Rightarrow> [])"

definition mem_unique :: "mem_db \<Rightarrow> bool" where
  "mem_unique d \<longleftrightarrow>
     distinct (map fst (index_rows index_by_id (md_docs d))) \<and>
     distinct (map fst (index_rows index_by_author_kind (md_docs d))) \<and>
     distinct (map fst (index_rows attachment_ids (md_docs d)))"

definition mem_commit :: "mem_db \<Rightarrow> batch_op list \<Rightarrow> db_error + mem_db" where
  "mem_commit d ops =
     (case mem_apply ops d of
        None \<Rightarrow> Inl (DbError ''full'')
      | Some d' \<Rightarrow> if mem_unique d' then Inr d' else Inl DuplicateKey)"

definition mem_ops :: "mem_db db_ops" where
  "mem_ops =
     \<lparr>storage_find = (\<lambda>d n. map_of (md_docs d) n),
      commit_batch = mem_commit,
      by_id_find = (\<lambda>d i. map_of (index_rows index_by_id (md_docs d)) i),
      replaceable_find = (\<lambda>d k. map_of (index_rows index_by_author_kind (md_docs d)) k),
      attachments_find = (\<lambda>d i. map_option fst (map_of (index_rows attachment_ids (md_docs d)) i)),
      attachments_all = (\<lambda>d. map (\<lambda>(i, _). (i, False)) (index_rows attachment_ids (md_docs d))),
      whitelist_find = md_karma,
      whitelist_empty = (\<lambda>d. md_docs d = []),
      nip05_find = (\<lambda>_ _. None)\<rparr>"

definition mem_ok :: "mem_db \<Rightarrow> bool" where
  "mem_ok d \<longleftrightarrow> distinct (map fst (md_docs d)) \<and> mem_unique d \<and> 1 \<le> md_next d \<and>
     md_next d \<le> 2 ^ 64 - 1 \<and> (\<forall>n \<in> fst ` set (md_docs d). n \<noteq> 0 \<and> unat n < md_next d)"

lemma index_rows_find:
  assumes "distinct (map fst docs)" "distinct (map fst (index_rows ix docs))"
  shows "map_of (index_rows ix docs) k = Some (n, t) \<longleftrightarrow>
    (\<exists>doc. map_of docs n = Some doc \<and> (k, t) \<in> set (ix doc))"
proof -
  have "map_of (index_rows ix docs) k = Some (n, t) \<longleftrightarrow> (k, n, t) \<in> set (index_rows ix docs)"
    using assms(2) by (simp add: map_of_eq_Some_iff)
  also have "\<dots> \<longleftrightarrow> (\<exists>doc. (n, doc) \<in> set docs \<and> (k, t) \<in> set (ix doc))"
    by (force simp: index_rows_def)
  finally show ?thesis using assms(1) by (simp add: map_of_eq_Some_iff)
qed

lemma map_of_filter_neq: "map_of (filter (\<lambda>p. fst p \<noteq> i) xs) = (map_of xs)(i := None)"
  by (induction xs) (auto simp: fun_eq_iff)

lemma mem_apply_batch:
  assumes "mem_apply ops d = Some d'" "distinct (map fst (md_docs d))" "1 \<le> md_next d"
    "\<forall>n \<in> fst ` set (md_docs d). n \<noteq> 0 \<and> unat n < md_next d" "md_next d \<le> 2 ^ 64 - 1"
  shows "distinct (map fst (md_docs d')) \<and> md_next d' = md_next d + puts ops \<and>
    (\<forall>n \<in> fst ` set (md_docs d'). n \<noteq> 0 \<and> unat n < md_next d') \<and> md_next d' \<le> 2 ^ 64 - 1 \<and>
    map_of (md_docs d') = apply_batch ops (map of_nat [md_next d..<md_next d']) (map_of (md_docs d))"
  using assms
proof (induction ops d rule: mem_apply.induct)
  case (1 d)
  then show ?case by (simp add: puts_def)
next
  case (2 i ops d)
  let ?e = "d\<lparr>md_docs := filter (\<lambda>p. fst p \<noteq> i) (md_docs d)\<rparr>"
  have "distinct (map fst (md_docs ?e))" using 2 by (simp add: distinct_map_filter)
  then have IH: "distinct (map fst (md_docs d')) \<and> md_next d' = md_next ?e + puts ops \<and>
    (\<forall>n \<in> fst ` set (md_docs d'). n \<noteq> 0 \<and> unat n < md_next d') \<and> md_next d' \<le> 2 ^ 64 - 1 \<and>
    map_of (md_docs d') = apply_batch ops (map of_nat [md_next ?e..<md_next d']) (map_of (md_docs ?e))"
    using 2 by (intro 2(1)) auto
  moreover have "puts (Erase i # ops) = puts ops" by (simp add: puts_def)
  ultimately show ?case by (auto simp: map_of_filter_neq)
next
  case (3 doc old ops d)
  let ?e = "d\<lparr>md_docs := (of_nat (md_next d), doc) # filter (\<lambda>p. fst p \<noteq> old) (md_docs d),
           md_next := md_next d + 1\<rparr>"
  have lt: "md_next d < 2 ^ 64 - 1" using 3(2) by (auto split: if_splits)
  then have val: "unat (of_nat (md_next d) :: docid) = md_next d"
    by (simp add: unsigned_of_nat take_bit_nat_eq_self)
  have new: "(of_nat (md_next d) :: docid) \<notin> fst ` set (md_docs d)"
    using 3(5) val by fastforce
  have nz: "(of_nat (md_next d) :: docid) \<noteq> 0"
    using val 3(4) by (metis not_one_le_zero unat_0)
  have "distinct (map fst (md_docs ?e))" using 3 new by (auto simp: distinct_map_filter)
  moreover have "\<forall>n \<in> fst ` set (md_docs ?e). n \<noteq> 0 \<and> unat n < md_next ?e"
    using 3(5) val nz by fastforce
  ultimately have IH: "distinct (map fst (md_docs d')) \<and> md_next d' = md_next ?e + puts ops \<and>
    (\<forall>n \<in> fst ` set (md_docs d'). n \<noteq> 0 \<and> unat n < md_next d') \<and> md_next d' \<le> 2 ^ 64 - 1 \<and>
    map_of (md_docs d') = apply_batch ops (map of_nat [md_next ?e..<md_next d']) (map_of (md_docs ?e))"
    using 3 lt by (intro 3(1)) auto
  have "[md_next d..<md_next d'] = md_next d # [Suc (md_next d)..<md_next d']"
    using IH by (intro upt_conv_Cons) auto
  moreover have "puts (Put doc old # ops) = Suc (puts ops)" by (simp add: puts_def)
  ultimately show ?case using IH by (auto simp: map_of_filter_neq)
qed

lemma mem_commit_laws:
  assumes "mem_ok d" "mem_commit d ops = Inr d'"
  shows "mem_ok d' \<and> (\<exists>ns. length ns = puts ops \<and> fresh_numbers ns (map_of (md_docs d)) \<and>
    map_of (md_docs d') = apply_batch ops ns (map_of (md_docs d)))"
proof -
  have ap: "mem_apply ops d = Some d'" "mem_unique d'"
    using assms(2) by (auto simp: mem_commit_def split: option.splits if_splits)
  note b = mem_apply_batch [OF ap(1)]
  let ?ns = "map of_nat [md_next d..<md_next d'] :: docid list"
  have res: "distinct (map fst (md_docs d'))" "md_next d' = md_next d + puts ops"
    "\<forall>n \<in> fst ` set (md_docs d'). n \<noteq> 0 \<and> unat n < md_next d'" "md_next d' \<le> 2 ^ 64 - 1"
    "map_of (md_docs d') = apply_batch ops ?ns (map_of (md_docs d))"
    using b assms(1) by (auto simp: mem_ok_def)
  have val: "unat (of_nat k :: docid) = k" if "k \<in> {md_next d..<md_next d'}" for k
    using that res(4) by (simp add: unsigned_of_nat take_bit_nat_eq_self)
  have "inj_on (of_nat :: nat \<Rightarrow> docid) {md_next d..<md_next d'}"
    by (rule inj_onI) (metis val)
  then have "distinct ?ns" by (simp add: distinct_map)
  moreover have "n \<noteq> 0 \<and> n \<noteq> - 1 \<and> map_of (md_docs d) n = None" if n: "n \<in> set ?ns" for n
  proof -
    obtain k where k: "n = of_nat k" "md_next d \<le> k" "k < md_next d'" using n by auto
    then have u: "unat n = k" using val by simp
    have "unat (- 1 :: docid) = 2 ^ 64 - 1" by (simp add: unsigned_minus_1_eq_mask mask_eq_exp_minus_1)
    moreover have "n \<notin> fst ` set (md_docs d)"
      using assms(1) u k(2) unfolding mem_ok_def by fastforce
    ultimately show ?thesis
      using u k res(4) assms(1) by (auto simp: mem_ok_def map_of_eq_None_iff)
  qed
  ultimately have "fresh_numbers ?ns (map_of (md_docs d))"
    by (simp add: fresh_numbers_def list_all_iff)
  moreover have "length ?ns = puts ops" using res(2) by simp
  moreover have "mem_ok d'" using res ap(2) assms(1) by (simp add: mem_ok_def)
  ultimately show ?thesis using res(5) by blast
qed

lemma mem_laws: "db_laws mem_ops mem_ok"
  unfolding db_laws_def
proof (intro conjI allI impI)
  fix d :: mem_db assume ok: "mem_ok d"
  show "storage_find mem_ops d 0 = None"
    using ok by (auto simp: mem_ops_def mem_ok_def map_of_eq_None_iff)
  have "unat (- 1 :: docid) = 2 ^ 64 - 1" by (simp add: unsigned_minus_1_eq_mask mask_eq_exp_minus_1)
  then show "storage_find mem_ops d (- 1) = None"
    using ok by (fastforce simp: mem_ops_def mem_ok_def map_of_eq_None_iff)
  have u: "distinct (map fst (md_docs d))"
      "distinct (map fst (index_rows index_by_id (md_docs d)))"
      "distinct (map fst (index_rows index_by_author_kind (md_docs d)))"
      "distinct (map fst (index_rows attachment_ids (md_docs d)))"
    using ok by (simp_all add: mem_ok_def mem_unique_def)
  show "by_id_find mem_ops d i = Some (n, t) \<longleftrightarrow>
      (\<exists>doc. storage_find mem_ops d n = Some doc \<and> (i, t) \<in> set (index_by_id doc))" for i n t
    using index_rows_find [OF u(1,2)] by (simp add: mem_ops_def)
  show "replaceable_find mem_ops d k = Some (n, t) \<longleftrightarrow>
      (\<exists>doc. storage_find mem_ops d n = Some doc \<and> (k, t) \<in> set (index_by_author_kind doc))" for k n t
    using index_rows_find [OF u(1,3)] by (simp add: mem_ops_def)
  show "attachments_find mem_ops d i = Some n \<longleftrightarrow>
      (\<exists>att. storage_find mem_ops d n = Some (AnAttachment att) \<and> att_id att = i)" for i n
  proof -
    have "attachments_find mem_ops d i = Some n \<longleftrightarrow>
        map_of (index_rows attachment_ids (md_docs d)) i = Some (n, ())"
      by (auto simp: mem_ops_def)
    also have "\<dots> \<longleftrightarrow> (\<exists>doc. map_of (md_docs d) n = Some doc \<and> (i, ()) \<in> set (attachment_ids doc))"
      by (rule index_rows_find [OF u(1,4)])
    also have "\<dots> \<longleftrightarrow> (\<exists>att. map_of (md_docs d) n = Some (AnAttachment att) \<and> att_id att = i)"
      by (auto simp: attachment_ids_def split: EventOrAttachment.splits)
    finally show ?thesis by (simp add: mem_ops_def)
  qed
next
  fix d d' :: mem_db and ops assume "mem_ok d" "commit_batch mem_ops d ops = Inr d'"
  then have "mem_ok d' \<and> (\<exists>ns. length ns = puts ops \<and> fresh_numbers ns (map_of (md_docs d)) \<and>
    map_of (md_docs d') = apply_batch ops ns (map_of (md_docs d)))"
    by (intro mem_commit_laws) (simp_all add: mem_ops_def)
  then show "mem_ok d'" "\<exists>ns. length ns = puts ops \<and> fresh_numbers ns (storage_find mem_ops d) \<and>
      storage_find mem_ops d' = apply_batch ops ns (storage_find mem_ops d)"
    by (simp_all add: mem_ops_def)
qed

definition empty_db :: mem_db where
  "empty_db = \<lparr>md_docs = [], md_next = 1, md_karma = (\<lambda>_. None)\<rparr>"

lemma empty_db_ok: "mem_ok empty_db"
  by (simp add: mem_ok_def mem_unique_def empty_db_def index_rows_def)

definition empty_app :: "mem_db app" where
  "empty_app = \<lparr>app_db = empty_db, app_published = [], app_gc_running = False,
     app_empty_database = True, app_clients = 0, app_this_relay_url = []\<rparr>"

end
