(* ===== verification/Mem_Search.thy ===== *)
theory Mem_Search
  imports App_Search Mem_Db
begin

text \<open>
  The search operations of the database in memory: the ranges include their lower and exclude
  their upper end, a recordset is a list of candidates with a flag that inverts it. It satisfies
  \<open>search_laws\<close> and lets the examples evaluate searches.
\<close>

definition rows_of :: "(EventOrAttachment \<Rightarrow> 'k list) \<Rightarrow> mem_db \<Rightarrow> ('k \<Rightarrow> bool) \<Rightarrow> 'k row list" where
  "rows_of ix d inside =
     concat (map (\<lambda>(n, doc). map (\<lambda>k. (k, n)) (filter inside (ix doc))) (md_docs d))"

type_synonym mem_rs = "bool \<times> candidate list"

definition common ::
    "(ordering_item \<Rightarrow> ordering_item \<Rightarrow> ordering_item) \<Rightarrow> candidate list \<Rightarrow> candidate list \<Rightarrow> candidate list" where
  "common m xs ys = concat (map (\<lambda>(i, x). map (\<lambda>(_, y). (i, m x y)) (filter (\<lambda>(j, _). j = i) ys)) xs)"

definition without :: "candidate list \<Rightarrow> candidate list \<Rightarrow> candidate list" where
  "without xs ys = filter (\<lambda>(i, _). i \<notin> fst ` set ys) xs"

definition either_list ::
    "(ordering_item \<Rightarrow> ordering_item \<Rightarrow> ordering_item) \<Rightarrow> candidate list \<Rightarrow> candidate list \<Rightarrow> candidate list" where
  "either_list m xs ys = common m xs ys @ without xs ys @ without ys xs"

definition mem_or :: "(ordering_item \<Rightarrow> ordering_item \<Rightarrow> ordering_item) \<Rightarrow> mem_rs \<Rightarrow> mem_rs \<Rightarrow> mem_rs" where
  "mem_or m a b =
     (if fst a then (if fst b then (True, common m (snd a) (snd b)) else (True, without (snd a) (snd b)))
      else if fst b then (True, without (snd b) (snd a)) else (False, either_list m (snd a) (snd b)))"

definition mem_and :: "(ordering_item \<Rightarrow> ordering_item \<Rightarrow> ordering_item) \<Rightarrow> mem_rs \<Rightarrow> mem_rs \<Rightarrow> mem_rs" where
  "mem_and m a b =
     (if fst a then (if fst b then (True, either_list m (snd a) (snd b)) else (False, without (snd b) (snd a)))
      else if fst b then (False, without (snd a) (snd b)) else (False, common m (snd a) (snd b)))"

definition mem_search :: "(string \<Rightarrow> u64) \<Rightarrow> (mem_db, mem_rs) search_ops" where
  "mem_search hash =
     \<lparr>sel_by_id = (\<lambda>d from to. rows_of index_by_id d (\<lambda>(k, _). from \<le> k \<and> k < to)),
      sel_pubkeys = (\<lambda>d from to. rows_of index_by_pubkey_time d (\<lambda>(k, _). from \<le> k \<and> k < to)),
      sel_pubkey_time = (\<lambda>d from to. rows_of index_by_pubkey_time d
         (\<lambda>(k, t). k = fst from \<and> in_time (snd from) (snd to) t)),
      sel_tag_time = (\<lambda>d from to. rows_of (index_tag_value_time hash) d
         (\<lambda>(c, h, t). c = fst from \<and> h = fst (snd from) \<and> in_time (snd (snd from)) (snd (snd to)) t)),
      sel_kind_time = (\<lambda>d from to. rows_of index_kind_time d
         (\<lambda>(k, t). k = fst from \<and> in_time (snd from) (snd to) t)),
      sel_time = (\<lambda>d since until. rows_of index_time d (in_time since until)),
      sel_words = (\<lambda>_ _. []),
      second_number = snd,
      rs_empty = (False, []), rs_all = (True, []), rs_of = Pair False,
      rs_or = mem_or, rs_and = mem_and, rs_items = snd, rs_inverted = fst,
      rs_is_empty = (\<lambda>r. r = (False, [])), rs_size = (\<lambda>r. int (length (snd r)))\<rparr>"

lemma common_ids: "fst ` set (common m xs ys) = fst ` set xs \<inter> fst ` set ys"
  by (force simp: common_def)

lemma without_ids: "fst ` set (without xs ys) = fst ` set xs - fst ` set ys"
  by (force simp: without_def)

lemma either_ids: "fst ` set (either_list m xs ys) = fst ` set xs \<union> fst ` set ys"
  by (auto simp: either_list_def common_ids without_ids image_Un)

lemma mem_recordset_laws: "recordset_laws (mem_search hash)"
  unfolding recordset_laws_def rs_has_def mem_search_def
  by (auto simp: mem_or_def mem_and_def common_ids without_ids either_ids)

lemma rows_of_iff:
  "(k, n) \<in> set (rows_of ix d inside) \<longleftrightarrow>
     (\<exists>doc. (n, doc) \<in> set (md_docs d) \<and> k \<in> set (ix doc) \<and> inside k)"
  by (force simp: rows_of_def)

lemma mem_range_laws: "range_laws mem_ops hash (mem_search hash) mem_ok"
  unfolding range_laws_def mem_search_def
  by (auto simp: rows_of_iff mem_ops_def dest!: map_of_SomeD)

lemma mem_search_laws: "search_laws mem_ops hash (mem_search hash) mem_ok"
  by (simp add: search_laws_def mem_recordset_laws mem_range_laws)

text \<open>A database that holds the sample event as it is after it was received.\<close>

definition stored_sample :: Event where
  "stored_sample = received (\<lambda>_. 0) sample_event"

lemma stored_sample_simps [simp]:
  "ev_id stored_sample = replicate 32 3" "ev_author stored_sample = replicate 32 1"
  "ev_kind stored_sample = 1" "ev_created_at stored_sample = 5"
  "ev_tags stored_sample = [\<lparr>tg_tag = ''e'', tg_content = ''x'', tg_additional_content = [''y'']\<rparr>]"
  "ev_trusted stored_sample = False" "ev_nip97 stored_sample = False"
  by (simp_all add: stored_sample_def received_def build_hash_map_def sample_event_def)

lemma stored_sample_indexed: "event_indexed (\<lambda>_. 0) stored_sample"
  by (simp add: stored_sample_def received_def sample_event_def)

definition sample_db :: mem_db where
  "sample_db = empty_db\<lparr>md_docs := [(1, AnEvent stored_sample)], md_next := 2\<rparr>"

lemma sample_db_ok: "mem_ok sample_db"
  by (auto simp: mem_ok_def mem_unique_def sample_db_def empty_db_def index_rows_def index_by_id_def
      index_by_author_kind_def attachment_ids_def kind_defs Let_def)

lemma sample_db_find: "storage_find mem_ops sample_db 1 = Some (AnEvent stored_sample)"
  by (simp add: mem_ops_def sample_db_def)

text \<open>Events by an author's prefix with an \<open>e\<close> tag, from second 3 on: the sample is found.\<close>

lemma sample_inside: "not_last (1 # replicate 31 0, 1) (replicate 32 1)"
  by code_simp

lemma search_complete_witness:
  "rs_has (mem_search (\<lambda>_. 0))
     (find_in_index mem_ops ascii_text (\<lambda>_. 0) (mem_search (\<lambda>_. 0)) sample_db
        [empty_filter\<lparr>f_authors := [(1 # replicate 31 0, 1)], f_tags := [(CHR ''e'', [''x''])],
                      f_since := Some 3\<rparr>]) 1"
proof (rule search_complete [OF mem_laws mem_search_laws sample_db_ok sample_db_find])
  show "filter_ok (empty_filter\<lparr>f_authors := [(1 # replicate 31 0, 1)],
      f_tags := [(CHR ''e'', [''x''])], f_since := Some 3\<rparr>)"
    by (simp add: filter_ok_def shorten_ok_def empty_filter_def)
  show "matches (empty_filter\<lparr>f_authors := [(1 # replicate 31 0, 1)],
      f_tags := [(CHR ''e'', [''x''])], f_since := Some 3\<rparr>) stored_sample"
    by (simp add: matches_def empty_filter_def numeral_eq_Suc)
  show "inside_ranges (empty_filter\<lparr>f_authors := [(1 # replicate 31 0, 1)],
      f_tags := [(CHR ''e'', [''x''])], f_since := Some 3\<rparr>) stored_sample"
    using sample_inside by (simp add: inside_ranges_def empty_filter_def)
qed (simp_all add: empty_filter_def)

end
