(* ===== verification/Sample_Env.thy ===== *)
theory Sample_Env
  imports Peer_Session Mem_Search
begin

text \<open>
  A concrete environment on which the examples run the connection: the reference JSON documents,
  the database in memory, a hash and a signature check that accept the sample event.
\<close>

definition sample_options :: server_options where
  "sample_options =
     \<lparr>opt_pow = 0, event_rate_window = 10, event_rate_limit = 2, attachment_max_size = 100,
      max_message_size = 1000, read_only = False, whitelisting = False\<rparr>"

definition sample_names :: "(string \<times> Command) list" where
  "sample_names =
     [(''REQ'', REQ), (''EVENT'', EVENT), (''CLOSE'', CLOSE), (''COUNT'', COUNT), (''EOSE'', EOSE),
      (''NOTICE'', NOTICE), (''AUTH'', AUTH), (''OK'', OK), (''FILE'', FILE), (''RETRIEVE'', RETRIEVE)]"

definition event_message :: json where
  "event_message = JArray [JString ''EVENT'', toStructured json_ref sample_event]"

definition req_message :: json where
  "req_message = JArray [JString ''REQ'', JString ''sub'', JObject [(''kinds'', JArray [JNumber 1])]]"

definition bare_req :: json where
  "bare_req = JArray [JString ''REQ'']"

definition sample_env :: "(json, mem_db, mem_rs, unit, unit) env" where
  "sample_env =
     \<lparr>e_options = sample_options, e_json = json_ref,
      e_from_json = map_of [(''event'', event_message), (''req'', req_message), (''bare'', bare_req)],
      e_command = (\<lambda>s. case map_of sample_names s of Some c \<Rightarrow> c | None \<Rightarrow> Cmd_unknown),
      e_name = (\<lambda>c. case map_of (map (\<lambda>(s, c). (c, s)) sample_names) c of Some s \<Rightarrow> s | None \<Rightarrow> []),
      e_sha = (\<lambda>_. replicate 32 3), e_hash = (\<lambda>_. 0),
      e_secp = \<lparr>xonly_pubkey_parse = (\<lambda>_. Some ()), schnorrsig_verify = (\<lambda>_ _ _. True),
        keypair_create = (\<lambda>_. None), keypair_xonly_pub = (\<lambda>_. None),
        xonly_pubkey_serialize = (\<lambda>_. None), schnorrsig_sign = (\<lambda>_ _. None)\<rparr>,
      e_text = ascii_text, e_db = mem_ops, e_search = mem_search (\<lambda>_. 0),
      e_sort = (\<lambda>cs. rev (sort_key snd cs)), e_base64url = (\<lambda>_. ''id''), e_extension = (\<lambda>_. None)\<rparr>"

definition sample_moment :: moment where
  "sample_moment = \<lparr>now = 0, mem = (\<lambda>_ _. 0), filter_mem = (\<lambda>_ _ _ _. 0), writes = (\<lambda>_. True)\<rparr>"

definition sample_peer :: "json peer" where
  "sample_peer = (new_peer sample_env 1 ''ws://relay'')\<lparr>p_auth_nonce := ''nonce''\<rparr>"

lemma sample_env_simps [simp]:
  "e_options sample_env = sample_options" "e_json sample_env = json_ref"
  "e_sha sample_env = (\<lambda>_. replicate 32 3)" "e_hash sample_env = (\<lambda>_. 0)"
  "e_text sample_env = ascii_text" "e_db sample_env = mem_ops" "e_search sample_env = mem_search (\<lambda>_. 0)"
  "e_sort sample_env = (\<lambda>cs. rev (sort_key snd cs))" "mem sample_moment = (\<lambda>_ _. 0)" "now sample_moment = 0"
  "writes sample_moment = (\<lambda>_. True)" "filter_mem sample_moment = (\<lambda>_ _ _ _. 0)"
  by (simp_all add: sample_env_def sample_moment_def)

lemma sample_peer_simps [simp]:
  "p_no_limit sample_peer = False" "p_authent sample_peer = False" "p_out sample_peer = []"
  "p_subscriptions sample_peer = []" "p_file_event sample_peer = None" "p_self sample_peer = 1"
  "p_auth_nonce sample_peer = ''nonce''" "p_url sample_peer = ''ws://relay''"
  "p_rate_limiter sample_peer = \<lparr>window_size = 10, window_limit = 2, queue = []\<rparr>"
  by (simp_all add: sample_peer_def new_peer_def sample_env_def sample_options_def RateLimiter_def)

lemma sample_verify [simp]: "event_verify (e_secp sample_env) ev"
  by (simp add: event_verify_def st_verify_def sample_env_def)

lemma json_ref_item [simp]:
  "j_item json_ref (JArray xs) i = (if i < length xs then xs ! i else Undefined)"
  by (simp add: json_ref_def)

lemma event_message_item [simp]: "j_item json_ref event_message 1 = toStructured json_ref sample_event"
  by (simp add: event_message_def)

lemma text_note_stored [simp]: "\<not> is_ephemeral 1"
  by (simp add: is_ephemeral_def kind_defs word_le_nat_alt)

lemma sample_recordset_laws: "recordset_laws (e_search sample_env)"
  by (simp add: mem_recordset_laws)

lemma sample_db_laws: "db_laws (e_db sample_env) mem_ok"
  by (simp add: mem_laws)

end
