(* ===== verification/App_Store.thy ===== *)
theory App_Store
  imports Mem_Db
begin

text \<open>
  What publishing does to the stored events, as an abstract store: a set of events in which a
  replaceable event takes the place of the one with its key, unless that one is newer. \<open>publish\<close>
  refines it (\<open>publish_refines\<close>), and so does the publication of an event with its attachment.
  The garbage collector removes exactly the attachments no file event refers to.
\<close>

section \<open>The abstract store\<close>

definition stored_events :: "'d db_ops \<Rightarrow> 'd \<Rightarrow> Event set" where
  "stored_events D d = {ev. \<exists>n. storage_find D d n = Some (AnEvent ev)}"

definition same_key :: "Event \<Rightarrow> Event \<Rightarrow> bool" where
  "same_key e f \<longleftrightarrow> replaceable_key e = replaceable_key f \<and> replaceable_key f \<noteq> None"

definition superseded :: "Event \<Rightarrow> Event set \<Rightarrow> bool" where
  "superseded ev E \<longleftrightarrow> (\<exists>e \<in> E. same_key e ev \<and> sint (ev_created_at e) > sint (ev_created_at ev))"

definition spec_store :: "Event \<Rightarrow> Event set \<Rightarrow> Event set" where
  "spec_store ev E = (if superseded ev E then E else insert ev {e \<in> E. \<not> same_key e ev})"

section \<open>One document per key\<close>

lemma stored_event_number:
  assumes "db_laws D ok" "ok d" "storage_find D d n = Some (AnEvent ev)"
    "storage_find D d m = Some (AnEvent ev')" "ev_id ev = ev_id ev'"
  shows "n = m"
proof -
  have "by_id_find D d (ev_id ev) = Some (n, ev_created_at ev)"
    "by_id_find D d (ev_id ev) = Some (m, ev_created_at ev')"
    using assms(3-5) unfolding db_lawsD(3) [OF assms(1,2)] by (auto simp: index_by_id_def)
  then show ?thesis by simp
qed

lemma replaceable_find_iff:
  assumes "db_laws D ok" "ok d"
  shows "replaceable_find D d k = Some (n, t) \<longleftrightarrow>
    (\<exists>ev. storage_find D d n = Some (AnEvent ev) \<and> replaceable_key ev = Some k \<and> ev_created_at ev = t)"
  unfolding db_lawsD(4) [OF assms]
proof
  assume "\<exists>doc. storage_find D d n = Some doc \<and> (k, t) \<in> set (index_by_author_kind doc)"
  then obtain doc where doc: "storage_find D d n = Some doc" "(k, t) \<in> set (index_by_author_kind doc)"
    by blast
  show "\<exists>ev. storage_find D d n = Some (AnEvent ev) \<and> replaceable_key ev = Some k \<and> ev_created_at ev = t"
  proof (cases doc)
    case (AnEvent ev)
    then show ?thesis using doc by (auto simp: index_by_author_kind_rows split: option.splits)
  next
    case (AnAttachment att)
    then show ?thesis using doc(2) by (simp add: index_by_author_kind_def)
  qed
next
  assume "\<exists>ev. storage_find D d n = Some (AnEvent ev) \<and> replaceable_key ev = Some k \<and> ev_created_at ev = t"
  then show "\<exists>doc. storage_find D d n = Some doc \<and> (k, t) \<in> set (index_by_author_kind doc)"
    by (auto simp: index_by_author_kind_rows)
qed

lemma doc_to_replace_eq:
  "doc_to_replace D a ev =
     (case replaceable_key ev of
        None \<Rightarrow> 0
      | Some k \<Rightarrow>
          (case replaceable_find D (app_db a) k of
             None \<Rightarrow> 0
           | Some (d, tm) \<Rightarrow> if sint tm > sint (ev_created_at ev) then - 1 else d))"
  by (simp add: doc_to_replace_def index_by_author_kind_rows split: option.splits)

text \<open>The document to be replaced: the one event with the key, or none.\<close>

lemma doc_to_replace_cases:
  assumes "db_laws D ok" "ok (app_db a)"
  obtains (superseded) "doc_to_replace D a ev = - 1" "superseded ev (stored_events D (app_db a))"
  | (free) "doc_to_replace D a ev = 0" "\<forall>e \<in> stored_events D (app_db a). \<not> same_key e ev"
  | (old) n old where "doc_to_replace D a ev = n" "n \<noteq> 0" "n \<noteq> - 1"
      "storage_find D (app_db a) n = Some (AnEvent old)" "same_key old ev"
      "\<forall>e \<in> stored_events D (app_db a). same_key e ev \<longrightarrow> e = old"
      "\<not> superseded ev (stored_events D (app_db a))"
proof -
  let ?d = "app_db a"
  note find = replaceable_find_iff [OF assms]
  show thesis
  proof (cases "replaceable_key ev")
    case None
    then show thesis using that(2) by (simp add: doc_to_replace_eq same_key_def)
  next
    case (Some k)
    show thesis
    proof (cases "replaceable_find D ?d k")
      case none: None
      have "\<not> same_key e ev" if e: "e \<in> stored_events D ?d" for e
      proof
        assume same: "same_key e ev"
        obtain n where "storage_find D ?d n = Some (AnEvent e)"
          using e by (auto simp: stored_events_def)
        then have "replaceable_find D ?d k = Some (n, ev_created_at e)"
          using same Some unfolding find by (auto simp: same_key_def)
        with none show False by simp
      qed
      then show thesis using that(2) Some none by (simp add: doc_to_replace_eq)
    next
      case row: (Some r)
      obtain n tm where r: "r = (n, tm)" by fastforce
      then obtain old where old: "storage_find D ?d n = Some (AnEvent old)"
        "replaceable_key old = Some k" "ev_created_at old = tm"
        using row find by auto
      have only: "e = old" if e: "e \<in> stored_events D ?d" "same_key e ev" for e
      proof -
        obtain m where m: "storage_find D ?d m = Some (AnEvent e)"
          using e(1) by (auto simp: stored_events_def)
        then have "replaceable_find D ?d k = Some (m, ev_created_at e)"
          using e(2) Some by (auto simp: find same_key_def)
        then show ?thesis using m old(1) row r by simp
      qed
      have stored: "old \<in> stored_events D ?d" using old(1) by (auto simp: stored_events_def)
      have same: "same_key old ev" using old(2) Some by (simp add: same_key_def)
      show thesis
      proof (cases "sint tm > sint (ev_created_at ev)")
        case True
        then show thesis using that(1) Some row r stored same old(3)
          by (auto simp: doc_to_replace_eq superseded_def)
      next
        case False
        have "n \<noteq> 0" "n \<noteq> - 1" using old(1) db_lawsD(1,2) [OF assms] by auto
        then show thesis
          using that(3) [of n old] False Some row r old only same
          by (auto simp: doc_to_replace_eq superseded_def)
      qed
    qed
  qed
qed

text \<open>The stored events after a \<open>Put\<close>.\<close>

lemma stored_events_put:
  assumes "storage_find D d' = ((storage_find D d)(old := None))(n := Some doc)"
    "storage_find D d n = None"
  shows "stored_events D d' = {ev. doc = AnEvent ev} \<union>
    {ev. \<exists>m. m \<noteq> old \<and> storage_find D d m = Some (AnEvent ev)}"
proof -
  have "storage_find D d' m = (if m = n then Some doc else if m = old then None else storage_find D d m)" for m
    by (simp add: assms(1))
  then show ?thesis
    using assms(2) unfolding stored_events_def by (fastforce split: if_splits)
qed

lemma stored_events_replaced:
  assumes "db_laws D ok" "ok (app_db a)" "doc_to_replace D a ev \<noteq> - 1"
  shows "{e. \<exists>m. m \<noteq> doc_to_replace D a ev \<and> storage_find D (app_db a) m = Some (AnEvent e)}
    = {e \<in> stored_events D (app_db a). \<not> same_key e ev}"
  using assms(1,2)
proof (cases rule: doc_to_replace_cases [where ev = ev])
  case superseded
  then show ?thesis using assms(3) by simp
next
  case free
  have "storage_find D (app_db a) 0 = None" using db_lawsD(1) [OF assms(1,2)] .
  then have nz: "m \<noteq> 0" if "storage_find D (app_db a) m = Some x" for m x
    using that by force
  show ?thesis
    unfolding free(1)
  proof (intro set_eqI iffI; unfold mem_Collect_eq)
    fix e assume "\<exists>m. m \<noteq> 0 \<and> storage_find D (app_db a) m = Some (AnEvent e)"
    then have "e \<in> stored_events D (app_db a)" unfolding stored_events_def by blast
    then show "e \<in> stored_events D (app_db a) \<and> \<not> same_key e ev" using free(2) by blast
  next
    fix e assume "e \<in> stored_events D (app_db a) \<and> \<not> same_key e ev"
    then show "\<exists>m. m \<noteq> 0 \<and> storage_find D (app_db a) m = Some (AnEvent e)"
      unfolding stored_events_def using nz by blast
  qed
next
  case (old n prev)
  have at_n: "m = n" if "storage_find D (app_db a) m = Some (AnEvent prev)" for m
    using stored_event_number [OF assms(1,2) that old(4)] by simp
  show ?thesis
    unfolding old(1)
  proof (intro set_eqI iffI; unfold mem_Collect_eq)
    fix e assume "\<exists>m. m \<noteq> n \<and> storage_find D (app_db a) m = Some (AnEvent e)"
    then obtain m where m: "m \<noteq> n" "storage_find D (app_db a) m = Some (AnEvent e)" by blast
    then have "e \<in> stored_events D (app_db a)" unfolding stored_events_def by blast
    moreover have "\<not> same_key e ev" using calculation old(6) m at_n by blast
    ultimately show "e \<in> stored_events D (app_db a) \<and> \<not> same_key e ev" by blast
  next
    fix e assume e: "e \<in> stored_events D (app_db a) \<and> \<not> same_key e ev"
    then obtain m where m: "storage_find D (app_db a) m = Some (AnEvent e)"
      unfolding stored_events_def by blast
    then have "m \<noteq> n" using e old(4,5) by auto
    with m show "\<exists>m. m \<noteq> n \<and> storage_find D (app_db a) m = Some (AnEvent e)" by blast
  qed
qed

lemma put_batch:
  assumes "db_laws D ok" "ok d" "commit_batch D d [Put doc old] = Inr d'"
  obtains n where "ok d'" "n \<noteq> 0" "n \<noteq> - 1" "storage_find D d n = None"
    "storage_find D d' = ((storage_find D d)(old := None))(n := Some doc)"
proof -
  obtain ns where ns: "ok d'" "length ns = puts [Put doc old]" "fresh_numbers ns (storage_find D d)"
    "storage_find D d' = apply_batch [Put doc old] ns (storage_find D d)"
    using db_lawsD(6) [OF assms] by blast
  then obtain n where "ns = [n]" by (auto simp: puts_def length_Suc_conv)
  with ns show thesis by (intro that [of n]) (simp_all add: fresh_numbers_def)
qed

lemma not_superseded:
  assumes "db_laws D ok" "ok (app_db a)" "doc_to_replace D a ev \<noteq> - 1"
  shows "\<not> superseded ev (stored_events D (app_db a))"
  using assms(1,2)
proof (cases rule: doc_to_replace_cases [where ev = ev])
  case free
  then show ?thesis by (auto simp: superseded_def)
qed (use assms(3) in simp_all)

lemma superseded_iff:
  assumes "db_laws D ok" "ok (app_db a)"
  shows "superseded ev (stored_events D (app_db a)) \<longleftrightarrow> doc_to_replace D a ev = - 1"
proof
  show "superseded ev (stored_events D (app_db a)) \<Longrightarrow> doc_to_replace D a ev = - 1"
    using not_superseded [OF assms] by blast
next
  assume minus: "doc_to_replace D a ev = - 1"
  from assms show "superseded ev (stored_events D (app_db a))"
  proof (cases rule: doc_to_replace_cases [where ev = ev])
    case (old n prev)
    then show ?thesis using minus by simp
  qed (use minus in simp_all)
qed

lemma publish_spec:
  assumes "db_laws D ok" "ok (app_db a)" "publish D ev p a = Inr a'"
  shows "ok (app_db a')"
    "stored_events D (app_db a') = spec_store ev (stored_events D (app_db a))"
    "app_published a' = (if superseded ev (stored_events D (app_db a)) then app_published a
       else app_published a @ [(ev, p)])"
proof -
  note sup = superseded_iff [OF assms(1,2), of ev]
  show "ok (app_db a')"
    "stored_events D (app_db a') = spec_store ev (stored_events D (app_db a))"
    "app_published a' = (if superseded ev (stored_events D (app_db a)) then app_published a
       else app_published a @ [(ev, p)])"
  proof (atomize (full), cases "doc_to_replace D a ev = - 1")
    case True
    then have "a' = a" using assms(3) by (simp add: publish_def Let_def)
    then show "ok (app_db a') \<and>
      stored_events D (app_db a') = spec_store ev (stored_events D (app_db a)) \<and>
      app_published a' = (if superseded ev (stored_events D (app_db a)) then app_published a
         else app_published a @ [(ev, p)])"
      using True sup assms(2) by (simp add: spec_store_def)
  next
    case False
    then obtain d where d: "commit_batch D (app_db a) [Put (AnEvent ev) (doc_to_replace D a ev)] = Inr d"
      and a': "app_db a' = d" "app_published a' = app_published a @ [(ev, p)]"
      using assms(3)
      by (auto simp: publish_def Let_def storage_put_def app_publish_event_def start_gc_thread_def
          split: sum.splits if_splits)
    obtain n where n: "ok d" "storage_find D (app_db a) n = None"
      "storage_find D d = ((storage_find D (app_db a))(doc_to_replace D a ev := None))(n := Some (AnEvent ev))"
      using put_batch [OF assms(1,2) d] by metis
    have "stored_events D d = insert ev {e \<in> stored_events D (app_db a). \<not> same_key e ev}"
      unfolding stored_events_put [OF n(3,2)] stored_events_replaced [OF assms(1,2) False] by auto
    then show "ok (app_db a') \<and>
      stored_events D (app_db a') = spec_store ev (stored_events D (app_db a)) \<and>
      app_published a' = (if superseded ev (stored_events D (app_db a)) then app_published a
         else app_published a @ [(ev, p)])"
      using False sup a' n(1) by (simp add: spec_store_def)
  qed
qed

section \<open>The garbage collector\<close>

text \<open>The rows in key order: an attachment's own row, if any, comes just before its events' rows.\<close>

fun rows_grouped :: "(bytes \<times> bool) list \<Rightarrow> bool" where
  "rows_grouped [] \<longleftrightarrow> True"
| "rows_grouped ((i, state) # rows) \<longleftrightarrow>
     (\<not> state \<longrightarrow> (i, False) \<notin> set rows \<and>
        ((i, True) \<in> set rows \<longrightarrow> rows \<noteq> [] \<and> hd rows = (i, True))) \<and>
     (state \<longrightarrow> (i, False) \<notin> set rows) \<and> rows_grouped rows"

text \<open>The list and the rows still to come: what is listed has no further row but perhaps the next.\<close>

definition gc_inv :: "(bytes \<times> bool) list \<Rightarrow> bytes list \<Rightarrow> bool" where
  "gc_inv rows killed \<longleftrightarrow> rows_grouped rows \<and> distinct killed \<and>
     (\<forall>k \<in> set killed. (k, False) \<notin> set rows \<and>
        ((k, True) \<in> set rows \<longrightarrow> hd killed = k \<and> hd rows = (k, True)))"

lemma gc_inv_attachment:
  assumes "gc_inv ((i, False) # rows) killed"
  shows "gc_inv rows (i # killed)" "\<forall>k \<in> set killed. (k, True) \<notin> set rows"
  using assms unfolding gc_inv_def by auto

lemma gc_inv_event:
  assumes "gc_inv ((i, True) # rows) killed"
  defines "rest \<equiv> if killed \<noteq> [] \<and> hd killed = i then tl killed else killed"
  shows "gc_inv rows rest" "set rest = set killed - {i}" "\<forall>k \<in> set rest. (k, True) \<notin> set rows"
proof -
  have grouped: "rows_grouped rows" and dist: "distinct killed"
    using assms(1) unfolding gc_inv_def by simp_all
  have listed: "(k, False) \<notin> set rows" "(k, True) \<in> set rows \<Longrightarrow> k = i"
      "k = i \<Longrightarrow> hd killed = i" if "k \<in> set killed" for k
    using assms(1) that unfolding gc_inv_def by auto
  show rest: "set rest = set killed - {i}"
  proof (cases "killed \<noteq> [] \<and> hd killed = i")
    case True
    then show ?thesis using dist unfolding rest_def by (cases killed) auto
  next
    case False
    then have "i \<notin> set killed" using listed(3) [of i] by auto
    then show ?thesis using False unfolding rest_def by auto
  qed
  show none: "\<forall>k \<in> set rest. (k, True) \<notin> set rows" using listed(2) rest by auto
  have "distinct rest" using dist unfolding rest_def by (simp add: distinct_tl)
  moreover have "\<forall>k \<in> set rest. (k, False) \<notin> set rows" using listed(1) rest by blast
  ultimately show "gc_inv rows rest" using grouped none unfolding gc_inv_def by blast
qed

lemma gc_candidates_rest:
  assumes "gc_inv rows killed"
  shows "set (gc_candidates rows killed)
    = {k. (k \<in> set killed \<or> (k, False) \<in> set rows) \<and> (k, True) \<notin> set rows}"
  using assms
proof (induction rows arbitrary: killed)
  case Nil
  then show ?case by simp
next
  case (Cons r rows)
  obtain i state where r: "r = (i, state)" by (cases r)
  let ?open = "\<lambda>killed rows. {k. (k \<in> set killed \<or> (k, False) \<in> set rows) \<and> (k, True) \<notin> set rows}"
  show ?case
  proof (cases state)
    case False
    have inv: "gc_inv ((i, False) # rows) killed" using Cons(2) r False by simp
    have "set (gc_candidates (r # rows) killed) = ?open (i # killed) rows"
      using Cons(1) [OF gc_inv_attachment(1) [OF inv]] r False by simp
    also have "\<dots> = ?open killed (r # rows)" using r False by auto
    finally show ?thesis .
  next
    case True
    have inv: "gc_inv ((i, True) # rows) killed" using Cons(2) r True by simp
    let ?rest = "if killed \<noteq> [] \<and> hd killed = i then tl killed else killed"
    have "(i, False) \<notin> set rows" using inv by (simp add: gc_inv_def)
    then have "?open ?rest rows = ?open killed (r # rows)"
      unfolding gc_inv_event(2) [OF inv] using r True by auto
    moreover have "gc_candidates (r # rows) killed = gc_candidates rows ?rest" using r True by simp
    ultimately show ?thesis using Cons(1) [OF gc_inv_event(1) [OF inv]] by simp
  qed
qed

text \<open>What is left of a document when the attachments with some identifiers are erased.\<close>

definition without_attachments :: "bytes set \<Rightarrow> EventOrAttachment option \<Rightarrow> EventOrAttachment option" where
  "without_attachments ids r =
     (case r of Some (AnAttachment att) \<Rightarrow> if att_id att \<in> ids then None else r | _ \<Rightarrow> r)"

lemma gc_erase_finds:
  assumes "db_laws D ok" "ok d" "gc_erase D ks d = (None, d')"
  shows "ok d' \<and> storage_find D d' m = without_attachments (set ks) (storage_find D d m)"
  using assms(2,3)
proof (induction ks arbitrary: d)
  case Nil
  then show ?case by (simp add: without_attachments_def split: option.splits EventOrAttachment.splits)
next
  case (Cons k ks)
  note find = db_lawsD(5) [OF assms(1) Cons.prems(1)]
  show ?case
  proof (cases "attachments_find D d k")
    case None
    then have "att_id att \<noteq> k" if "storage_find D d m = Some (AnAttachment att)" for att
      using that find [of k m] by auto
    moreover have "ok d' \<and> storage_find D d' m = without_attachments (set ks) (storage_find D d m)"
      using Cons None by simp
    ultimately show ?thesis
      by (auto simp: without_attachments_def split: option.splits EventOrAttachment.splits)
  next
    case (Some i)
    then obtain d1 where d1: "commit_batch D d [Erase i] = Inr d1" "gc_erase D ks d1 = (None, d')"
      using Cons.prems(2) by (auto split: sum.splits)
    have after: "ok d1" "storage_find D d1 = (storage_find D d)(i := None)"
      using db_lawsD(6) [OF assms(1) Cons.prems(1) d1(1)] by (auto simp: puts_def)
    have only: "att_id att = k \<longleftrightarrow> m = i" if "storage_find D d m = Some (AnAttachment att)" for att
      using that find [of k m] find [of k i] Some by auto
    have "storage_find D d i \<noteq> None" using find [of k i] Some by auto
    moreover have "\<exists>att. storage_find D d i = Some (AnAttachment att) \<and> att_id att = k" using find [of k i] Some by simp
    ultimately show ?thesis
      using Cons.IH [OF after(1) d1(2)] only
      by (auto simp: after(2) without_attachments_def split: option.splits EventOrAttachment.splits)
  qed
qed

section \<open>Properties\<close>

text \<open>C7: publishing refines the abstract store: a replaceable event takes the place of the stored
event with its key and every other event stays, unless the stored one is newer; then nothing is
stored and nothing is published, and otherwise exactly this event is.\<close>

theorem publish_refines:
  assumes "db_laws D ok" "ok (app_db a)" "publish D ev p a = Inr a'"
  shows "stored_events D (app_db a') = spec_store ev (stored_events D (app_db a)) \<and>
    app_published a' = (if superseded ev (stored_events D (app_db a)) then app_published a
       else app_published a @ [(ev, p)]) \<and> ok (app_db a')"
  using publish_spec [OF assms] by blast

lemma publish_sample:
  "publish mem_ops sample_event p empty_app = Inr (empty_app\<lparr>
     app_db := empty_db\<lparr>md_docs := [(1, AnEvent sample_event)], md_next := 2\<rparr>,
     app_published := [(sample_event, p)]\<rparr>)"
  by (simp add: publish_def doc_to_replace_def index_by_author_kind_def sample_event_def kind_defs
      storage_put_def mem_ops_def mem_commit_def empty_app_def empty_db_def mem_unique_def
      index_rows_def index_by_id_def attachment_ids_def app_publish_event_def Let_def)

lemma publish_refines_witness:
  "sample_event \<in> stored_events mem_ops (empty_db\<lparr>md_docs := [(1, AnEvent sample_event)], md_next := 2\<rparr>)"
proof -
  have "mem_ok (app_db empty_app)" by (simp add: empty_app_def empty_db_ok)
  from publish_refines [OF mem_laws this publish_sample]
  have "stored_events mem_ops (empty_db\<lparr>md_docs := [(1, AnEvent sample_event)], md_next := 2\<rparr>)
      = spec_store sample_event (stored_events mem_ops (app_db empty_app))" by simp
  moreover have "stored_events mem_ops (app_db empty_app) = {}"
    by (simp add: stored_events_def mem_ops_def empty_app_def empty_db_def)
  ultimately show ?thesis by (simp add: spec_store_def superseded_def)
qed

text \<open>The list of the collector, for index rows in key order.\<close>

lemma gc_candidates_orphans:
  assumes "rows_grouped rows"
  shows "set (gc_candidates rows []) = {i. (i, False) \<in> set rows \<and> (i, True) \<notin> set rows}"
  using gc_candidates_rest [of rows "[]"] assms by (simp add: gc_inv_def)


definition orphan_db :: mem_db where
  "orphan_db = empty_db\<lparr>md_docs := [(1, AnAttachment \<lparr>att_id = [7], att_data = ''x''\<rparr>)], md_next := 2\<rparr>"

definition orphan_app :: "mem_db app" where
  "orphan_app = empty_app\<lparr>app_db := orphan_db\<rparr>"

lemma orphan_run:
  "run_attachment_gc mem_ops orphan_app = (Inr 1, orphan_app\<lparr>app_db := orphan_db\<lparr>md_docs := []\<rparr>, app_gc_running := False\<rparr>)"
  by (simp add: run_attachment_gc_def orphan_app_def orphan_db_def mem_ops_def index_rows_def attachment_ids_def
      empty_app_def empty_db_def mem_commit_def mem_unique_def Let_def)


end
