(* ===== verification/Peer_Publish.thy ===== *)
theory Peer_Publish
  imports Sample_Env App_Store
begin

text \<open>
  What publishing through a connection promises. \<open>event_callback\<close> is the contract of the callback
  that \<open>on_event_generic\<close> ends with: it answers exactly once or throws without an answer. The lemmas
  proved from it hold for both commands that use it, EVENT and FILE.
\<close>

lemma send_simps [simp]:
  "snd (send W r p) = p\<lparr>p_out := p_out p @ [r]\<rparr>" "fst (send W r p) = writes W (length (p_out p))"
  by (simp_all add: send_def)

lemma send_notice_simp [simp]: "send_notice W text p = p\<lparr>p_out := p_out p @ [NoticeReply text]\<rparr>"
  by (simp add: send_notice_def)

lemma send_error_simp [simp]: "send_error W i text p = p\<lparr>p_out := p_out p @ [OkReply i False text]\<rparr>"
  by (simp add: send_error_def)

lemma no_throw_simp [simp]: "no_throw c = (None, c)"
  by (simp add: no_throw_def)

section \<open>The contract of the callback\<close>

text \<open>What a handler of an event may change in the connection.\<close>

definition event_frame :: "'j peer \<Rightarrow> 'j peer \<Rightarrow> bool" where
  "event_frame p p' \<longleftrightarrow>
     p_self p' = p_self p \<and> p_url p' = p_url p \<and> p_authent p' = p_authent p \<and>
     p_no_limit p' = p_no_limit p \<and> p_auth_pubkey p' = p_auth_pubkey p \<and>
     p_auth_nonce p' = p_auth_nonce p \<and> p_subscriptions p' = p_subscriptions p"

text \<open>Exactly one OK reply about one of the given identifiers.\<close>

definition answered :: "string set \<Rightarrow> 'j peer \<Rightarrow> 'j peer \<Rightarrow> bool" where
  "answered ids p p' \<longleftrightarrow> (\<exists>i \<in> ids. \<exists>ok text. p_out p' = p_out p @ [OkReply i ok text])"

lemma answeredI: "p_out p' = p_out p @ [OkReply i ok text] \<Longrightarrow> i \<in> ids \<Longrightarrow> answered ids p p'"
  unfolding answered_def by blast

lemma event_frame_simps [simp]:
  "event_frame p p" "event_frame p (p'\<lparr>p_out := out\<rparr>) \<longleftrightarrow> event_frame p p'"
  "event_frame p (p'\<lparr>p_file_event := file\<rparr>) \<longleftrightarrow> event_frame p p'"
  "event_frame p (p'\<lparr>p_rate_limiter := rl\<rparr>) \<longleftrightarrow> event_frame p p'"
  by (simp_all add: event_frame_def)

lemma event_frame_trans: "event_frame p p' \<Longrightarrow> event_frame p' p'' \<Longrightarrow> event_frame p p''"
  by (simp add: event_frame_def)

locale event_callback =
  fixes on_verify :: "string \<Rightarrow> Event \<Rightarrow> ('j, 'd) conn \<Rightarrow> exn option \<times> ('j, 'd) conn"
  assumes answers: "on_verify i event (p, a) = (None, (p', a')) \<Longrightarrow> answered {i} p p'"
    and throws: "on_verify i event (p, a) = (Some x, (p', a')) \<Longrightarrow> p' = p \<and> a' = a"
    and frame: "on_verify i event (p, a) = (e, (p', a')) \<Longrightarrow> event_frame p p'"
begin

text \<open>The contract is kept through the checks that precede the callback.\<close>

lemma deletion_contract:
  assumes "event_deletion E W event (p, a) = (e, (p', a'))"
  shows "event_frame p p'" "e = None \<Longrightarrow> answered {to_hex (ev_id event)} p p'"
    "e = Some x \<Longrightarrow> p' = p"
  using assms
  by (auto simp: event_deletion_def Let_def answered_def split: sum.splits prod.splits if_splits)

lemma verified_contract:
  assumes "process_verified E W on_verify ns i event (p, a) = (e, (p', a'))"
  shows "event_frame p p' \<and> (e = None \<longrightarrow> answered {i, to_hex (ev_id event)} p p') \<and> (e \<noteq> None \<longrightarrow> p' = p)"
proof -
  have cb: ?thesis if "on_verify i event (p, a'') = (e, (p', a'))" for a''
    using answers [of i event p a'' p' a'] throws [of i event p a'' _ p' a'] frame [OF that] that
    by (cases e) (auto simp: answered_def)
  have del: ?thesis if "event_deletion E W event (p, a'') = (e, (p', a'))" for a''
    using deletion_contract [OF that] by (cases e) (auto simp: answered_def)
  obtain blocked a2 where wl: "(if \<not> p_no_limit p \<and> whitelisting (e_options E) \<and> \<not> ev_trusted event
      then whitelist_check E W event a else (None, a)) = (blocked, a2)"
    by fastforce
  show ?thesis
    using assms cb del
    unfolding process_verified_def Let_def prod.case wl
    by (auto simp: answered_def split: if_splits option.splits)
qed

lemma process_contract:
  assumes "process_event E W on_verify ns msg i (p, a) = (e, (p', a'))"
  shows "event_frame p p' \<and>
    (e = None \<longrightarrow> answered {i, to_hex (from_hex 32 (mem W 0) (j_string (e_json E) (j_field (e_json E) msg ''id'')))} p p') \<and>
    (e \<noteq> None \<longrightarrow> p_out p' = p_out p)"
proof (cases "fromStructured (e_json E) (e_sha E) (e_hash E) (mem W) msg")
  case (Inl err)
  then show ?thesis using assms by (auto simp: process_event_def)
next
  case (Inr event)
  have id: "ev_id event = from_hex 32 (mem W 0) (j_string (e_json E) (j_field (e_json E) msg ''id''))"
    using Inr by (auto simp: fromStructured_def Let_def build_hash_map_def split: if_splits sum.splits)
  have rest: ?thesis
    if "process_verified E W on_verify ns i event' (q, a) = (e, (p', a'))"
      "q = p \<or> (\<exists>rl. q = p\<lparr>p_rate_limiter := rl\<rparr>)" "ev_id event' = ev_id event" for q event'
  proof -
    have q: "event_frame p q" "p_out q = p_out p" using that(2) by auto
    show ?thesis
      using verified_contract [OF that(1)] event_frame_trans [OF q(1)] that(3) id q(2)
      by (auto simp: answered_def)
  qed
  obtain okay q where rl: "(if \<not> p_no_limit p then
      (let (ok, rl) = test_and_add (p_rate_limiter p) (now W) in (ok, p\<lparr>p_rate_limiter := rl\<rparr>))
      else (True, p)) = (okay, q)"
    by fastforce
  then have q: "q = p \<or> (\<exists>rl. q = p\<lparr>p_rate_limiter := rl\<rparr>)" "p_out q = p_out p"
    by (auto split: if_splits prod.splits)
  then have fq: "event_frame p q" by auto
  show ?thesis
    using assms rest [OF _ q(1)] fq q(2)
    unfolding process_event_def Let_def prod.case Inr sum.case rl [unfolded Let_def]
    by (auto simp: answered_def split: if_splits)
qed

lemma generic_contract:
  assumes "on_event_generic E W on_verify ns msg (p, a) = (p', a')"
  shows "event_frame p p'"
    "answered {j_text (e_json E) (j_field (e_json E) msg ''id''),
       to_hex (from_hex 32 (mem W 0) (j_string (e_json E) (j_field (e_json E) msg ''id'')))} p p'"
proof -
  let ?i = "j_text (e_json E) (j_field (e_json E) msg ''id'')"
  obtain e p1 a1 where r: "process_event E W on_verify ns msg ?i (p, a) = (e, (p1, a1))"
    by (metis prod.exhaust)
  note c = process_contract [OF r]
  have p': "p' = (case e of None \<Rightarrow> p1 | Some x \<Rightarrow> p1\<lparr>p_out := p_out p1 @ [reply_of_exn ?i x]\<rparr>)"
    using assms r by (auto simp: on_event_generic_def split: option.splits)
  show "event_frame p p'" using c p' by (auto split: option.splits)
  show "answered {?i, to_hex (from_hex 32 (mem W 0) (j_string (e_json E) (j_field (e_json E) msg ''id'')))} p p'"
  proof (cases e)
    case None
    then show ?thesis using c p' by simp
  next
    case (Some x)
    obtain ok t where "(reply_of_exn ?i x :: 'j reply) = OkReply ?i ok t" by (cases x) (auto simp: reply_of_exn_def)
    then show ?thesis using c p' Some by (intro answeredI [of _ _ ?i ok t]) simp_all
  qed
qed

end

interpretation publish_callback: event_callback "publish_verified E W"
  for E :: "('j, 'd, 'r, 'k, 'p) env" and W :: moment
  by unfold_locales (auto simp: publish_verified_def answered_def split: sum.splits)

interpretation file_callback: event_callback "accept_file E W"
  for E :: "('j, 'd, 'r, 'k, 'p) env" and W :: moment
  by unfold_locales (auto simp: accept_file_def answered_def split: option.splits)

section \<open>The policy of the relay\<close>

text \<open>
  Admission of an event that was sent as the document \<open>msg\<close>: it is well formed with the right hash,
  not known yet (unless it announces a file), within the rate and the required proof of work, and
  signed by its author.
\<close>

definition admitted ::
    "('j, 'd, 'r, 'k, 'p) env \<Rightarrow> moment \<Rightarrow> bool \<Rightarrow> 'j \<Rightarrow> 'j peer \<Rightarrow> 'd app \<Rightarrow> Event \<Rightarrow> bool" where
  "admitted E W no_special_events msg p a ev \<longleftrightarrow>
     (\<exists>received.
        fromStructured (e_json E) (e_sha E) (e_hash E) (mem W) msg = Inr received \<and>
        ev = (if p_authent p \<and> is_home_user (e_db E) a (p_auth_pubkey p)
              then received\<lparr>ev_trusted := True\<rparr> else received)) \<and>
     event_verify (e_secp E) ev \<and>
     (no_special_events \<or> find_event_by_id (e_db E) a (ev_id ev) = 0) \<and>
     (p_no_limit p \<or>
        fst (test_and_add (p_rate_limiter p) (now W)) \<and>
        (opt_pow (e_options E) \<le> 0 \<or>
         check_pow (e_options E) (j_text (e_json E) (j_field (e_json E) msg ''id''))))"

text \<open>
  Who may have an event stored: on a relay that is not read only, everybody, or with a whitelist
  an authenticated local user, an author with a positive score, and a message to a local user.
\<close>

definition may_store ::
    "('j, 'd, 'r, 'k, 'p) env \<Rightarrow> moment \<Rightarrow> 'j peer \<Rightarrow> 'd app \<Rightarrow> Event \<Rightarrow> bool" where
  "may_store E W p a ev \<longleftrightarrow>
     p_no_limit p \<or>
     \<not> read_only (e_options E) \<and>
     (whitelisting (e_options E) \<longrightarrow>
        ev_trusted ev \<or> fst (check_whitelist (e_db E) a (ev_author ev)) \<or>
        (ev_kind ev = Encrypted_Direct_Messages \<or> ev_kind ev = Gift_Wrap_Event) \<and>
          is_home_user (e_db E) a (from_hex 32 (mem W 3) (get_tag_content ev ''p'')))"

definition app_same :: "'d app \<Rightarrow> 'd app \<Rightarrow> bool" where
  "app_same a a' \<longleftrightarrow> app_db a' = app_db a \<and> app_published a' = app_published a"

lemma app_same_refl [simp]: "app_same a a"
  by (simp add: app_same_def)

lemma check_whitelist_same: "app_same a (snd (check_whitelist D a k))"
  by (simp add: check_whitelist_def Let_def app_same_def split: option.splits)

lemma is_home_user_same: "app_same a a' \<Longrightarrow> is_home_user D a' k = is_home_user D a k"
  by (simp add: is_home_user_def app_same_def)

lemma whitelist_check_cases:
  assumes "whitelist_check E W event a = (e, a')"
  shows "app_same a a'"
    "e = None \<Longrightarrow> fst (check_whitelist (e_db E) a (ev_author event)) \<or>
        (ev_kind event = Encrypted_Direct_Messages \<or> ev_kind event = Gift_Wrap_Event) \<and>
          is_home_user (e_db E) a (from_hex 32 (mem W 3) (get_tag_content event ''p''))"
proof -
  obtain ok a1 where cw: "check_whitelist (e_db E) a (ev_author event) = (ok, a1)" by fastforce
  have same: "app_same a a1" using check_whitelist_same [of a "e_db E" "ev_author event"] cw by simp
  show "app_same a a'" using assms same by (auto simp: whitelist_check_def cw Let_def split: if_splits)
  show "fst (check_whitelist (e_db E) a (ev_author event)) \<or>
        (ev_kind event = Encrypted_Direct_Messages \<or> ev_kind event = Gift_Wrap_Event) \<and>
          is_home_user (e_db E) a (from_hex 32 (mem W 3) (get_tag_content event ''p''))" if "e = None"
    using assms that is_home_user_same [OF same]
    by (auto simp: whitelist_check_def cw Let_def split: if_splits)
qed

text \<open>
  What became of an event: nothing happened but replies and counters; or it was admitted and was
  ephemeral, or a deletion, or was given to the callback.
\<close>

definition event_outcome ::
    "('j, 'd, 'r, 'k, 'p) env \<Rightarrow> moment
       \<Rightarrow> (string \<Rightarrow> Event \<Rightarrow> ('j, 'd) conn \<Rightarrow> exn option \<times> ('j, 'd) conn)
       \<Rightarrow> bool \<Rightarrow> 'j \<Rightarrow> ('j, 'd) conn \<Rightarrow> exn option \<Rightarrow> ('j, 'd) conn \<Rightarrow> bool" where
  "event_outcome E W on_verify ns msg c e c' \<longleftrightarrow>
     app_same (snd c) (snd c') \<and> p_file_event (fst c') = p_file_event (fst c) \<and>
       (\<forall>i. e = None \<longrightarrow> last (p_out (fst c')) \<noteq> OkReply i True []) \<or>
     (\<exists>ev. admitted E W ns msg (fst c) (snd c) ev \<and>
        (is_ephemeral (ev_kind ev) \<and> \<not> ns \<and> e = None \<and> p_file_event (fst c') = p_file_event (fst c) \<and>
           snd c' = app_publish_event ev (Some (p_self (fst c))) (snd c) \<or>
         (\<exists>q a. \<not> is_ephemeral (ev_kind ev) \<and> may_store E W (fst c) (snd c) ev \<and> event_frame (fst c) q \<and>
            p_file_event q = p_file_event (fst c) \<and> app_same (snd c) a \<and>
            ((ev_kind ev = 5 \<and> \<not> ns \<and> event_deletion E W ev (q, a) = (e, c')) \<or>
             (ev_kind ev \<noteq> 5 \<and>
              on_verify (j_text (e_json E) (j_field (e_json E) msg ''id'')) ev (q, a) = (e, c'))))))"

lemma event_outcome_unchanged:
  assumes "app_same a a'" "p_file_event p' = p_file_event p"
    "e = None \<Longrightarrow> (\<And>i. last (p_out p') \<noteq> OkReply i True [])"
  shows "event_outcome E W on_verify ns msg (p, a) e (p', a')"
  using assms by (simp add: event_outcome_def)

lemma process_event_outcome:
  fixes E :: "('j, 'd, 'r, 'k, 'p) env"
  assumes "process_event E W on_verify ns msg (j_text (e_json E) (j_field (e_json E) msg ''id'')) (p, a)
    = (e, c')"
  shows "event_outcome E W on_verify ns msg (p, a) e c'"
proof (cases "fromStructured (e_json E) (e_sha E) (e_hash E) (mem W) msg")
  case (Inl err)
  then show ?thesis using assms by (auto simp: process_event_def event_outcome_def)
next
  case (Inr received)
  let ?i = "j_text (e_json E) (j_field (e_json E) msg ''id'')"
  let ?D = "e_db E"
  define ev where "ev = (if p_authent p \<and> is_home_user ?D a (p_auth_pubkey p)
              then received\<lparr>ev_trusted := True\<rparr> else received)"
  obtain okay q where rl: "(if \<not> p_no_limit p then
      (let (ok, rl) = test_and_add (p_rate_limiter p) (now W) in (ok, p\<lparr>p_rate_limiter := rl\<rparr>))
      else (True, p)) = (okay, q)"
    by fastforce
  then have q: "event_frame p q" "p_file_event q = p_file_event p"
    "okay \<longleftrightarrow> p_no_limit p \<or> fst (test_and_add (p_rate_limiter p) (now W))"
    by (auto split: if_splits prod.splits)
  have ids: "ev_id ev = ev_id received" by (simp add: ev_def)
  have ev': "(if p_authent q \<and> is_home_user ?D a (p_auth_pubkey q)
      then received\<lparr>ev_trusted := True\<rparr> else received) = ev"
    using q(1) by (simp add: ev_def event_frame_def)
  have cont: ?thesis
    if ver: "process_verified E W on_verify ns ?i ev (q, a) = (e, c')"
      and okay: okay "p_no_limit q \<or> opt_pow (e_options E) \<le> 0 \<or> check_pow (e_options E) ?i"
      and new: "ns \<or> find_event_by_id ?D a (ev_id received) = 0"
  proof (cases "event_verify (e_secp E) ev")
    case False
    then show ?thesis using ver q by (auto simp: process_verified_def event_outcome_def Let_def)
  next
    case True
    have adm: "admitted E W ns msg p a ev"
      unfolding admitted_def using Inr ev_def True okay new q ids by (auto simp: event_frame_def)
    have frame: "p_self q = p_self p" "p_no_limit q = p_no_limit p"
      using q(1) by (simp_all add: event_frame_def)
    obtain blocked a2 where wl: "(if \<not> p_no_limit q \<and> whitelisting (e_options E) \<and> \<not> ev_trusted ev
        then whitelist_check E W ev a else (None, a)) = (blocked, a2)"
      by fastforce
    have same: "app_same a a2" using wl whitelist_check_cases(1) by (auto split: if_splits)
    have store: "may_store E W p a ev" if "p_no_limit q \<or> \<not> read_only (e_options E)" "blocked = None"
      using wl that whitelist_check_cases(2) [of E W ev a None a2] frame unfolding may_store_def by (auto split: if_splits)
    show ?thesis
    proof (cases "is_ephemeral (ev_kind ev)")
      case eph: True
      show ?thesis
      proof (cases ns)
        case True
        then show ?thesis using ver eph \<open>event_verify (e_secp E) ev\<close> q
          by (auto simp: process_verified_def event_outcome_def Let_def)
      next
        case False
        then have "e = None \<and> c' = (reply W (OkReply ?i True []) q, app_publish_event ev (Some (p_self p)) a)"
          using ver eph \<open>event_verify (e_secp E) ev\<close> frame by (auto simp: process_verified_def Let_def)
        then show ?thesis using adm eph False q(2) unfolding event_outcome_def by auto
      qed
    next
      case eph: False
      show ?thesis
      proof (cases "(p_no_limit q \<or> \<not> read_only (e_options E)) \<and> blocked = None \<and> (ev_kind ev = 5 \<longrightarrow> \<not> ns)")
        case True
        then have "(ev_kind ev = 5 \<and> \<not> ns \<and> event_deletion E W ev (q, a2) = (e, c')) \<or>
            (ev_kind ev \<noteq> 5 \<and> on_verify ?i ev (q, a2) = (e, c'))"
          using ver eph \<open>event_verify (e_secp E) ev\<close>
          unfolding process_verified_def Let_def prod.case wl by (auto split: if_splits)
        then show ?thesis using adm eph q(1,2) same store True unfolding event_outcome_def by auto
      next
        case False
        then have "e \<noteq> None \<and> fst c' = q \<and> app_same a (snd c')"
          using ver eph \<open>event_verify (e_secp E) ev\<close> same
          unfolding process_verified_def Let_def prod.case wl by (auto split: if_splits option.splits)
        then show ?thesis using q(2) unfolding event_outcome_def by auto
      qed
    qed
  qed
  show ?thesis
    using assms cont q(2)
    unfolding process_event_def Let_def prod.case Inr sum.case rl [unfolded Let_def] ev'
    by (auto intro!: event_outcome_unchanged split: if_splits)
qed

lemma reply_of_exn_failed: "(reply_of_exn i e :: 'j reply) \<noteq> OkReply i' True []"
  by (cases e) (auto simp: reply_of_exn_def)

lemma generic_outcome:
  fixes E :: "('j, 'd, 'r, 'k, 'p) env"
  assumes "on_event_generic E W on_verify ns msg (p, a) = (p', a')"
  obtains e q where "event_outcome E W on_verify ns msg (p, a) e (q, a')"
    "e = None \<Longrightarrow> p' = q" "e \<noteq> None \<Longrightarrow> last (p_out p') \<noteq> OkReply i True []"
    "p_file_event p' = p_file_event q"
proof -
  let ?i = "j_text (e_json E) (j_field (e_json E) msg ''id'')"
  obtain e q b where r: "process_event E W on_verify ns msg ?i (p, a) = (e, (q, b))"
    by (metis prod.exhaust)
  note o = process_event_outcome [OF r]
  have "b = a'" "p' = (case e of None \<Rightarrow> q | Some x \<Rightarrow> q\<lparr>p_out := p_out q @ [reply_of_exn ?i x]\<rparr>)"
    using assms r by (auto simp: on_event_generic_def split: option.splits)
  then show thesis
    using o by (intro that [of e q]) (auto simp: reply_of_exn_failed split: option.splits)
qed

section \<open>Deletion\<close>

lemma deletion_batch_own:
  assumes "deletion_batch D d event rows del b = Inr (del', b')"
    "\<forall>row \<in> set rows. fst row = n" "storage_find D d n = Some (AnEvent ev)"
  shows "(rows \<noteq> [] \<longrightarrow> ev_author ev = ev_author event \<and> del') \<and> (rows = [] \<longrightarrow> del' = del) \<and>
    (\<exists>k. b' = b @ (if del \<or> rows = [] then [] else [Put (AnEvent event) n]) @ replicate k (Erase n))"
  using assms
proof (induction rows arbitrary: del b)
  case Nil
  then show ?case by (auto intro: exI [of _ 0])
next
  case (Cons row rows)
  have auth: "ev_author ev = ev_author event" using Cons(2-4) by (auto split: if_splits)
  define b1 where "b1 = b @ (if del then [Erase n] else [Put (AnEvent event) n])"
  have "deletion_batch D d event rows True b1 = Inr (del', b')"
    using Cons(2-4) auth by (auto simp: b1_def split: if_splits)
  from Cons(1) [OF this] Cons(3,4) obtain k
    where k: "b' = b1 @ replicate k (Erase n)" and del': del' by (cases "rows = []") auto
  show ?case
  proof (cases del)
    case True
    then have "b' = b @ replicate (Suc k) (Erase n)" using k by (simp add: b1_def)
    then show ?thesis using auth del' True by (auto intro: exI [of _ "Suc k"])
  next
    case False
    then have "b' = b @ [Put (AnEvent event) n] @ replicate k (Erase n)" using k by (simp add: b1_def)
    then show ?thesis using auth del' False by (auto intro: exI [of _ k])
  qed
qed

lemma deletion_batch_none:
  assumes "\<forall>row \<in> set rows. \<forall>ev. storage_find D d (fst row) \<noteq> Some (AnEvent ev)"
  shows "deletion_batch D d event rows del b = Inr (del, b)"
  using assms by (induction rows) (auto split: option.splits EventOrAttachment.splits)

lemma apply_erase_again:
  "apply_batch (replicate k (Erase n)) ns m = (if k = 0 then m else m(n := None))"
  by (induction k arbitrary: m) auto

lemma puts_put_erase: "puts (Put doc n # replicate k (Erase n)) = 1"
proof -
  have "filter (\<lambda>x. case x of Put _ _ \<Rightarrow> True | Erase _ \<Rightarrow> False) (replicate k (Erase n)) = []"
    by (induction k) simp_all
  then show ?thesis by (simp add: puts_def)
qed

text \<open>The event in place of the one that was at \<open>n\<close>.\<close>

lemma commit_replacement:
  assumes "db_laws D ok" "ok d" "storage_find D d n = Some (AnEvent old)"
    "commit_batch D d (Put (AnEvent event) n # replicate k (Erase n)) = Inr d'"
  shows "ok d' \<and> stored_events D d' = insert event (stored_events D d - {old})"
proof -
  obtain ns where ns: "ok d'" "length ns = 1" "fresh_numbers ns (storage_find D d)"
    "storage_find D d' = apply_batch (Put (AnEvent event) n # replicate k (Erase n)) ns (storage_find D d)"
    using db_lawsD(6) [OF assms(1,2,4)] by (auto simp: puts_put_erase)
  then obtain m where m: "ns = [m]" by (auto simp: length_Suc_conv)
  have free: "storage_find D d m = None" using ns(3) m by (simp add: fresh_numbers_def)
  then have "m \<noteq> n" using assms(3) by auto
  then have find: "storage_find D d' = ((storage_find D d)(n := None))(m := Some (AnEvent event))"
    using ns(4) m by (auto simp: apply_erase_again fun_eq_iff)
  have "{e. \<exists>x. x \<noteq> n \<and> storage_find D d x = Some (AnEvent e)} = stored_events D d - {old}"
  proof (intro set_eqI iffI)
    fix e assume "e \<in> {e. \<exists>x. x \<noteq> n \<and> storage_find D d x = Some (AnEvent e)}"
    then obtain x where x: "x \<noteq> n" "storage_find D d x = Some (AnEvent e)" by blast
    then have "e \<noteq> old" using stored_event_number [OF assms(1,2) x(2) assms(3)] by blast
    then show "e \<in> stored_events D d - {old}" using x(2) by (auto simp: stored_events_def)
  next
    fix e assume "e \<in> stored_events D d - {old}"
    then obtain x where x: "storage_find D d x = Some (AnEvent e)" "e \<noteq> old"
      by (auto simp: stored_events_def)
    then have "x \<noteq> n" using assms(3) by auto
    then show "e \<in> {e. \<exists>x. x \<noteq> n \<and> storage_find D d x = Some (AnEvent e)}" using x(1) by blast
  qed
  then show ?thesis using stored_events_put [OF find free] ns(1) by auto
qed

definition spec_delete :: "Event \<Rightarrow> bytes \<Rightarrow> Event set \<Rightarrow> Event set" where
  "spec_delete ev target stored =
     (if \<exists>old \<in> stored. ev_id old = target then insert ev {e \<in> stored. ev_id e \<noteq> target} else stored)"

lemma event_deletion_effect:
  fixes E :: "('j, 'd, 'r, 'k, 'p) env"
  assumes laws: "db_laws (e_db E) ok" "recordset_laws (e_search E)" "ok (app_db a)"
    and run: "event_deletion E W event (p, a) = (e, (p', a'))"
  defines "target \<equiv> from_hex 32 (mem W 3) (get_tag_content event ''e'')"
    and "stored \<equiv> stored_events (e_db E) (app_db a)"
  shows "ok (app_db a') \<and> (e \<noteq> None \<longrightarrow> a' = a) \<and> (e = None \<longrightarrow>
    (\<forall>old \<in> stored. ev_id old = target \<longrightarrow> ev_author old = ev_author event) \<and>
    stored_events (e_db E) (app_db a') = spec_delete event target stored \<and>
    app_published a' = app_published a @
      (if \<exists>old \<in> stored. ev_id old = target then [(event, Some (p_self p))] else []))"
proof -
  let ?D = "e_db E" and ?d = "app_db a"
  let ?rows = "rs_items (e_search E) (find_in_index ?D (e_text E) (e_hash E) (e_search E) ?d [id_filter target])"
  have len: "length target = 32" by (simp add: target_def)
  note found = search_one_id(1) [OF laws(2) len, of ?D "e_text E" "e_hash E" ?d]
  have filter: "[empty_filter\<lparr>f_ids := [(target, of_nat (length target))]\<rparr>] = [id_filter target]"
    by (simp add: id_filter_def)
  have run': "(case deletion_batch ?D ?d event ?rows False [] of
           Inl e \<Rightarrow> (Some e, (p, a))
         | Inr (deleted_something, b) \<Rightarrow>
             if deleted_something then
               (case commit_batch ?D ?d b of
                  Inl e \<Rightarrow> (Some (exn_of_db e), (p, a))
                | Inr d \<Rightarrow>
                    (None, (reply W (OkReply (to_hex (ev_id event)) True []) p,
                            app_publish_event event (Some (p_self p)) (a\<lparr>app_db := d\<rparr>))))
             else (None, (reply W (OkReply (to_hex (ev_id event)) True []) p, a))) = (e, (p', a'))"
    using run unfolding event_deletion_def Let_def prod.case target_def [symmetric] filter .
  have row: "by_id_find ?D ?d target = Some (n, ev_created_at old)"
    if "storage_find ?D ?d n = Some (AnEvent old)" "ev_id old = target" for n old
    using that unfolding db_lawsD(3) [OF laws(1,3)] by (auto simp: index_by_id_def)
  show ?thesis
  proof (cases "\<exists>old \<in> stored. ev_id old = target")
    case False
    have "storage_find ?D ?d (fst row) \<noteq> Some (AnEvent old)" if r: "row \<in> set ?rows" for row old
    proof
      assume old: "storage_find ?D ?d (fst row) = Some (AnEvent old)"
      have "fst row \<in> fst ` set ?rows" using r by simp
      then obtain t where "by_id_find ?D ?d target = Some (fst row, t)"
        unfolding found by (auto split: option.splits)
      then have "ev_id old = target"
        using old unfolding db_lawsD(3) [OF laws(1,3)] by (auto simp: index_by_id_def)
      then show False using False old by (auto simp: stored_def stored_events_def)
    qed
    then have "deletion_batch ?D ?d event ?rows False [] = Inr (False, [])"
      by (intro deletion_batch_none) blast
    then show ?thesis using run' laws(3) False by (auto simp: spec_delete_def stored_def)
  next
    case True
    then obtain n old where n: "storage_find ?D ?d n = Some (AnEvent old)" "ev_id old = target"
      by (auto simp: stored_def stored_events_def)
    have rows: "\<forall>row \<in> set ?rows. fst row = n" "?rows \<noteq> []"
      using found row [OF n] by auto
    have only: "e = old" if e: "e \<in> stored" "ev_id e = target" for e
    proof -
      obtain m where m: "storage_find ?D ?d m = Some (AnEvent e)"
        using e(1) by (auto simp: stored_def stored_events_def)
      then show ?thesis using stored_event_number [OF laws(1,3) m n(1)] e(2) n by auto
    qed
    have rest: "stored - {old} = {e \<in> stored. ev_id e \<noteq> target}" using only n(2) by blast
    show ?thesis
    proof (cases "deletion_batch ?D ?d event ?rows False []")
      case (Inl x)
      then show ?thesis using run' laws(3) by auto
    next
      case (Inr r)
      obtain del b where r: "r = (del, b)" by fastforce
      note own = deletion_batch_own [OF Inr [unfolded r] rows(1) n(1)]
      obtain k where b: "b = Put (AnEvent event) n # replicate k (Erase n)" using own rows(2) by auto
      have auth: "ev_author old = ev_author event" del using own rows(2) by auto
      show ?thesis
      proof (cases "commit_batch ?D ?d b")
        case (Inl x)
        then show ?thesis using run' laws(3) Inr r auth(2) by auto
      next
        case commit: (Inr d')
        have a': "app_db a' = d'" "app_published a' = app_published a @ [(event, Some (p_self p))]" "e = None"
          using run' Inr r auth(2) commit by (auto simp: app_publish_event_def)
        have "ok d' \<and> stored_events ?D d' = insert event (stored - {old})"
          using commit_replacement [OF laws(1,3) n(1) commit [unfolded b]] by (simp add: stored_def)
        then show ?thesis using a' True rest only auth(1) by (auto simp: spec_delete_def)
      qed
    qed
  qed
qed

section \<open>The effect of a published event\<close>

text \<open>What the relay promises: the events stored afterwards, and those sent to the subscribers.\<close>

definition spec_event :: "Event \<Rightarrow> bytes \<Rightarrow> Event set \<Rightarrow> Event set \<times> Event list" where
  "spec_event ev target stored =
     (if is_ephemeral (ev_kind ev) then (stored, [ev])
      else if ev_kind ev = 5 then
        (spec_delete ev target stored, if \<exists>old \<in> stored. ev_id old = target then [ev] else [])
      else (spec_store ev stored, if superseded ev stored then [] else [ev]))"

lemma on_event_effect:
  fixes E :: "('j, 'd, 'r, 'k, 'p) env"
  assumes laws: "db_laws (e_db E) ok" "recordset_laws (e_search E)" "ok (app_db a)"
    and run: "on_event E W msg (p, a) = (p', a')"
  shows "ok (app_db a') \<and> (app_same a a' \<and> (\<forall>i. last (p_out p') \<noteq> OkReply i True []) \<or>
    (\<exists>ev. admitted E W False (j_item (e_json E) msg 1) p a ev \<and>
       (is_ephemeral (ev_kind ev) \<or> may_store E W p a ev) \<and>
       (stored_events (e_db E) (app_db a'), app_published a') =
         (let (stored, sent) = spec_event ev (from_hex 32 (mem W 3) (get_tag_content ev ''e''))
                                 (stored_events (e_db E) (app_db a))
          in (stored, app_published a @ map (\<lambda>e. (e, Some (p_self p))) sent))))"
proof -
  obtain e q where o: "event_outcome E W (publish_verified E W) False (j_item (e_json E) msg 1) (p, a) e (q, a')"
    and q: "e = None \<Longrightarrow> p' = q" "e \<noteq> None \<Longrightarrow> \<forall>i. last (p_out p') \<noteq> OkReply i True []"
    using generic_outcome [OF run [unfolded on_event_def]] by metis
  from o show ?thesis
    unfolding event_outcome_def fst_conv snd_conv
  proof (elim disjE exE conjE)
    assume same: "app_same a a'" and "\<forall>i. e = None \<longrightarrow> last (p_out q) \<noteq> OkReply i True []"
    then have "\<forall>i. last (p_out p') \<noteq> OkReply i True []" using q by (cases e) auto
    then show ?thesis using same laws(3) by (simp add: app_same_def)
  next
    fix ev assume "admitted E W False (j_item (e_json E) msg 1) p a ev" "is_ephemeral (ev_kind ev)"
      "a' = app_publish_event ev (Some (p_self p)) a"
    then have "ok (app_db a')" "admitted E W False (j_item (e_json E) msg 1) p a ev \<and>
       (is_ephemeral (ev_kind ev) \<or> may_store E W p a ev) \<and>
       (stored_events (e_db E) (app_db a'), app_published a') =
         (let (stored, sent) = spec_event ev (from_hex 32 (mem W 3) (get_tag_content ev ''e''))
                                 (stored_events (e_db E) (app_db a))
          in (stored, app_published a @ map (\<lambda>e. (e, Some (p_self p))) sent))"
      using laws(3) by (auto simp: app_publish_event_def spec_event_def)
    then show ?thesis by blast
  next
    fix ev r a1 assume ev: "admitted E W False (j_item (e_json E) msg 1) p a ev" "may_store E W p a ev"
      "\<not> is_ephemeral (ev_kind ev)" "ev_kind ev = 5"
      and same: "app_same a a1" and r: "event_frame p r"
      and del: "event_deletion E W ev (r, a1) = (e, (q, a'))"
    have "ok (app_db a1)" using same laws(3) by (simp add: app_same_def)
    note eff = event_deletion_effect [OF laws(1,2) this del]
    show ?thesis
    proof (cases e)
      case None
      then show ?thesis using eff ev same r
        by (intro conjI disjI2 exI [of _ ev])
          (auto simp: app_same_def spec_event_def event_frame_def)
    next
      case (Some x)
      then show ?thesis using eff q(2) same laws(3) by (auto simp: app_same_def)
    qed
  next
    fix ev r a1 assume ev: "admitted E W False (j_item (e_json E) msg 1) p a ev" "may_store E W p a ev"
      "\<not> is_ephemeral (ev_kind ev)" "ev_kind ev \<noteq> 5"
      and same: "app_same a a1" and r: "event_frame p r"
      and pub: "publish_verified E W (j_text (e_json E) (j_field (e_json E) (j_item (e_json E) msg 1) ''id''))
          ev (r, a1) = (e, (q, a'))"
    have ok1: "ok (app_db a1)" using same laws(3) by (simp add: app_same_def)
    show ?thesis
    proof (cases "publish (e_db E) ev (Some (p_self r)) a1")
      case (Inl x)
      then show ?thesis using pub q(2) same laws(3) by (auto simp: publish_verified_def app_same_def)
    next
      case (Inr a2)
      then have a2: "publish (e_db E) ev (Some (p_self r)) a1 = Inr a'" using pub by (simp add: publish_verified_def)
      note eff = publish_spec [OF laws(1) ok1 a2]
      show ?thesis using eff ev same r
        by (intro conjI disjI2 exI [of _ ev])
          (auto simp: app_same_def spec_event_def event_frame_def)
    qed
  qed
qed

section \<open>Properties\<close>

text \<open>C21: every EVENT command is answered by exactly one OK message about the event that was sent
(its identifier as it was received, or in the relay's own writing), whatever the document holds
and whatever the database throws, and changes nothing else in the connection but its rate
limiter.\<close>

theorem event_answered_once:
  "event_frame p (fst (on_event E W msg (p, a))) \<and>
   (\<exists>i ok text. p_out (fst (on_event E W msg (p, a))) = p_out p @ [OkReply i ok text] \<and>
      (let doc_id = j_field (e_json E) (j_item (e_json E) msg 1) ''id''
       in i = j_text (e_json E) doc_id \<or>
          i = to_hex (from_hex 32 (mem W 0) (j_string (e_json E) doc_id))))"
proof -
  obtain q b where r: "on_event_generic E W (publish_verified E W) False (j_item (e_json E) msg 1) (p, a) = (q, b)"
    by fastforce
  then have q: "fst (on_event E W msg (p, a)) = q" by (simp add: on_event_def)
  show ?thesis
    using publish_callback.generic_contract [OF r] unfolding q answered_def Let_def by blast
qed

text \<open>C1: an EVENT command has an effect only for an event that is admitted and, to be stored, may be
stored; the effect is then exactly the specified one: an ephemeral event is only sent on, a
deletion takes the place of the author's own event it names, any other event replaces what its key
replaces; and the published queue gets this event or nothing. Whenever the client is told that all
went well, this is what happened.\<close>

theorem event_refines_policy:
  fixes E :: "('j, 'd, 'r, 'k, 'p) env"
  assumes "db_laws (e_db E) ok" "recordset_laws (e_search E)" "ok (app_db a)"
    and "on_event E W msg (p, a) = (p', a')"
  shows "ok (app_db a') \<and> (app_same a a' \<and> (\<forall>i. last (p_out p') \<noteq> OkReply i True []) \<or>
    (\<exists>ev. admitted E W False (j_item (e_json E) msg 1) p a ev \<and>
       (is_ephemeral (ev_kind ev) \<or> may_store E W p a ev) \<and>
       (stored_events (e_db E) (app_db a'), app_published a') =
         (let (stored, sent) = spec_event ev (from_hex 32 (mem W 3) (get_tag_content ev ''e''))
                                 (stored_events (e_db E) (app_db a))
          in (stored, app_published a @ map (\<lambda>e. (e, Some (p_self p))) sent))))"
  using on_event_effect [OF assms] .

lemma event_sample:
  "p_out (fst (on_event sample_env sample_moment event_message (sample_peer, empty_app)))
     = [OkReply (to_hex (replicate 32 3)) True []]"
proof -
  have parsed: "fromStructured json_ref (\<lambda>_. replicate 32 3) (\<lambda>_. 0) (\<lambda>_ _. 0)
      (toStructured json_ref sample_event) = Inr (received (\<lambda>_. 0) sample_event)"
    by (rule sample_event_parsed)
  have id: "j_text json_ref (j_field json_ref (toStructured json_ref sample_event) ''id'') = to_hex (replicate 32 3)"
    by (simp add: toStructured_def json_ref_def sample_event_def)
  note item = event_message_item
  have fields: "ev_kind (received (\<lambda>_. 0) sample_event) = 1" "ev_tags (received (\<lambda>_. 0) sample_event) = ev_tags sample_event"
    by (simp_all add: received_def build_hash_map_def sample_event_def)
  have none: "find_event_by_id mem_ops empty_app i = 0" for i
    by (simp add: find_event_by_id_def mem_ops_def empty_app_def empty_db_def index_rows_def)
  have pub: "\<exists>a'. publish mem_ops (received (\<lambda>_. 0) sample_event) (Some 1) empty_app = Inr a'"
    by (simp add: publish_def doc_to_replace_def index_by_author_kind_def fields kind_defs
        storage_put_def mem_ops_def mem_commit_def empty_app_def empty_db_def mem_unique_def
        index_rows_def index_by_id_def attachment_ids_def Let_def)
  have limit: "fst (test_and_add \<lparr>window_size = 10, window_limit = 2, queue = []\<rparr> 0)"
    by (simp add: test_and_add_def)
  have options: "opt_pow sample_options = 0" "read_only sample_options = False" "whitelisting sample_options = False"
    by (simp_all add: sample_options_def)
  show ?thesis
    using pub limit
    by (auto simp: on_event_def on_event_generic_def process_event_def process_verified_def
        publish_verified_def item parsed id none fields options Let_def case_prod_unfold
        simp del: One_nat_def)
qed

lemma event_refines_policy_witness:
  "sample_event\<lparr>ev_tag_hash_map := the (tag_hash_table (\<lambda>_. 0) (ev_tags sample_event))\<rparr>
     \<in> stored_events mem_ops (app_db (snd (on_event sample_env sample_moment event_message (sample_peer, empty_app))))"
proof -
  obtain p' a' where run: "on_event sample_env sample_moment event_message (sample_peer, empty_app) = (p', a')"
    by fastforce
  have ok: "mem_ok (app_db empty_app)" by (simp add: empty_app_def empty_db_ok)
  have "last (p_out p') = OkReply (to_hex (replicate 32 3)) True []" using event_sample run by simp
  with event_refines_policy [OF sample_db_laws sample_recordset_laws ok run]
  obtain ev where adm: "admitted sample_env sample_moment False (j_item json_ref event_message 1) sample_peer empty_app ev"
    and st: "stored_events mem_ops (app_db a') = fst (spec_event ev (from_hex 32 (\<lambda>_. 0) (get_tag_content ev ''e''))
         (stored_events mem_ops (app_db empty_app)))"
    by (auto simp: Let_def case_prod_unfold)
  have ev: "ev = received (\<lambda>_. 0) sample_event"
    using adm sample_event_parsed [of "\<lambda>_ _. 0"] by (auto simp: admitted_def simp del: One_nat_def)
  have "ev_kind ev = 1" unfolding ev by (simp add: received_def build_hash_map_def sample_event_def)
  moreover have "stored_events mem_ops (app_db empty_app) = {}"
    by (simp add: stored_events_def mem_ops_def empty_app_def empty_db_def)
  ultimately have "ev \<in> stored_events mem_ops (app_db a')"
    unfolding st by (simp add: spec_event_def spec_store_def superseded_def)
  moreover have "ev = sample_event\<lparr>ev_tag_hash_map := the (tag_hash_table (\<lambda>_. 0) (ev_tags sample_event))\<rparr>"
    unfolding ev by (simp add: received_def build_hash_map_def sample_event_def)
  ultimately show ?thesis using run by simp
qed

end
