(* ===== verification/Peer_Query.thy ===== *)
theory Peer_Query
  imports Peer_Publish "HOL-Library.Multiset"
begin

text \<open>
  What a subscription promises: the answer to REQ, the delivery of new events, the end by CLOSE.
  A REQ is answered by stored events that match one of its filters, at most as many as the limit,
  and then by EOSE; with no limit in the way, by every candidate that matches.
\<close>

section \<open>The loop over the candidates\<close>

text \<open>The events the candidates stand for that match a filter, in the order of the candidates.\<close>

fun matching ::
    "('j, 'd, 'r, 'k, 'p) env \<Rightarrow> nostr_filter list \<Rightarrow> 'd app \<Rightarrow> candidate list \<Rightarrow> Event list" where
  "matching E flts a [] = []"
| "matching E flts a (cd # cds) =
     (case storage_find (e_db E) (app_db a) (fst cd) of
        Some (AnEvent ev) \<Rightarrow>
          if list_ex (\<lambda>f. filter_test (e_hash E) f ev) flts then ev # matching E flts a cds
          else matching E flts a cds
      | _ \<Rightarrow> matching E flts a cds)"

lemma matching_set:
  "ev \<in> set (matching E flts a cds) \<longleftrightarrow>
     (\<exists>n \<in> fst ` set cds. storage_find (e_db E) (app_db a) n = Some (AnEvent ev)) \<and>
     list_ex (\<lambda>f. filter_test (e_hash E) f ev) flts"
proof (induction cds)
  case Nil
  then show ?case by simp
next
  case (Cons cd cds)
  show ?case
  proof (cases "storage_find (e_db E) (app_db a) (fst cd)")
    case None
    then show ?thesis using Cons by auto
  next
    case (Some doc)
    then show ?thesis using Cons by (cases doc) auto
  qed
qed

definition answer :: "('j, 'd, 'r, 'k, 'p) env \<Rightarrow> 'j peer \<Rightarrow> 'd app \<Rightarrow> string \<Rightarrow> Event \<Rightarrow> 'j reply" where
  "answer E p a subid ev =
     EventReply subid (case answer_document E p a ev of Inr doc \<Rightarrow> doc | Inl _ \<Rightarrow> toStructured (e_json E) ev)"

lemma answer_document_out: "answer_document E (p\<lparr>p_out := out\<rparr>) a ev = answer_document E p a ev"
  by (simp add: answer_document_def Let_def cong: if_cong)

lemma answer_out [simp]: "answer E (p\<lparr>p_out := out\<rparr>) a subid ev = answer E p a subid ev"
  by (simp add: answer_def answer_document_out)

lemma answer_document_ok: "2 \<le> length (p_url p) \<Longrightarrow> \<exists>doc. answer_document E p a ev = Inr doc"
  by (simp add: answer_document_def Let_def)

text \<open>On an open connection the loop sends the first of the matching events, as many as the limit.\<close>

lemma send_candidates_open:
  assumes "\<forall>n. writes W n" "2 \<le> length (p_url p)"
  shows "send_candidates E W subid flts a cds limit p =
    (None, p\<lparr>p_out := p_out p @ map (answer E p a subid) (take (unat limit) (matching E flts a cds))\<rparr>)"
  using assms(2)
proof (induction cds arbitrary: limit p)
  case Nil
  then show ?case by simp
next
  case (Cons cd cds)
  show ?case
  proof (cases "limit = 0")
    case True
    then show ?thesis by simp
  next
    case False
    then have lim: "unat limit = Suc (unat (limit - 1))"
      by (simp add: unat_minus_one word_neq_0_conv unat_gt_0)
    show ?thesis
    proof (cases "\<exists>ev. storage_find (e_db E) (app_db a) (fst cd) = Some (AnEvent ev) \<and>
        list_ex (\<lambda>f. filter_test (e_hash E) f ev) flts")
      case True
      then obtain ev where ev: "storage_find (e_db E) (app_db a) (fst cd) = Some (AnEvent ev)"
        "list_ex (\<lambda>f. filter_test (e_hash E) f ev) flts" by blast
      obtain doc where doc: "answer_document E p a ev = Inr doc" using answer_document_ok Cons(2) by blast
      have ans: "answer E p a subid ev = EventReply subid doc" by (simp add: answer_def doc)
      let ?q = "p\<lparr>p_out := p_out p @ [answer E p a subid ev]\<rparr>"
      have "send_candidates E W subid flts a (cd # cds) limit p
          = send_candidates E W subid flts a cds (limit - 1) ?q"
        using ev False doc assms(1) by (simp add: send_def ans)
      also have "\<dots> = (None, ?q\<lparr>p_out := p_out ?q @
          map (answer E ?q a subid) (take (unat (limit - 1)) (matching E flts a cds))\<rparr>)"
        using Cons(2) by (intro Cons(1)) simp
      finally show ?thesis using ev lim by (simp add: answer_out [abs_def])
    next
      case none: False
      have "send_candidates E W subid flts a (cd # cds) limit p = send_candidates E W subid flts a cds limit p"
        using none False by (auto split: option.splits EventOrAttachment.splits)
      moreover have "matching E flts a (cd # cds) = matching E flts a cds"
        using none by (auto split: option.splits EventOrAttachment.splits)
      ultimately show ?thesis using Cons by simp
    qed
  qed
qed

text \<open>Whatever happens, the loop only appends messages.\<close>

lemma send_candidates_frame:
  "send_candidates E W subid flts a cds limit p = (e, p') \<Longrightarrow>
     event_frame p p' \<and> p_file_event p' = p_file_event p"
proof (induction cds arbitrary: limit p)
  case Nil
  then show ?case by simp
next
  case (Cons cd cds)
  have step: "event_frame p p' \<and> p_file_event p' = p_file_event p"
    if "send_candidates E W subid flts a cds lim (p\<lparr>p_out := out\<rparr>) = (e, p')" for lim out
    using Cons(1) [OF that] by (auto simp: event_frame_def)
  show ?case
    using Cons(2) step Cons(1)
    by (auto simp: send_def split: if_splits option.splits EventOrAttachment.splits sum.splits)
qed

section \<open>The answer to a REQ\<close>

definition req_filters :: "('j, 'd, 'r, 'k, 'p) env \<Rightarrow> moment \<Rightarrow> 'j \<Rightarrow> nostr_filter list" where
  "req_filters E W msg = read_filters E W (j_array (e_json E) msg)"

definition req_found :: "('j, 'd, 'r, 'k, 'p) env \<Rightarrow> moment \<Rightarrow> 'j \<Rightarrow> 'd app \<Rightarrow> 'r" where
  "req_found E W msg a =
     find_in_index (e_db E) (e_text E) (e_hash E) (e_search E) (app_db a) (req_filters E W msg)"

definition req_events :: "('j, 'd, 'r, 'k, 'p) env \<Rightarrow> moment \<Rightarrow> 'j \<Rightarrow> 'd app \<Rightarrow> Event list" where
  "req_events E W msg a =
     (if rs_inverted (e_search E) (req_found E W msg a) then []
      else take (unat (request_limit (req_filters E W msg)))
             (matching E (req_filters E W msg) a (e_sort E (rs_items (e_search E) (req_found E W msg a)))))"

lemma on_req_open:
  assumes "2 \<le> length (j_array (e_json E) msg)" "\<forall>n. writes W n" "2 \<le> length (p_url p)"
  shows "on_req E W msg (p, a) =
    (None, (p\<lparr>p_out := p_out p @ map (answer E p a (j_text (e_json E) (j_array (e_json E) msg ! 1)))
                        (req_events E W msg a) @ [EoseReply (j_text (e_json E) (j_array (e_json E) msg ! 1))],
              p_subscriptions := p_subscriptions p
                @ [(j_text (e_json E) (j_array (e_json E) msg ! 1), req_filters E W msg)]\<rparr>, a))"
  using assms(1)
  by (simp add: on_req_def Let_def send_candidates_open [OF assms(2,3)] req_events_def req_found_def
      req_filters_def)

lemma req_events_limit: "length (req_events E W msg a) \<le> unat (request_limit (req_filters E W msg))"
  by (simp add: req_events_def)

lemma req_events_match:
  "set (req_events E W msg a) \<subseteq> {ev \<in> stored_events (e_db E) (app_db a).
     list_ex (\<lambda>f. filter_test (e_hash E) f ev) (req_filters E W msg)}"
  by (auto simp: req_events_def stored_events_def matching_set dest!: in_set_takeD split: if_splits)

section \<open>Properties\<close>

text \<open>C20: a REQ with a subscription name, on an open connection, is answered by events that are stored
and match one of its filters, each under the subscription's name, at most as many as the largest
limit, then by exactly one EOSE; and the subscription with exactly these filters is added after
the earlier ones. Nothing else changes. (The relay's address has at least two characters.)\<close>

theorem req_answers_match:
  fixes E :: "('j, 'd, 'r, 'k, 'p) env"
  assumes "2 \<le> length (j_array (e_json E) msg)" "\<forall>n. writes W n" "2 \<le> length (p_url p)"
  shows "\<exists>evs.
    on_req E W msg (p, a) =
      (let subid = j_text (e_json E) (j_array (e_json E) msg ! 1);
           flts = req_filters E W msg
       in (None, (p\<lparr>p_out := p_out p @ map (answer E p a subid) evs @ [EoseReply subid],
                    p_subscriptions := p_subscriptions p @ [(subid, flts)]\<rparr>, a))) \<and>
    length evs \<le> unat (request_limit (req_filters E W msg)) \<and>
    set evs \<subseteq> {ev \<in> stored_events (e_db E) (app_db a).
                 list_ex (\<lambda>f. filter_test (e_hash E) f ev) (req_filters E W msg)}"
  unfolding Let_def
  by (intro exI [of _ "req_events E W msg a"])
    (simp only: on_req_open [OF assms] req_events_limit req_events_match simp_thms)

lemma req_answers_match_witness:
  "length (j_array json_ref req_message) = 3 \<and>
   (\<exists>evs. p_out (fst (snd (on_req sample_env sample_moment req_message (sample_peer, empty_app\<lparr>app_db := sample_db\<rparr>))))
       = map (answer sample_env sample_peer (empty_app\<lparr>app_db := sample_db\<rparr>) ''sub'') evs @ [EoseReply ''sub''] \<and>
     set evs \<subseteq> stored_events mem_ops sample_db)"
proof -
  have arr: "j_array json_ref req_message = [JString ''REQ'', JString ''sub'', JObject [(''kinds'', JArray [JNumber 1])]]"
    "j_text json_ref (JString ''sub'') = ''sub''"
    by (simp_all add: json_ref_def req_message_def)
  have "\<exists>evs.
    on_req sample_env sample_moment req_message (sample_peer, empty_app\<lparr>app_db := sample_db\<rparr>) =
      (let subid = j_text (e_json sample_env) (j_array (e_json sample_env) req_message ! 1);
           flts = req_filters sample_env sample_moment req_message
       in (None, (sample_peer\<lparr>p_out := p_out sample_peer
              @ map (answer sample_env sample_peer (empty_app\<lparr>app_db := sample_db\<rparr>) subid) evs @ [EoseReply subid],
            p_subscriptions := p_subscriptions sample_peer @ [(subid, flts)]\<rparr>, empty_app\<lparr>app_db := sample_db\<rparr>))) \<and>
    length evs \<le> unat (request_limit (req_filters sample_env sample_moment req_message)) \<and>
    set evs \<subseteq> {ev \<in> stored_events (e_db sample_env) (app_db (empty_app\<lparr>app_db := sample_db\<rparr>)).
                 list_ex (\<lambda>f. filter_test (e_hash sample_env) f ev)
                   (req_filters sample_env sample_moment req_message)}"
    by (rule req_answers_match) (simp_all add: arr)
  then show ?thesis by (auto simp: arr Let_def)
qed

lemma read_filters_ok: "list_all filter_ok (read_filters E W rq)"
  by (auto simp: read_filters_def list_all_iff filter_create_ok)

lemma on_req_answers:
  fixes E :: "('j, 'd, 'r, 'k, 'p) env"
  assumes "2 \<le> length (j_array (e_json E) msg)" "\<forall>n. writes W n" "2 \<le> length (p_url p)"
    and laws: "db_laws (e_db E) ok" "search_laws (e_db E) (e_hash E) (e_search E) ok" "ok (app_db a)"
      "\<And>cs. mset (e_sort E cs) = mset cs"
    and found: "\<not> rs_inverted (e_search E) (req_found E W msg a)"
      "length (rs_items (e_search E) (req_found E W msg a)) \<le> unat (request_limit (req_filters E W msg))"
    and ev: "storage_find (e_db E) (app_db a) n = Some (AnEvent ev)" "event_indexed (e_hash E) ev"
      "length (ev_id ev) = 32" "length (ev_author ev) = 32"
    and f: "f \<in> set (req_filters E W msg)" "f_ft_search f = []" "matches f ev" "inside_ranges f ev"
  shows "answer E p a (j_text (e_json E) (j_array (e_json E) msg ! 1)) ev
    \<in> set (p_out (fst (snd (on_req E W msg (p, a)))))"
proof -
  let ?items = "rs_items (e_search E) (req_found E W msg a)"
  have "filter_ok f" using f(1) read_filters_ok by (auto simp: req_filters_def list_all_iff)
  then have "rs_has (e_search E) (req_found E W msg a) n"
    unfolding req_found_def
    by (intro find_in_index_has [OF laws(1-3) ev(1,3,4) f(1)]) (use f in simp_all)
  then have "n \<in> fst ` set ?items" using found(1) by (simp add: rs_has_def)
  moreover have "set (e_sort E ?items) = set ?items" by (rule mset_eq_setD [OF laws(4)])
  moreover have "list_ex (\<lambda>f. filter_test (e_hash E) f ev) (req_filters E W msg)"
    using f filter_test_matches [OF ev(2)] by (auto simp: list_ex_iff)
  ultimately have "ev \<in> set (matching E (req_filters E W msg) a (e_sort E ?items))"
    using ev(1) by (auto simp: matching_set)
  moreover have "length (matching E flts a cds) \<le> length cds" for flts cds
    by (induction cds) (auto split: option.splits EventOrAttachment.splits)
  then have "length (matching E (req_filters E W msg) a (e_sort E ?items)) \<le> length (e_sort E ?items)" .
  then have "length (matching E (req_filters E W msg) a (e_sort E ?items))
      \<le> unat (request_limit (req_filters E W msg))"
    using found(2) mset_eq_length [OF laws(4), of ?items] by simp
  ultimately have "ev \<in> set (req_events E W msg a)" using found(1) by (simp add: req_events_def)
  then show ?thesis by (simp add: on_req_open [OF assms(1-3)])
qed


text \<open>C23: an event somebody publishes is sent once to exactly those subscriptions of the connection,
in their order, that have a filter it matches, each under its name.\<close>

theorem deliver_to_matching:
  assumes "event_indexed (e_hash E) ev"
  shows "deliver E W (ev, source) p = p\<lparr>p_out := p_out p @
    map (\<lambda>s. EventReply (fst s) (toStructured (e_json E) ev))
      (filter (\<lambda>s. \<exists>f \<in> set (snd s). matches f ev) (p_subscriptions p))\<rparr>"
proof -
  have test: "list_ex (\<lambda>f. filter_test (e_hash E) f ev) fs \<longleftrightarrow> (\<exists>f \<in> set fs. matches f ev)" for fs
    by (simp add: list_ex_iff filter_test_matches [OF assms])
  have fold: "fold (\<lambda>s p. reply W (EventReply s doc) p) ss p = p\<lparr>p_out := p_out p @ map (\<lambda>s. EventReply s doc) ss\<rparr>"
    for ss and doc :: 'a
    by (induction ss arbitrary: p) simp_all
  show ?thesis
    unfolding deliver_def fold filter_event_def fst_conv test by simp
qed

lemma sample_req_filters:
  "req_filters sample_env sample_moment req_message = [empty_filter\<lparr>f_kinds := [1]\<rparr>]"
  by (simp add: req_filters_def read_filters_def req_message_def json_ref_def filter_create_def
      create_field_def empty_filter_def)

lemma sample_req_found:
  "\<not> rs_inverted (mem_search (\<lambda>_. 0)) (find_in_index mem_ops ascii_text (\<lambda>_. 0) (mem_search (\<lambda>_. 0))
      sample_db [empty_filter\<lparr>f_kinds := [1]\<rparr>])"
  "length (rs_items (mem_search (\<lambda>_. 0)) (find_in_index mem_ops ascii_text (\<lambda>_. 0) (mem_search (\<lambda>_. 0))
      sample_db [empty_filter\<lparr>f_kinds := [1]\<rparr>])) = 1"
  by code_simp+


lemma deliver_to_matching_witness:
  "deliver sample_env sample_moment (stored_sample, None)
     (sample_peer\<lparr>p_subscriptions := [(''a'', [empty_filter\<lparr>f_kinds := [1]\<rparr>]), (''b'', [empty_filter\<lparr>f_kinds := [4]\<rparr>])]\<rparr>)
   = sample_peer\<lparr>p_subscriptions := [(''a'', [empty_filter\<lparr>f_kinds := [1]\<rparr>]), (''b'', [empty_filter\<lparr>f_kinds := [4]\<rparr>])],
       p_out := [EventReply ''a'' (toStructured json_ref stored_sample)]\<rparr>"
  by (subst deliver_to_matching) (simp_all add: stored_sample_indexed matches_def empty_filter_def)

end
