(* ===== verification/Peer_Files.thy ===== *)
theory Peer_Files
  imports Peer_Publish
begin

text \<open>
  What the commands for files promise: the data a client sends after it announced a file is stored
  only when its hash and its length are the announced ones, together with the event. It is found
  again by \<open>stored_file\<close>, which \<open>App_Http\<close> uses.
\<close>

section \<open>Publishing an event with its attachment\<close>

lemma doc_to_replace_no_attachment:
  assumes "db_laws D ok" "ok (app_db a)"
  shows "storage_find D (app_db a) (doc_to_replace D a ev) \<noteq> Some (AnAttachment att)"
  using assms
proof (cases rule: doc_to_replace_cases [where ev = ev])
  case superseded
  then show ?thesis using db_lawsD(2) [OF assms] by simp
next
  case free
  then show ?thesis using db_lawsD(1) [OF assms] by simp
qed simp

lemma find_attachment_iff:
  assumes "db_laws D ok" "ok (app_db a)"
  shows "find_attachment D a i \<noteq> 0 \<longleftrightarrow>
      (\<exists>att. storage_find D (app_db a) (find_attachment D a i) = Some (AnAttachment att) \<and> att_id att = i)"
    "storage_find D (app_db a) n = Some (AnAttachment att) \<Longrightarrow> find_attachment D a (att_id att) = n"
proof -
  note find = db_lawsD(5) [OF assms]
  have zero: "storage_find D (app_db a) 0 = None" by (rule db_lawsD(1) [OF assms])
  show "find_attachment D a i \<noteq> 0 \<longleftrightarrow>
      (\<exists>att. storage_find D (app_db a) (find_attachment D a i) = Some (AnAttachment att) \<and> att_id att = i)"
  proof (cases "attachments_find D (app_db a) i")
    case None
    then show ?thesis using zero by (simp add: find_attachment_def)
  next
    case (Some n)
    then obtain att where "storage_find D (app_db a) n = Some (AnAttachment att)" "att_id att = i"
      using find by blast
    then show ?thesis using Some zero by (auto simp: find_attachment_def)
  qed
  show "find_attachment D a (att_id att) = n" if "storage_find D (app_db a) n = Some (AnAttachment att)"
  proof -
    have "attachments_find D (app_db a) (att_id att) = Some n" using that find by blast
    then show ?thesis by (simp add: find_attachment_def)
  qed
qed

lemma puts_two: "puts [Put x i, Put y j] = 2"
  by (simp add: puts_def)

lemma publish_attachment_spec:
  assumes laws: "db_laws D ok" "ok (app_db a)" and run: "publish_attachment D ev att p a = Inr a'"
    and new: "doc_to_replace D a ev \<noteq> - 1"
  obtains n m where "ok (app_db a')" "stored_events D (app_db a') = spec_store ev (stored_events D (app_db a))"
    "storage_find D (app_db a') n = Some (AnEvent ev)" "storage_find D (app_db a') m = Some (AnAttachment att)"
    "app_published a' = app_published a @ [(ev, p)]"
proof -
  let ?s = "storage_find D (app_db a)"
  let ?old = "doc_to_replace D a ev" and ?att = "find_attachment D a (att_id att)"
  obtain d where d: "commit_batch D (app_db a) [Put (AnEvent ev) ?old, Put (AnAttachment att) ?att] = Inr d"
    and a': "a' = app_publish_event ev p (a\<lparr>app_db := d\<rparr>)"
    using run new by (auto simp: publish_attachment_def Let_def split: sum.splits)
  obtain ns where ns: "ok d" "length ns = 2" "fresh_numbers ns ?s"
    "storage_find D d = apply_batch [Put (AnEvent ev) ?old, Put (AnAttachment att) ?att] ns ?s"
    using db_lawsD(6) [OF laws d] unfolding puts_two by blast
  then obtain n m where nm: "ns = [n, m]" by (auto simp: length_Suc_conv numeral_2_eq_2)
  have fresh: "n \<noteq> m" "?s n = None" "?s m = None" "n \<noteq> 0" using ns(3) nm by (auto simp: fresh_numbers_def)
  have natt: "n \<noteq> ?att" using find_attachment_iff(1) [OF laws, of "att_id att"] fresh by auto
  have att: "?s ?att \<noteq> Some (AnEvent e)" for e
    using find_attachment_iff(1) [OF laws, of "att_id att"] db_lawsD(1) [OF laws] by force
  have find: "storage_find D d = (((?s(?old := None))(n := Some (AnEvent ev)))(?att := None))(m := Some (AnAttachment att))"
    using ns(4) nm by simp
  have "stored_events D d = insert ev {e. \<exists>x. x \<noteq> ?old \<and> ?s x = Some (AnEvent e)}"
  proof (intro set_eqI iffI)
    fix e assume "e \<in> stored_events D d"
    then obtain x where "storage_find D d x = Some (AnEvent e)" by (auto simp: stored_events_def)
    then show "e \<in> insert ev {e. \<exists>x. x \<noteq> ?old \<and> ?s x = Some (AnEvent e)}"
      unfolding find by (auto split: if_splits)
  next
    fix e assume e: "e \<in> insert ev {e. \<exists>x. x \<noteq> ?old \<and> ?s x = Some (AnEvent e)}"
    show "e \<in> stored_events D d"
    proof (cases "e = ev")
      case True
      have "storage_find D d n = Some (AnEvent ev)" unfolding find using fresh(1) natt by simp
      then show ?thesis using True by (auto simp: stored_events_def)
    next
      case False
      then obtain x where x: "x \<noteq> ?old" "?s x = Some (AnEvent e)" using e by blast
      then have "x \<noteq> n" "x \<noteq> m" "x \<noteq> ?att" using fresh att by auto
      then have "storage_find D d x = Some (AnEvent e)" unfolding find using x by simp
      then show ?thesis by (auto simp: stored_events_def)
    qed
  qed
  then have "stored_events D d = spec_store ev (stored_events D (app_db a))"
    using stored_events_replaced [OF laws new] not_superseded [OF laws new] by (simp add: spec_store_def)
  moreover have "storage_find D d n = Some (AnEvent ev)" "storage_find D d m = Some (AnAttachment att)"
    unfolding find using fresh(1) natt by simp_all
  ultimately show thesis using that [of n m] ns(1) a' by (simp add: app_publish_event_def)
qed

lemma publish_keeps_attachment:
  assumes laws: "db_laws D ok" "ok (app_db a)" and run: "publish D ev p a = Inr a'"
    and att: "storage_find D (app_db a) m = Some (AnAttachment att)"
  shows "storage_find D (app_db a') m = Some (AnAttachment att)"
proof (cases "doc_to_replace D a ev = - 1")
  case True
  then have "a' = a" using run by (simp add: publish_def Let_def)
  then show ?thesis using att by simp
next
  case False
  then obtain d where d: "commit_batch D (app_db a) [Put (AnEvent ev) (doc_to_replace D a ev)] = Inr d"
    and a': "app_db a' = d"
    using run by (auto simp: publish_def Let_def storage_put_def app_publish_event_def start_gc_thread_def
        split: sum.splits if_splits)
  obtain n where n: "storage_find D (app_db a) n = None"
    "storage_find D d = ((storage_find D (app_db a))(doc_to_replace D a ev := None))(n := Some (AnEvent ev))"
    using put_batch [OF laws d] by metis
  have "m \<noteq> n" "m \<noteq> doc_to_replace D a ev"
    using n(1) att doc_to_replace_no_attachment [OF laws] by auto
  then show ?thesis using a' n(2) att by simp
qed

text \<open>What publishing the file event does, with an attachment only when its data is not stored yet.\<close>

lemma store_file_effect:
  assumes laws: "db_laws D ok" "ok (app_db a)"
    and run: "(if find_attachment D a hash \<noteq> 0 then publish D ev None a
      else publish_attachment D ev \<lparr>att_id = hash, att_data = data\<rparr> None a) = Inr a'"
  shows "ok (app_db a') \<and> (app_db a' = app_db a \<or>
    stored_events D (app_db a') = spec_store ev (stored_events D (app_db a)) \<and>
    (\<exists>n att. storage_find D (app_db a') n = Some (AnAttachment att) \<and> att_id att = hash))"
proof (cases "find_attachment D a hash \<noteq> 0")
  case True
  then have pub: "publish D ev None a = Inr a'" using run by simp
  obtain m att where "storage_find D (app_db a) m = Some (AnAttachment att)" "att_id att = hash"
    using True find_attachment_iff(1) [OF laws] by blast
  then have "\<exists>n att. storage_find D (app_db a') n = Some (AnAttachment att) \<and> att_id att = hash"
    using publish_keeps_attachment [OF laws pub] by blast
  then show ?thesis using publish_spec(1,2) [OF laws pub] by blast
next
  case False
  then have pub: "publish_attachment D ev \<lparr>att_id = hash, att_data = data\<rparr> None a = Inr a'"
    using run by simp
  show ?thesis
  proof (cases "doc_to_replace D a ev = - 1")
    case True
    then show ?thesis using pub laws(2) by (simp add: publish_attachment_def Let_def)
  next
    case new: False
    obtain m where "ok (app_db a')"
      "stored_events D (app_db a') = spec_store ev (stored_events D (app_db a))"
      "storage_find D (app_db a') m = Some (AnAttachment \<lparr>att_id = hash, att_data = data\<rparr>)"
      using publish_attachment_spec [OF laws pub new] by metis
    moreover from this(3) have "\<exists>n att. storage_find D (app_db a') n = Some (AnAttachment att) \<and> att_id att = hash"
      by (intro exI [of _ m] exI [of _ "\<lparr>att_id = hash, att_data = data\<rparr>"]) simp
    ultimately show ?thesis by blast
  qed
qed

section \<open>Properties\<close>


definition file_event :: Event where
  "file_event =
     \<lparr>ev_kind = File_Header, ev_content = '''',
      ev_tags = [\<lparr>tg_tag = ''x'', tg_content = to_hex (replicate 32 3), tg_additional_content = []\<rparr>,
                 \<lparr>tg_tag = ''m'', tg_content = ''text/plain'', tg_additional_content = []\<rparr>,
                 \<lparr>tg_tag = ''size'', tg_content = ''2'', tg_additional_content = []\<rparr>],
      ev_created_at = 5, ev_tag_hash_map = [], ev_id = replicate 32 7,
      ev_author = replicate 32 1, ev_sig = replicate 64 2,
      ev_nip97 = False, ev_trusted = False, ev_ref_level = 0\<rparr>"

lemma file_event_simps [simp]:
  "ev_id file_event = replicate 32 7" "ev_kind file_event = File_Header" "ev_created_at file_event = 5"
  "get_tag_content file_event ''x'' = to_hex (replicate 32 3)" "get_tag_content file_event ''size'' = ''2''"
  by (simp_all add: file_event_def get_tag_content_def get_tag_def)

lemma file_size_sample: "fst (strtoul ''2'') = 2"
  by (simp add: strtoul_def c_str_def c_isspace_def c_isdigit_def digits_value_def byte_of_def word_le_nat_alt)

lemma file_sample:
  "md_docs (app_db (snd (snd (processBinaryMessage sample_env sample_moment ''ab''
     (sample_peer\<lparr>p_file_event := Some file_event\<rparr>, empty_app)))))
   = [(2, AnAttachment \<lparr>att_id = replicate 32 3, att_data = ''ab''\<rparr>),
      (1, AnEvent (file_event\<lparr>ev_nip97 := True\<rparr>))]"
proof -
  have none: "find_event_by_id mem_ops empty_app i = 0" "find_attachment mem_ops empty_app i = 0" for i
    by (simp_all add: find_event_by_id_def find_attachment_def mem_ops_def empty_app_def empty_db_def index_rows_def)
  let ?att = "\<lparr>att_id = replicate 32 3, att_data = ''ab''\<rparr>"
  have "publish_attachment mem_ops (file_event\<lparr>ev_nip97 := True\<rparr>) ?att None empty_app
    = Inr (empty_app\<lparr>app_db := empty_db\<lparr>md_docs := [(2, AnAttachment ?att),
        (1, AnEvent (file_event\<lparr>ev_nip97 := True\<rparr>))], md_next := 3\<rparr>,
       app_published := [(file_event\<lparr>ev_nip97 := True\<rparr>, None)]\<rparr>)"
    by (simp add: publish_attachment_def doc_to_replace_def index_by_author_kind_def kind_defs
        mem_ops_def mem_commit_def empty_app_def empty_db_def mem_unique_def find_attachment_def
        index_rows_def index_by_id_def attachment_ids_def app_publish_event_def Let_def word_le_nat_alt)
  then show ?thesis
    by (simp add: processBinaryMessage_def Let_def none file_size_sample)
qed


text \<open>A file that was stored through a binary message is found: the event by its identifier, the
data by the hash the event names.\<close>

lemma stored_file:
  assumes laws: "db_laws (e_db E) ok" "ok (app_db a)"
    and ev: "p_file_event p = Some ev" "length (e_sha E data) = 32"
      "get_tag_content ev ''x'' = to_hex (e_sha E data)"
    and run: "processBinaryMessage E W data (p, a) = (e, (p', a'))"
      "find_attachment (e_db E) a (e_sha E data) = 0" "app_db a' \<noteq> app_db a"
  obtains n m where "find_event_by_id (e_db E) a' (ev_id ev) = n" "n \<noteq> 0"
    "storage_find (e_db E) (app_db a') n = Some (AnEvent (ev\<lparr>ev_nip97 := True\<rparr>))"
    "find_attachment (e_db E) a' (e_sha E data) = m" "m \<noteq> 0"
    "storage_find (e_db E) (app_db a') m = Some (AnAttachment \<lparr>att_id = e_sha E data, att_data = data\<rparr>)"
proof -
  let ?D = "e_db E" and ?ev = "ev\<lparr>ev_nip97 := True\<rparr>" and ?att = "\<lparr>att_id = e_sha E data, att_data = data\<rparr>"
  have pub: "publish_attachment ?D ?ev ?att None a = Inr a'"
    using run ev(1) by (auto simp: processBinaryMessage_def Let_def split: if_splits sum.splits)
  have new: "doc_to_replace ?D a ?ev \<noteq> - 1"
    using pub run(3) by (auto simp: publish_attachment_def Let_def)
  obtain n m where ok: "ok (app_db a')" and n: "storage_find ?D (app_db a') n = Some (AnEvent ?ev)"
    and m: "storage_find ?D (app_db a') m = Some (AnAttachment ?att)"
    using publish_attachment_spec [OF laws pub new] by metis
  have "by_id_find ?D (app_db a') (ev_id ev) = Some (n, ev_created_at ev)"
    using n unfolding db_lawsD(3) [OF laws(1) ok] by (auto simp: index_by_id_def)
  then have "find_event_by_id ?D a' (ev_id ev) = n" by (simp add: find_event_by_id_def)
  moreover have "find_attachment ?D a' (e_sha E data) = m"
    using find_attachment_iff(2) [OF laws(1) ok m] by simp
  moreover have "n \<noteq> 0" "m \<noteq> 0" using n m db_lawsD(1) [OF laws(1) ok] by auto
  ultimately show thesis using that n m by blast
qed

end
