(* ===== verification/Peer_Invariant.thy ===== *)
theory Peer_Invariant
  imports Peer_Query Peer_Files
begin

text \<open>
  What holds in every state a connection can reach, whatever the client sends, whoever publishes
  and whatever other connections do to the application: limits are always on, a client counts as
  authenticated only after an event signed for this connection's challenge, an announced file has
  passed every check. And the one way a text message can fail.
\<close>

section \<open>What each handler leaves alone\<close>

lemma on_event_frame:
  assumes "on_event E W msg (p, a) = (p', a')"
  shows "event_frame p p' \<and> p_file_event p' = p_file_event p"
proof -
  note run = assms [unfolded on_event_def]
  obtain e q where o: "event_outcome E W (publish_verified E W) False (j_item (e_json E) msg 1) (p, a) e (q, a')"
    and q: "p_file_event p' = p_file_event q"
    using generic_outcome [OF run] by metis
  have pv: "p_file_event q' = p_file_event r" if "publish_verified E W i ev (r, b) = (x, (q', b'))" for i ev r b x q' b'
    using that by (auto simp: publish_verified_def split: sum.splits)
  have del: "p_file_event q' = p_file_event r" if "event_deletion E W ev (r, b) = (x, (q', b'))" for ev r b x q' b'
    using that by (auto simp: event_deletion_def Let_def split: sum.splits prod.splits if_splits)
  have "p_file_event q = p_file_event p"
    using o unfolding event_outcome_def fst_conv snd_conv by (elim disjE exE conjE) (auto dest: pv del)
  then show ?thesis using publish_callback.generic_contract(1) [OF run] q by simp
qed

lemma on_file_frame:
  assumes "on_file E W msg (p, a) = (p', a')"
  shows "event_frame p p' \<and> (p_file_event p' = p_file_event p \<or>
    (\<exists>ev. p_file_event p' = Some ev \<and> event_verify (e_secp E) ev \<and> file_check (e_options E) ev = None))"
proof -
  note run = assms [unfolded on_file_def]
  obtain e q where o: "event_outcome E W (accept_file E W) True (j_item (e_json E) msg 1) (p, a) e (q, a')"
    and q: "p_file_event p' = p_file_event q"
    using generic_outcome [OF run] by metis
  have af: "p_file_event q' = p_file_event r \<or> p_file_event q' = Some ev \<and> file_check (e_options E) ev = None"
    if "accept_file E W i ev (r, b) = (x, (q', b'))" for i ev r b x q' b'
    using that by (auto simp: accept_file_def split: option.splits)
  have "p_file_event q = p_file_event p \<or>
      (\<exists>ev. p_file_event q = Some ev \<and> event_verify (e_secp E) ev \<and> file_check (e_options E) ev = None)"
    using o unfolding event_outcome_def fst_conv snd_conv
    by (elim disjE exE conjE) (auto simp: admitted_def dest: af)
  then show ?thesis using file_callback.generic_contract(1) [OF run] q by simp
qed

lemma processBinaryMessage_frame:
  assumes "processBinaryMessage E W data (p, a) = (e, (p', a'))"
  shows "event_frame p p' \<and> (p_file_event p' = None \<or> p_file_event p' = p_file_event p \<or>
    (\<exists>ev. p_file_event p = Some ev \<and> p_file_event p' = Some (ev\<lparr>ev_nip97 := True\<rparr>)))"
  using assms by (auto simp: processBinaryMessage_def Let_def split: option.splits if_splits sum.splits)

lemma on_retrieve_frame:
  assumes "on_retrieve E W msg (p, a) = (p', a')"
  shows "event_frame p p' \<and> p_file_event p' = p_file_event p"
  using assms
  by (auto simp: on_retrieve_def Let_def split: option.splits if_splits EventOrAttachment.splits)

text \<open>A REQ adds at most one subscription, with filters that were read.\<close>

definition subscribed :: "('j, 'd, 'r, 'k, 'p) env \<Rightarrow> 'j peer \<Rightarrow> 'j peer \<Rightarrow> bool" where
  "subscribed E p p' \<longleftrightarrow>
     (\<exists>subs. event_frame (p\<lparr>p_subscriptions := p_subscriptions p @ subs\<rparr>) p' \<and>
        list_all (\<lambda>s. list_all filter_ok (snd s)) subs) \<and>
     p_file_event p' = p_file_event p"

lemma subscribedI: "event_frame p p' \<Longrightarrow> p_file_event p' = p_file_event p \<Longrightarrow> subscribed E p p'"
  unfolding subscribed_def by (auto intro!: exI [of _ "[]"])

lemma on_req_frame:
  assumes "on_req E W msg (p, a) = (e, (p', a'))"
  shows "subscribed E p p' \<and> a' = a"
proof (cases "length (j_array (e_json E) msg) < 2")
  case True
  then show ?thesis using assms by (auto simp: on_req_def Let_def intro: subscribedI)
next
  case False
  let ?flts = "read_filters E W (j_array (e_json E) msg)" and ?subid = "j_text (e_json E) (j_array (e_json E) msg ! 1)"
  let ?found = "find_in_index (e_db E) (e_text E) (e_hash E) (e_search E) (app_db a) ?flts"
  obtain stopped q where sc: "(if \<not> rs_inverted (e_search E) ?found
      then send_candidates E W ?subid ?flts a (e_sort E (rs_items (e_search E) ?found)) (request_limit ?flts) p
      else (None, p)) = (stopped, q)"
    by fastforce
  then have q: "event_frame p q" "p_file_event q = p_file_event p"
    by (auto dest: send_candidates_frame split: if_splits)
  have res: "(e, (p', a')) = (case stopped of Some e \<Rightarrow> (e, (q, a))
      | None \<Rightarrow> (None, (q\<lparr>p_out := p_out q @ [EoseReply ?subid],
                        p_subscriptions := p_subscriptions q @ [(?subid, ?flts)]\<rparr>, a)))"
    using assms False unfolding on_req_def Let_def prod.case sc by (auto split: option.splits)
  show ?thesis
  proof (cases stopped)
    case None
    then have "p' = q\<lparr>p_out := p_out q @ [EoseReply ?subid],
        p_subscriptions := p_subscriptions q @ [(?subid, ?flts)]\<rparr>" "a' = a" using res by auto
    then show ?thesis
      using q read_filters_ok [of E W "j_array (e_json E) msg"] unfolding subscribed_def
      by (auto simp: event_frame_def intro!: exI [of _ "[(?subid, ?flts)]"])
  next
    case (Some x)
    then show ?thesis using res q by (auto intro: subscribedI)
  qed
qed

lemma deliver_frame: "event_frame p (deliver E W v p) \<and> p_file_event (deliver E W v p) = p_file_event p"
proof -
  have "event_frame p (fold (\<lambda>s p. reply W (EventReply s doc) p) ss p) \<and>
      p_file_event (fold (\<lambda>s p. reply W (EventReply s doc) p) ss p) = p_file_event p" for ss and doc :: 'a
    by (induction ss rule: rev_induct) auto
  then show ?thesis by (simp add: deliver_def)
qed

section \<open>The invariant\<close>

text \<open>The event that answers the challenge, as it was accepted at some moment.\<close>

definition answers_challenge :: "('j, 'd, 'r, 'k, 'p) env \<Rightarrow> string \<Rightarrow> bytes \<Rightarrow> bool" where
  "answers_challenge E nonce pubkey \<longleftrightarrow>
     (\<exists>(W :: moment) doc ev. fromStructured (e_json E) (e_sha E) (e_hash E) (mem W) doc = Inr ev \<and>
        event_verify (e_secp E) ev \<and> ev_author ev = pubkey \<and>
        ev_kind ev = Client_Authentication \<and> get_tag_content ev ''challenge'' = nonce \<and>
        challenge_age (now W) (ev_created_at ev) \<le> 10)"

definition peer_inv :: "('j, 'd, 'r, 'k, 'p) env \<Rightarrow> 'j peer \<Rightarrow> bool" where
  "peer_inv E p \<longleftrightarrow>
     \<not> p_no_limit p \<and> length (p_auth_nonce p) = 15 \<and>
     (p_authent p \<longrightarrow> answers_challenge E (p_auth_nonce p) (p_auth_pubkey p)) \<and>
     (\<forall>ev. p_file_event p = Some ev \<longrightarrow>
        event_verify (e_secp E) ev \<and> file_check (e_options E) ev = None) \<and>
     list_all (\<lambda>s. list_all filter_ok (snd s)) (p_subscriptions p)"

lemma peer_inv_frame:
  assumes "peer_inv E p" "event_frame p p'"
    "\<forall>ev. p_file_event p' = Some ev \<longrightarrow> event_verify (e_secp E) ev \<and> file_check (e_options E) ev = None"
  shows "peer_inv E p'"
proof -
  have "p_authent p' = p_authent p" "p_no_limit p' = p_no_limit p" "p_auth_pubkey p' = p_auth_pubkey p"
    "p_auth_nonce p' = p_auth_nonce p" "p_subscriptions p' = p_subscriptions p"
    using assms(2) by (simp_all only: event_frame_def simp_thms)
  then show ?thesis using assms(1,3) unfolding peer_inv_def by (elim conjE) (intro conjI; simp only: simp_thms)
qed

lemma peer_inv_same: "peer_inv E p \<Longrightarrow> event_frame p p' \<Longrightarrow> p_file_event p' = p_file_event p \<Longrightarrow> peer_inv E p'"
  by (rule peer_inv_frame) (simp_all add: peer_inv_def)

lemma peer_inv_subscribed:
  assumes "peer_inv E p" "subscribed E p p'"
  shows "peer_inv E p'"
proof -
  obtain subs where subs: "event_frame (p\<lparr>p_subscriptions := p_subscriptions p @ subs\<rparr>) p'"
    "list_all (\<lambda>s. list_all filter_ok (snd s)) subs" "p_file_event p' = p_file_event p"
    using assms(2) unfolding subscribed_def by (elim conjE exE)
  have "peer_inv E (p\<lparr>p_subscriptions := p_subscriptions p @ subs\<rparr>)"
    using assms(1) subs(2) by (simp add: peer_inv_def)
  moreover have "p_file_event p' = p_file_event (p\<lparr>p_subscriptions := p_subscriptions p @ subs\<rparr>)"
    using subs(3) by simp
  ultimately show ?thesis using subs(1) by (metis peer_inv_same)
qed

lemma peer_inv_out [simp]: "peer_inv E (p\<lparr>p_out := out\<rparr>) \<longleftrightarrow> peer_inv E p"
  by (simp add: peer_inv_def)

lemma process_auth_inv:
  assumes "peer_inv E p" "process_auth E W doc (p, a) = (p', a')"
  shows "peer_inv E p'"
proof (cases "auth_check E W p doc")
  case (Inl x)
  then show ?thesis using assms by (auto simp: process_auth_def)
next
  case (Inr ev)
  have checked: "fromStructured (e_json E) (e_sha E) (e_hash E) (mem W) doc = Inr ev"
    "event_verify (e_secp E) ev" "ev_kind ev = Client_Authentication"
    "challenge_age (now W) (ev_created_at ev) \<le> 10" "get_tag_content ev ''challenge'' = p_auth_nonce p"
    using Inr by (auto simp: auth_check_def split: sum.splits if_splits)
  then have "answers_challenge E (p_auth_nonce p) (ev_author ev)" unfolding answers_challenge_def by blast
  then show ?thesis using assms Inr by (auto simp: process_auth_def peer_inv_def)
qed

lemma binary_inv:
  assumes "peer_inv E p" "processBinaryMessage E W data (p, a) = (e, (p', a'))"
  shows "peer_inv E p'"
proof -
  have fc: "file_check options (ev\<lparr>ev_nip97 := True\<rparr>) = file_check options ev" for options ev
    by (simp add: file_check_def)
  have ver: "event_verify S (ev\<lparr>ev_nip97 := True\<rparr>) = event_verify S ev" for S :: "('k, 'p) secp256k1" and ev
    by (simp add: event_verify_def)
  show ?thesis
    using processBinaryMessage_frame [OF assms(2)] assms(1)
    by (intro peer_inv_frame [OF assms(1)]) (auto simp: peer_inv_def fc event_verify_def)
qed

lemma dispatch_inv:
  assumes "peer_inv E p" "dispatch E W msg (p, a) = (e, (p', a'))"
  shows "peer_inv E p'"
proof -
  have ev: "peer_inv E q" if "on_event E W msg (p, a) = (q, b)" for q b
    using on_event_frame [OF that] by (intro peer_inv_same [OF assms(1)]) auto
  have announce: "peer_inv E q" if "on_file E W msg (p, a) = (q, b)" for q b
    using on_file_frame [OF that] assms(1) by (intro peer_inv_frame [OF assms(1)]) (auto simp: peer_inv_def)
  have req: "peer_inv E q" if "on_req E W msg (p, a) = (x, (q, b))" for x q b
    using on_req_frame [OF that] peer_inv_subscribed [OF assms(1)] by blast
  have count: "peer_inv E q" if "on_count E W msg (p, a) = (x, (q, b))" for x q b
    using that assms(1) by (auto simp: on_count_def Let_def split: if_splits)
  have close: "peer_inv E q" if "on_close E msg (p, a) = (q, b)" for q b
    using that assms(1) by (auto simp: on_close_def Let_def peer_inv_def list_all_iff)
  have retr: "peer_inv E q" if "on_retrieve E W msg (p, a) = (q, b)" for q b
    using on_retrieve_frame [OF that] by (intro peer_inv_same [OF assms(1)]) auto
  note each = assms(2) [unfolded dispatch_def Let_def prod.case]
  show ?thesis
  proof (cases "e_command E (j_string (e_json E) (j_item (e_json E) msg 0))")
    case EVENT
    then have "on_event E W msg (p, a) = (p', a')" using each by simp
    then show ?thesis by (rule ev)
  next
    case REQ
    then have "on_req E W msg (p, a) = (e, (p', a'))" using each by simp
    then show ?thesis by (rule req)
  next
    case COUNT
    then have "on_count E W msg (p, a) = (e, (p', a'))" using each by simp
    then show ?thesis by (rule count)
  next
    case CLOSE
    then have "on_close E msg (p, a) = (p', a')" using each by simp
    then show ?thesis by (rule close)
  next
    case AUTH
    then have "process_auth E W (j_item (e_json E) msg 1) (p, a) = (p', a')" using each by simp
    then show ?thesis by (rule process_auth_inv [OF assms(1)])
  next
    case FILE
    then have "on_file E W msg (p, a) = (p', a')" using each by simp
    then show ?thesis by (rule announce)
  next
    case RETRIEVE
    then have "on_retrieve E W msg (p, a) = (p', a')" using each by simp
    then show ?thesis by (rule retr)
  qed (use each assms(1) in auto)
qed

lemma processMessage_inv:
  assumes "peer_inv E p" "processMessage E W t (p, a) = (e, (p', a'))"
  shows "peer_inv E p'"
proof -
  let ?p = "if length t > unat (max_message_size (e_options E))
    then send_notice W ''Text message is too long'' p else p"
  have inv: "peer_inv E ?p" using assms(1) by simp
  have disp: "peer_inv E q" if "dispatch E W msg (?p, a) = (x, (q, b))" for msg x q b
    by (rule dispatch_inv [OF inv that])
  show ?thesis
  proof (cases "e_from_json E t")
    case None
    then show ?thesis using assms by (auto simp: processMessage_def Let_def)
  next
    case (Some msg)
    obtain x q b where d: "dispatch E W msg (?p, a) = (x, (q, b))" by (metis prod.exhaust)
    have "p' = q \<or> p' = send_notice W ''error: Internal error - command ignored'' q"
      using assms(2) unfolding processMessage_def Let_def prod.case Some option.case d
      by (auto split: option.splits if_splits)
    then show ?thesis using disp [OF d] by auto
  qed
qed

lemma client_message_inv:
  assumes "peer_inv E p" "client_message E W m (p, a) = (e, rep, (p', a'))"
  shows "peer_inv E p'"
proof (cases m)
  case (TextMessage t)
  then show ?thesis using assms processMessage_inv [OF assms(1)]
    by (auto simp: client_message_def Let_def split: prod.splits)
next
  case (BinaryMessage data)
  then show ?thesis using assms binary_inv [OF assms(1)]
    by (auto simp: client_message_def Let_def split: prod.splits)
qed (use assms in \<open>auto simp: client_message_def\<close>)

lemma client_start_inv: "peer_inv E (fst (client_start E W rnum self url a))"
  by (simp add: client_start_def prepare_auth_challenge_def new_peer_def peer_inv_def Let_def)

lemma session_step_inv:
  assumes "session_step E c c'" "peer_inv E (fst c)"
  shows "peer_inv E (fst c')"
  using assms
proof (cases rule: session_step.cases)
  case (message W m e rep)
  then show ?thesis using assms(2) client_message_inv [of E "fst c" W m "snd c" e rep "fst c'" "snd c'"]
    by simp
next
  case (delivery p a W v)
  then show ?thesis
    using assms(2) deliver_frame [of p E W v] peer_inv_same [of E p "deliver E W v p"] by simp
next
  case (others p a a')
  then show ?thesis using assms(2) by simp
qed

section \<open>How a text message can fail\<close>

lemma send_candidates_in_bounds:
  "send_candidates E W subid flts a cds limit p \<noteq> (Some (Some OutOfBounds), p')"
proof (induction cds arbitrary: limit p)
  case Nil
  then show ?case by simp
next
  case (Cons cd cds)
  then show ?case
    by (auto simp: send_def answer_document_def Let_def
        split: option.splits EventOrAttachment.splits sum.splits if_splits)
qed

lemma on_req_throws:
  assumes "on_req E W msg c = (Some OutOfBounds, c')"
  shows "length (j_array (e_json E) msg) < 2"
proof (rule ccontr)
  assume long: "\<not> length (j_array (e_json E) msg) < 2"
  then show False
    using assms
    by (cases c) (auto simp: on_req_def Let_def send_candidates_in_bounds split: if_splits option.splits prod.splits)
qed

lemma dispatch_throws:
  "fst (dispatch E W msg c) = Some OutOfBounds \<longleftrightarrow>
     e_command E (j_string (e_json E) (j_item (e_json E) msg 0)) \<in> {REQ, COUNT} \<and>
     length (j_array (e_json E) msg) < 2"
proof -
  obtain p a where c: "c = (p, a)" by fastforce
  have req: "fst (on_req E W msg c) = Some OutOfBounds \<longleftrightarrow> length (j_array (e_json E) msg) < 2"
  proof
    assume "fst (on_req E W msg c) = Some OutOfBounds"
    then have "on_req E W msg c = (Some OutOfBounds, snd (on_req E W msg c))" by (metis prod.collapse)
    then show "length (j_array (e_json E) msg) < 2" by (rule on_req_throws)
  qed (simp add: on_req_def c Let_def)
  have count: "fst (on_count E W msg c) = Some OutOfBounds \<longleftrightarrow> length (j_array (e_json E) msg) < 2"
    by (simp add: on_count_def c Let_def)
  show ?thesis
    by (cases "e_command E (j_string (e_json E) (j_item (e_json E) msg 0))")
      (simp_all add: dispatch_def Let_def req count c [symmetric], simp_all add: dispatch_def Let_def c)
qed

section \<open>Properties\<close>



text \<open>C22: a text message never ends the connection by an exception, with one exception: a REQ or COUNT
without a name, whose handler reads past the end of the message.\<close>

theorem message_failures:
  "fst (processMessage E W t c) =
     (case e_from_json E t of
        None \<Rightarrow> None
      | Some msg \<Rightarrow>
          if e_command E (j_string (e_json E) (j_item (e_json E) msg 0)) \<in> {REQ, COUNT} \<and>
             length (j_array (e_json E) msg) < 2
          then Some OutOfBounds else None)"
proof (cases "e_from_json E t")
  case None
  obtain p a where "c = (p, a)" by fastforce
  then show ?thesis using None by (simp add: processMessage_def Let_def)
next
  case (Some msg)
  obtain p a where c: "c = (p, a)" by fastforce
  let ?p = "if length t > unat (max_message_size (e_options E))
    then send_notice W ''Text message is too long'' p else p"
  obtain x d where d: "dispatch E W msg (?p, a) = (x, d)"
    by (cases "dispatch E W msg (?p, a)") blast
  have "fst (processMessage E W t c) = (if x = Some OutOfBounds then Some OutOfBounds else None)"
    unfolding processMessage_def Let_def prod.case c Some option.case d
    by (auto split: option.splits prod.splits)
  moreover have "x = Some OutOfBounds \<longleftrightarrow>
      e_command E (j_string (e_json E) (j_item (e_json E) msg 0)) \<in> {REQ, COUNT} \<and>
      length (j_array (e_json E) msg) < 2"
    using dispatch_throws [of E W msg "(?p, a)"] d by simp
  ultimately show ?thesis using Some by simp
qed

end
