(* ===== verification/Bech32_C.thy ===== *)
theory Bech32_C
  imports Bech32_Roundtrip Std_Text
begin

text \<open>
  The C bindings of \<^verbatim>\<open>src/src/nostr_server/bech32.cpp\<close> (the functions \<open>bech32_...\<close> declared
  \<open>extern "C"\<close> in \<^verbatim>\<open>bech32.h\<close>).

  A pointer argument is an option (\<open>None\<close> is \<open>nullptr\<close>), a buffer is the list of its cells, and
  a write is refused (\<open>None\<close>) when it leaves the cells: in C that is undefined behaviour. The
  heap is the list of live blocks; each allocation succeeds or fails as the caller of the model
  says (\<open>ok\<close>), and \<open>calloc\<close> returns zeroed cells. Sizes are 64-bit (\<open>size_t\<close>).

  The properties: what \<open>encode\<close> writes into a string created for its arguments, and which
  strings a result created by the library can take.
\<close>

section \<open>Memory\<close>

record heap =
  live :: "nat list"
  next_block :: nat

definition c_alloc :: "bool \<Rightarrow> heap \<Rightarrow> nat option \<times> heap" where
  "c_alloc ok h =
     (if ok then (Some (next_block h),
                  h\<lparr>live := next_block h # live h, next_block := Suc (next_block h)\<rparr>)
      else (None, h))"

definition c_free :: "nat option \<Rightarrow> heap \<Rightarrow> heap" where
  "c_free p h = (case p of None \<Rightarrow> h | Some b \<Rightarrow> h\<lparr>live := remove1 b (live h)\<rparr>)"

text \<open>\<open>copy_n\<close> of a value to the front of a buffer, without and with the final zero.\<close>

definition write_cells :: "'a list \<Rightarrow> 'a list \<Rightarrow> 'a list option" where
  "write_cells v buf =
     (if length v \<le> length buf then Some (v @ drop (length v) buf) else None)"

definition write_c_string :: "string \<Rightarrow> string \<Rightarrow> string option" where
  "write_c_string v buf = write_cells (v @ [NUL]) buf"

definition size_t_of :: "nat \<Rightarrow> nat" where
  "size_t_of n = n mod 2 ^ 64"

section \<open>Types\<close>

datatype bech32_error =
    E_BECH32_SUCCESS
  | E_BECH32_UNKNOWN_ERROR
  | E_BECH32_NULL_ARGUMENT
  | E_BECH32_LENGTH_TOO_SHORT
  | E_BECH32_INVALID_CHECKSUM
  | E_BECH32_NO_MEMORY
  | E_BECH32_MAX_ERROR

datatype bech32_encoding = ENCODING_INVALID | ENCODING_BECH32 | ENCODING_BECH32M

record bech32_bstring =
  bs_block :: nat
  bs_string_block :: "nat option"
  bs_string :: string
  bs_length :: nat

record bech32_DecodedResult =
  dc_block :: nat
  dc_hrp_block :: "nat option"
  dc_dp_block :: "nat option"
  dc_encoding :: bech32_encoding
  dc_hrp :: string
  dc_hrplen :: nat
  dc_dp :: bytes
  dc_dplen :: nat

section \<open>Error messages\<close>

definition bech32_errordesc :: "string list" where
  "bech32_errordesc =
     [''Success'', ''Unknown error'', ''Function argument was null'',
      ''Function argument length was too short'', ''Invalid Checksum'', ''Out of Memory'',
      ''Max error'']"

text \<open>The number of an error code; \<open>bech32_strerror\<close> takes any \<open>int\<close>.\<close>

fun error_code :: "bech32_error \<Rightarrow> int" where
  "error_code E_BECH32_SUCCESS = 0"
| "error_code E_BECH32_UNKNOWN_ERROR = 1"
| "error_code E_BECH32_NULL_ARGUMENT = 2"
| "error_code E_BECH32_LENGTH_TOO_SHORT = 3"
| "error_code E_BECH32_INVALID_CHECKSUM = 4"
| "error_code E_BECH32_NO_MEMORY = 5"
| "error_code E_BECH32_MAX_ERROR = 6"

definition bech32_strerror :: "int \<Rightarrow> string" where
  "bech32_strerror code =
     (if code \<ge> error_code E_BECH32_SUCCESS \<and> code < error_code E_BECH32_MAX_ERROR
      then bech32_errordesc ! nat code
      else bech32_errordesc ! nat (error_code E_BECH32_UNKNOWN_ERROR))"

section \<open>Creating and freeing a decoded result\<close>

fun find_first_of :: "char \<Rightarrow> string \<Rightarrow> nat option" where
  "find_first_of c [] = None"
| "find_first_of c (x # xs) =
     (if x = c then Some 0 else map_option Suc (find_first_of c xs))"

text \<open>\<open>ok\<close> answers the three allocations: the structure, \<open>hrp\<close> and \<open>dp\<close>.\<close>

definition bech32_create_DecodedResult ::
    "bool \<times> bool \<times> bool \<Rightarrow> string option \<Rightarrow> heap \<Rightarrow> bech32_DecodedResult option \<times> heap" where
  "bech32_create_DecodedResult ok str h =
     (case str of
        None \<Rightarrow> (None, h)
      | Some s \<Rightarrow>
          let inputStr = c_str s
          in if length inputStr < MIN_BECH32_LENGTH then (None, h)
             else (case find_first_of separator inputStr of
                 None \<Rightarrow> (None, h)
               | Some number_of_hrp_characters \<Rightarrow>
                   if length inputStr - number_of_hrp_characters - 1 < CHECKSUM_LENGTH
                   then (None, h)
                   else
                     let number_of_data_characters =
                           length inputStr - number_of_hrp_characters - SEPARATOR_LENGTH
                             - CHECKSUM_LENGTH;
                         (hrpdp, h) = c_alloc (fst ok) h
                     in (case hrpdp of
                           None \<Rightarrow> (None, h)
                         | Some block \<Rightarrow>
                             let (hrp, h) = c_alloc (fst (snd ok)) h
                             in if hrp = None then (None, c_free hrpdp h)
                                else
                                  let (dp, h) = c_alloc (snd (snd ok)) h
                                  in if dp = None then (None, c_free hrpdp (c_free hrp h))
                                     else (Some \<lparr>dc_block = block, dc_hrp_block = hrp,
                                       dc_dp_block = dp, dc_encoding = ENCODING_INVALID,
                                       dc_hrp = replicate (number_of_hrp_characters + 1) NUL,
                                       dc_hrplen = number_of_hrp_characters,
                                       dc_dp = replicate number_of_data_characters 0,
                                       dc_dplen = number_of_data_characters\<rparr>, h))))"

definition bech32_free_DecodedResult :: "bech32_DecodedResult option \<Rightarrow> heap \<Rightarrow> heap" where
  "bech32_free_DecodedResult decodedResult h =
     (case decodedResult of
        None \<Rightarrow> h
      | Some r \<Rightarrow> c_free (Some (dc_block r)) (c_free (dc_hrp_block r) (c_free (dc_dp_block r) h)))"

section \<open>Creating and freeing a string\<close>

definition bech32_compute_encoded_string_length :: "nat \<Rightarrow> nat \<Rightarrow> nat" where
  "bech32_compute_encoded_string_length hrplen dplen =
     size_t_of (hrplen + SEPARATOR_LENGTH + dplen + CHECKSUM_LENGTH)"

definition bech32_free_bstring :: "bech32_bstring option \<Rightarrow> heap \<Rightarrow> heap" where
  "bech32_free_bstring bstring h =
     (case bstring of
        None \<Rightarrow> h
      | Some b \<Rightarrow> c_free (Some (bs_block b)) (c_free (bs_string_block b) h))"

definition bech32_create_bstring ::
    "bool \<times> bool \<Rightarrow> nat \<Rightarrow> nat \<Rightarrow> heap \<Rightarrow> bech32_bstring option \<times> heap" where
  "bech32_create_bstring ok hrplen dplen h =
     (if hrplen < 1 then (None, h)
      else
        let (bstring, h) = c_alloc (fst ok) h
        in (case bstring of
              None \<Rightarrow> (None, h)
            | Some block \<Rightarrow>
                let len = bech32_compute_encoded_string_length hrplen dplen;
                    (str, h) = c_alloc (snd ok) h;
                    b = \<lparr>bs_block = block, bs_string_block = str,
                      bs_string = replicate (size_t_of (len + 1)) NUL, bs_length = len\<rparr>
                in if str = None then (None, bech32_free_bstring (Some b) h)
                   else (Some b, h)))"

definition bech32_create_bstring_from_DecodedResult ::
    "bool \<times> bool \<Rightarrow> bech32_DecodedResult option \<Rightarrow> heap \<Rightarrow> bech32_bstring option \<times> heap" where
  "bech32_create_bstring_from_DecodedResult ok decodedResult h =
     (case decodedResult of
        None \<Rightarrow> (None, h)
      | Some r \<Rightarrow>
          if dc_hrplen r < 1 then (None, h)
          else bech32_create_bstring ok (dc_hrplen r) (dc_dplen r) h)"

section \<open>Strip, encode, decode\<close>

text \<open>The outer \<open>None\<close> is a write outside the buffer.\<close>

definition bech32_stripUnknownChars ::
    "string option \<Rightarrow> nat \<Rightarrow> string option \<Rightarrow> nat \<Rightarrow> (bech32_error \<times> string option) option" where
  "bech32_stripUnknownChars dst dstlen src srclen =
     (case src of
        None \<Rightarrow> Some (E_BECH32_NULL_ARGUMENT, dst)
      | Some s \<Rightarrow>
          (case dst of
             None \<Rightarrow> Some (E_BECH32_NULL_ARGUMENT, dst)
           | Some cells \<Rightarrow>
               if dstlen > srclen then Some (E_BECH32_LENGTH_TOO_SHORT, dst)
               else
                 let result = stripUnknownChars (c_str s)
                 in if dstlen < length result + 1 then Some (E_BECH32_LENGTH_TOO_SHORT, dst)
                    else map_option (\<lambda>c. (E_BECH32_SUCCESS, Some c))
                           (write_c_string result cells)))"

text \<open>The two encoders differ in the C++ function they call. \<open>dp\<close> points to at least \<open>dplen\<close>
bytes.\<close>

definition encode_into ::
    "(string \<Rightarrow> bytes \<Rightarrow> b32_error + string) \<Rightarrow> bech32_bstring option \<Rightarrow> string option \<Rightarrow>
     bytes option \<Rightarrow> nat \<Rightarrow> (bech32_error \<times> bech32_bstring option) option" where
  "encode_into encoder bstring hrp dp dplen =
     (case (bstring, hrp, dp) of
        (Some bs, Some hrp, Some dp) \<Rightarrow>
          (case encoder (c_str hrp) (take dplen dp) of
             Inl _ \<Rightarrow> Some (E_BECH32_UNKNOWN_ERROR, bstring)
           | Inr b \<Rightarrow>
               if length b > bs_length bs then Some (E_BECH32_LENGTH_TOO_SHORT, bstring)
               else map_option (\<lambda>c. (E_BECH32_SUCCESS, Some (bs\<lparr>bs_string := c\<rparr>)))
                      (write_c_string b (bs_string bs)))
      | _ \<Rightarrow> Some (E_BECH32_NULL_ARGUMENT, bstring))"

definition bech32_encode ::
    "bech32_bstring option \<Rightarrow> string option \<Rightarrow> bytes option \<Rightarrow> nat \<Rightarrow>
     (bech32_error \<times> bech32_bstring option) option" where
  "bech32_encode bstring hrp dp dplen = encode_into encode bstring hrp dp dplen"

definition bech32_encode_using_original_constant ::
    "bech32_bstring option \<Rightarrow> string option \<Rightarrow> bytes option \<Rightarrow> nat \<Rightarrow>
     (bech32_error \<times> bech32_bstring option) option" where
  "bech32_encode_using_original_constant bstring hrp dp dplen =
     encode_into encodeUsingOriginalConstant bstring hrp dp dplen"

fun cast_encoding :: "encoding \<Rightarrow> bech32_encoding" where
  "cast_encoding Invalid = ENCODING_INVALID"
| "cast_encoding Bech32 = ENCODING_BECH32"
| "cast_encoding Bech32m = ENCODING_BECH32M"

definition bech32_decode ::
    "bech32_DecodedResult option \<Rightarrow> string option \<Rightarrow>
     (bech32_error \<times> bech32_DecodedResult option) option" where
  "bech32_decode decodedResult str =
     (case decodedResult of
        None \<Rightarrow> Some (E_BECH32_NULL_ARGUMENT, decodedResult)
      | Some r \<Rightarrow>
          if dc_hrp_block r = None \<or> dc_dp_block r = None \<or> str = None
          then Some (E_BECH32_NULL_ARGUMENT, decodedResult)
          else (case decode (c_str (the str)) of
              Inl _ \<Rightarrow> Some (E_BECH32_UNKNOWN_ERROR, decodedResult)
            | Inr localResult \<Rightarrow>
                if dr_hrp localResult = [] \<and> dr_dp localResult = []
                then Some (E_BECH32_INVALID_CHECKSUM, decodedResult)
                else if length (dr_hrp localResult) > dc_hrplen r
                then Some (E_BECH32_LENGTH_TOO_SHORT, decodedResult)
                else if length (dr_dp localResult) > dc_dplen r
                then Some (E_BECH32_LENGTH_TOO_SHORT, decodedResult)
                else (case (write_c_string (dr_hrp localResult) (dc_hrp r),
                            write_cells (dr_dp localResult) (dc_dp r)) of
                    (Some hrp, Some dp) \<Rightarrow>
                      Some (E_BECH32_SUCCESS,
                        Some (r\<lparr>dc_encoding := cast_encoding (dr_encoding localResult),
                          dc_hrp := hrp, dc_dp := dp\<rparr>))
                  | _ \<Rightarrow> None)))"

section \<open>Lemmas\<close>

lemma write_cells_Some [simp]:
  "length v \<le> length buf \<Longrightarrow> write_cells v buf = Some (v @ drop (length v) buf)"
  by (simp add: write_cells_def)

lemma c_str_write:
  "write_c_string v buf = Some c \<Longrightarrow> NUL \<notin> set v \<Longrightarrow> c_str c = v"
  by (auto simp: write_c_string_def write_cells_def c_str_def takeWhile_append split: if_splits)

lemma find_first_of_Some:
  "find_first_of c s = Some i \<Longrightarrow> i < length s \<and> s ! i = c \<and> c \<notin> set (take i s)"
  by (induction s arbitrary: i) (auto split: if_splits)

lemma find_first_of_None: "find_first_of c s = None \<longleftrightarrow> c \<notin> set s"
  by (induction s) auto

lemma size_t_small [simp]: "n < 2 ^ 64 \<Longrightarrow> size_t_of n = n"
  by (simp add: size_t_of_def)

text \<open>No path through \<open>create\<close> and \<open>free\<close> leaks or frees a block of another owner.\<close>

lemma create_DecodedResult_failure:
  "bech32_create_DecodedResult ok s h = (None, h') \<Longrightarrow> live h' = live h"
  by (auto simp: bech32_create_DecodedResult_def c_alloc_def c_free_def Let_def
      split: option.splits if_splits prod.splits)

lemma create_free_DecodedResult:
  "bech32_create_DecodedResult ok s h = (Some r, h') \<Longrightarrow>
     live (bech32_free_DecodedResult (Some r) h') = live h"
  by (auto simp: bech32_create_DecodedResult_def bech32_free_DecodedResult_def c_alloc_def c_free_def
      Let_def split: option.splits if_splits prod.splits)

lemma create_bstring_failure:
  "bech32_create_bstring ok m n h = (None, h') \<Longrightarrow> live h' = live h"
  by (auto simp: bech32_create_bstring_def bech32_free_bstring_def c_alloc_def c_free_def Let_def
      split: option.splits if_splits prod.splits)

lemma create_free_bstring:
  "bech32_create_bstring ok m n h = (Some b, h') \<Longrightarrow>
     live (bech32_free_bstring (Some b) h') = live h"
  by (auto simp: bech32_create_bstring_def bech32_free_bstring_def c_alloc_def c_free_def Let_def
      split: option.splits if_splits prod.splits)

lemma create_bstring_cells:
  "bech32_create_bstring ok m n h = (Some b, h') \<Longrightarrow> m + n \<le> 90 \<Longrightarrow>
     bs_length b = m + n + 7 \<and> bs_string b = replicate (m + n + 8) NUL"
  by (auto simp: bech32_create_bstring_def bech32_compute_encoded_string_length_def bech32_limits
      Let_def c_alloc_def size_t_of_def split: option.splits if_splits prod.splits)

lemma create_DecodedResult_cells:
  assumes "bech32_create_DecodedResult ok (Some s) h = (Some r, h')" "NUL \<notin> set s"
  obtains p where "find_first_of separator s = Some p" "p + 7 \<le> length s"
    "dc_hrplen r = p" "dc_dplen r = length s - p - 7" "length (dc_hrp r) = p + 1"
    "length (dc_dp r) = length s - p - 7" "dc_hrp_block r \<noteq> None" "dc_dp_block r \<noteq> None"
  using assms that
  by (auto simp: bech32_create_DecodedResult_def c_alloc_def c_free_def bech32_limits Let_def
      split: option.splits if_splits prod.splits)

lemma NUL_not_hrp_char [simp]: "\<not> hrp_char_ok NUL"
  by (simp add: hrp_char_ok_def byte_of_def)

lemma c_tolower_plain:
  assumes "\<not> c_isupper d" "\<not> c_islower d"
  shows "c_tolower c = d \<longleftrightarrow> c = d"
proof
  assume *: "c_tolower c = d"
  have "c_islower (c_tolower c)" if "c_isupper c"
    using that by (auto simp: c_tolower_def c_isupper_def c_islower_def word_le_def uint_word_ariths)
  with * assms(2) show "c = d" by (auto simp: c_tolower_def split: if_splits)
qed (use assms in \<open>auto simp: c_tolower_def\<close>)

lemma c_tolower_eq [simp]:
  "c_tolower c = separator \<longleftrightarrow> c = separator" "c_tolower c = NUL \<longleftrightarrow> c = NUL"
  by (intro c_tolower_plain; code_simp)+

lemma separator_lower [simp]: "separator \<in> set (convertToLowercase s) \<longleftrightarrow> separator \<in> set s"
  unfolding convertToLowercase_def set_map image_iff by (metis c_tolower_eq(1))

lemma NUL_lower [simp]: "NUL \<in> set (convertToLowercase s) \<longleftrightarrow> NUL \<in> set s"
  unfolding convertToLowercase_def set_map image_iff by (metis c_tolower_eq(2))

lemma charset_not_NUL: "unat (v :: u8) < 32 \<Longrightarrow> charset ! unat v \<noteq> NUL"
  using charset_reverse(4) NUL_not_hrp_char by metis

lemma encodeBasis_string:
  assumes "encodeBasis hrp dp f = Inr s" "NUL \<notin> set hrp"
    and f: "length (f (convertToLowercase hrp) dp) = 6"
      "\<forall>v \<in> set (f (convertToLowercase hrp) dp). unat v < 32"
  shows "length s = length hrp + length dp + 7" "length hrp + length dp \<le> 83" "NUL \<notin> set s"
proof -
  note ok = encodeBasis_success [OF assms(1)]
  have s: "s = convertToLowercase hrp @ separator #
      map (\<lambda>v. charset ! unat v) (dp @ f (convertToLowercase hrp) dp)"
    using encode_ok [where f = f, OF ok f(2)] assms(1) by simp
  show "length s = length hrp + length dp + 7" "length hrp + length dp \<le> 83"
    using ok f(1) by (simp_all add: s)
  have "separator \<noteq> NUL" by code_simp
  then show "NUL \<notin> set s"
    using ok(3) f(2) assms(2) by (auto simp: s dest!: charset_not_NUL)
qed

lemma encode_into_created:
  assumes "bech32_create_bstring ok (length hrp) (length dp) h = (Some b, h')" "NUL \<notin> set hrp"
    and f: "length (f (convertToLowercase hrp) dp) = 6"
      "\<forall>v \<in> set (f (convertToLowercase hrp) dp). unat v < 32"
  shows "case encodeBasis hrp dp f of
      Inl _ \<Rightarrow> encode_into (\<lambda>h d. encodeBasis h d f) (Some b) (Some hrp) (Some dp) (length dp)
        = Some (E_BECH32_UNKNOWN_ERROR, Some b)
    | Inr s \<Rightarrow> encode_into (\<lambda>h d. encodeBasis h d f) (Some b) (Some hrp) (Some dp) (length dp)
        = Some (E_BECH32_SUCCESS, Some (b\<lparr>bs_string := s @ [NUL]\<rparr>)) \<and> c_str (s @ [NUL]) = s"
proof (cases "encodeBasis hrp dp f")
  case (Inl e)
  then show ?thesis using assms(2) by (simp add: encode_into_def)
next
  case (Inr s)
  note len = encodeBasis_string [where f = f, OF Inr assms(2) f]
  have cells: "bs_length b = length hrp + length dp + 7"
      "bs_string b = replicate (length hrp + length dp + 8) NUL"
    using create_bstring_cells [OF assms(1)] len(2) by simp_all
  have "write_c_string s (bs_string b) = Some (s @ [NUL])"
    using len(1) by (simp add: write_c_string_def cells)
  moreover have "c_str (s @ [NUL]) = s" using len(3) by (auto simp: c_str_def takeWhile_append)
  ultimately show ?thesis
    using Inr len assms(2) by (simp add: encode_into_def cells)
qed

lemma encoders:
  "encode = (\<lambda>h d. encodeBasis h d createChecksum)"
  "encodeUsingOriginalConstant = (\<lambda>h d. encodeBasis h d createChecksumUsingOriginalConstant)"
  by (intro ext; simp add: encode_def encodeUsingOriginalConstant_def)+

section \<open>Properties\<close>

text \<open>C28: a string created for the lengths of a human-readable part and of the data always
takes what \<open>bech32_encode\<close> writes: it succeeds exactly when \<open>encode\<close> does, stays inside the
buffer, and leaves there the encoded string, zero-terminated; so does the encoder of the original
constant.\<close>

theorem c_encode_fits:
  assumes "bech32_create_bstring ok (length hrp) (length dp) h = (Some b, h')" "NUL \<notin> set hrp"
  shows "(case encode hrp dp of
        Inl _ \<Rightarrow> bech32_encode (Some b) (Some hrp) (Some dp) (length dp)
          = Some (E_BECH32_UNKNOWN_ERROR, Some b)
      | Inr s \<Rightarrow> bech32_encode (Some b) (Some hrp) (Some dp) (length dp)
          = Some (E_BECH32_SUCCESS, Some (b\<lparr>bs_string := s @ [NUL]\<rparr>))
          \<and> c_str (s @ [NUL]) = s) \<and>
    (case encodeUsingOriginalConstant hrp dp of
        Inl _ \<Rightarrow> bech32_encode_using_original_constant (Some b) (Some hrp) (Some dp) (length dp)
          = Some (E_BECH32_UNKNOWN_ERROR, Some b)
      | Inr s \<Rightarrow> bech32_encode_using_original_constant (Some b) (Some hrp) (Some dp) (length dp)
          = Some (E_BECH32_SUCCESS, Some (b\<lparr>bs_string := s @ [NUL]\<rparr>))
          \<and> c_str (s @ [NUL]) = s)"
  unfolding bech32_encode_def bech32_encode_using_original_constant_def encoders
  by (intro conjI encode_into_created [OF assms]) (simp_all add: createChecksum_below)

lemma c_encode_fits_witness:
  "\<exists>b. bech32_encode (Some b) (Some ''a'') (Some []) 0
     = Some (E_BECH32_SUCCESS, Some (b\<lparr>bs_string := ''a1lqfn3a'' @ [NUL]\<rparr>))"
proof -
  have "encode ''a'' [] = Inr ''a1lqfn3a''" by code_simp
  moreover obtain b h' where
    "bech32_create_bstring (True, True) (length ''a'') (length ([] :: bytes))
       \<lparr>live = [], next_block = 0\<rparr> = (Some b, h')"
    by (simp add: bech32_create_bstring_def c_alloc_def Let_def)
  ultimately show ?thesis using c_encode_fits [of "(True, True)" "''a''" "[]"] by force
qed

lemma first_last_separator:
  assumes "find_first_of c s = Some q" "find_last_of c s = Some p"
  shows "q \<le> p" and "c \<in> set (take p s) \<longleftrightarrow> q < p"
proof -
  note first = find_first_of_Some [OF assms(1)]
  have last: "s ! p = c" "p < length s"
    using find_last_of_Some [OF assms(2)] by (metis length_take min.absorb4 nth_append_length, simp)
  have before: "s ! i \<noteq> c" if "i < q" for i
    using first that by (auto simp: in_set_conv_nth)
  show "q \<le> p" using before last(1) by (metis not_le)
  show "c \<in> set (take p s) \<longleftrightarrow> q < p"
    using first last(2) before by (auto simp: in_set_conv_nth) (metis le_less_trans linorder_not_less)
qed

text \<open>C27: a result created for a valid string takes its decoded parts, inside its buffers,
exactly when the human-readable part holds no separator; the function that creates it looks for
the first separator, \<open>decode\<close> for the last, and a string such as \<open>11...\<close> is refused as too
long for the buffers the library itself made for it.\<close>

theorem c_decode_created:
  assumes created: "bech32_create_DecodedResult ok (Some s) h = (Some r, h')"
    and valid: "decode s = Inr d" "dr_encoding d \<noteq> Invalid"
  shows "bech32_decode (Some r) (Some s) =
    (if separator \<in> set (dr_hrp d) then Some (E_BECH32_LENGTH_TOO_SHORT, Some r)
     else Some (E_BECH32_SUCCESS, Some (r\<lparr>dc_encoding := cast_encoding (dr_encoding d),
       dc_hrp := dr_hrp d @ [NUL], dc_dp := dr_dp d\<rparr>)))"
proof -
  obtain p ds where parts: "decoded_parts s p ds"
    and hrp: "dr_hrp d = convertToLowercase (take p s)" and dp: "dr_dp d = stripChecksum ds"
    using decode_success [OF valid] by metis
  have last: "find_last_of separator s = Some p" and p: "1 \<le> p" "p + 7 \<le> length s"
    and "NUL \<notin> set s"
    using parts by (auto simp: decoded_parts_def findSeparatorPosition_def list_all_iff)
  then have str: "c_str s = s" by simp
  obtain q where q: "find_first_of separator s = Some q" "q + 7 \<le> length s"
    "dc_hrplen r = q" "dc_dplen r = length s - q - 7" "length (dc_hrp r) = q + 1"
    "length (dc_dp r) = length s - q - 7" "dc_hrp_block r \<noteq> None" "dc_dp_block r \<noteq> None"
    using create_DecodedResult_cells [OF created \<open>NUL \<notin> set s\<close>] by metis
  have len: "length (dr_hrp d) = p" "length (dr_dp d) = length s - p - 7"
    using decoded_parts_string(2) [OF parts] p
    by (simp_all add: hrp dp stripChecksum_def CHECKSUM_LENGTH_def)
  note order = first_last_separator [OF q(1) last]
  have sep: "separator \<in> set (dr_hrp d) \<longleftrightarrow> q < p" using order(2) by (simp add: hrp)
  show ?thesis
  proof (cases "q < p")
    case True
    then show ?thesis
      using valid(1) q sep len p by (auto simp: bech32_decode_def str)
  next
    case False
    then have "q = p" using order(1) by simp
    then show ?thesis
      using valid(1) q sep len p by (auto simp: bech32_decode_def str write_c_string_def)
  qed
qed

lemma vector_11w9nvlh:
  "decode ''11w9nvlh'' = Inr \<lparr>dr_encoding = Bech32m, dr_hrp = ''1'', dr_dp = []\<rparr>"
proof -
  have wf: "rejectBStringThatIsntWellFormed ''11w9nvlh'' = None" by code_simp
  have parts: "extractHumanReadablePart ''11w9nvlh'' = ''1''"
    "extractDataPart ''11w9nvlh'' = map byte_of ''w9nvlh''" by code_simp+
  have low: "convertToLowercase ''1'' = ''1''" by code_simp
  have dp: "mapDP (map byte_of ''w9nvlh'') = Inr [14, 5, 19, 12, 31, 23]" by code_simp
  have checks: "first_throw [rejectHRPTooShort ''1'', rejectHRPTooLong ''1'',
      rejectDPTooShort (map byte_of ''w9nvlh'')] = None" by code_simp
  have sum: "polymod (expandHrp ''1'' @ [14, 5, 19, 12, 31, 23]) = M"
    by (simp add: polymod_def expandHrp_def byte_of_def polymod_step_gen gen_def M_def)
  show ?thesis
    unfolding decode_def wf parts Let_def option.case checks low dp sum.case verifyChecksum_def sum
    by (simp add: stripChecksum_def CHECKSUM_LENGTH_def)
qed

lemma c_decode_created_witness:
  "\<exists>r. bech32_decode (Some r) (Some ''11w9nvlh'') = Some (E_BECH32_LENGTH_TOO_SHORT, Some r)"
proof -
  obtain r h' where "bech32_create_DecodedResult (True, True, True) (Some ''11w9nvlh'')
      \<lparr>live = [], next_block = 0\<rparr> = (Some r, h')"
    by (simp add: bech32_create_DecodedResult_def c_alloc_def bech32_limits separator_def Let_def)
  from c_decode_created [OF this vector_11w9nvlh] show ?thesis by (auto simp: separator_def)
qed

end
