(* ===== verification/Decimal.thy ===== *)
theory Decimal
  imports Nostr_Prelude "HOL-Library.Signed_Division"
begin

text \<open>
  \<^verbatim>\<open>src/src/telemetry/decimal.h\<close>: fixed decimal numbers, a 64-bit integer with a number of
  decimals \<open>decimals\<close> that is a parameter of the type (negative: the last digits are not kept).

  A stored number is an \<open>int\<close>; a signed operation whose result does not fit 64 bits is undefined
  in C++ and is \<open>None\<close> here, as is a division by zero. Division truncates towards zero
  (\<open>sdiv\<close>, \<open>smod\<close>). The conversions from and to floating point are not modelled, nor
  is the division that goes through them.

  The property: what \<open>to_string\<close> writes is read back. A lemma shows that the product is a nearest
  number of the type.
\<close>

section \<open>Arithmetic on the stored number\<close>

definition in_int64 :: "int \<Rightarrow> bool" where
  "in_int64 n \<longleftrightarrow> - (2 ^ 63) \<le> n \<and> n < 2 ^ 63"

definition int64 :: "int \<Rightarrow> int option" where
  "int64 n = (if in_int64 n then Some n else None)"

text \<open>A program that uses a type whose constants do not fit is refused by the compiler
(\<open>pow10\<close> is evaluated at compile time).\<close>

definition pow10 :: "int \<Rightarrow> int" where
  "pow10 pos_count = 10 ^ nat pos_count"

definition multiply_by :: "int \<Rightarrow> int" where
  "multiply_by decimals = pow10 decimals"

definition divide_by :: "int \<Rightarrow> int" where
  "divide_by decimals = pow10 (- decimals)"

definition divide_round :: "int \<Rightarrow> int \<Rightarrow> int option" where
  "divide_round x y =
     (if y = 0 then None
      else if x > 0 then Option.bind (int64 (x + y sdiv 2)) (\<lambda>s. int64 (s sdiv y))
      else Option.bind (int64 (x - y sdiv 2)) (\<lambda>s. int64 (s sdiv y)))"

section \<open>Constructors and conversions\<close>

definition of_base :: "int \<Rightarrow> int \<Rightarrow> int option" where
  "of_base decimals v =
     Option.bind (int64 (v * multiply_by decimals)) (\<lambda>m. divide_round m (divide_by decimals))"

text \<open>The loop of the conversion to fewer decimals.\<close>

primrec drop_decimals :: "nat \<Rightarrow> int \<Rightarrow> int option" where
  "drop_decimals 0 n = Some n"
| "drop_decimals (Suc k) n = Option.bind (int64 (n + 5)) (\<lambda>s. drop_decimals k (s sdiv 10))"

definition of_decimal :: "int \<Rightarrow> int \<Rightarrow> int \<Rightarrow> int option" where
  "of_decimal decimals d raw =
     (let dec_diff = decimals - d
      in if dec_diff > 0 then int64 (raw * pow10 dec_diff)
         else if dec_diff < 0 then drop_decimals (nat (- dec_diff)) raw
         else Some raw)"

definition to_int :: "int \<Rightarrow> int \<Rightarrow> int option" where
  "to_int decimals n =
     Option.bind (int64 (n * divide_by decimals)) (\<lambda>m. divide_round m (multiply_by decimals))"

section \<open>Operators\<close>

definition dec_add :: "int \<Rightarrow> int \<Rightarrow> int option" where "dec_add a b = int64 (a + b)"
definition dec_sub :: "int \<Rightarrow> int \<Rightarrow> int option" where "dec_sub a b = int64 (a - b)"

definition dec_mul :: "int \<Rightarrow> int \<Rightarrow> int \<Rightarrow> int option" where
  "dec_mul decimals a b =
     Option.bind (int64 (a * b)) (\<lambda>p.
     Option.bind (int64 (p * divide_by decimals)) (\<lambda>p. divide_round p (multiply_by decimals)))"

text \<open>Division by an integer (the other division goes through floating point).\<close>

definition dec_div_int :: "int \<Rightarrow> int \<Rightarrow> int option" where
  "dec_div_int a b = divide_round a b"

definition dec_inc :: "int \<Rightarrow> int option" where "dec_inc a = int64 (a + 1)"
definition dec_dec :: "int \<Rightarrow> int option" where "dec_dec a = int64 (a - 1)"

text \<open>The operators that change the number: the new number (\<open>++\<close> and \<open>--\<close> behind it also give the old one).\<close>

definition dec_add_assign :: "int \<Rightarrow> int \<Rightarrow> int option" where "dec_add_assign n b = int64 (n + b)"
definition dec_sub_assign :: "int \<Rightarrow> int \<Rightarrow> int option" where "dec_sub_assign n b = int64 (n - b)"

definition dec_mul_assign :: "int \<Rightarrow> int \<Rightarrow> int \<Rightarrow> int option" where
  "dec_mul_assign decimals n b =
     Option.bind (int64 (n * b)) (\<lambda>n.
     Option.bind (int64 (n * divide_by decimals)) (\<lambda>p. divide_round p (multiply_by decimals)))"

definition dec_div_assign_int :: "int \<Rightarrow> int \<Rightarrow> int option" where
  "dec_div_assign_int n b = divide_round n b"

definition dec_post_inc :: "int \<Rightarrow> (int \<times> int) option" where
  "dec_post_inc n = map_option (\<lambda>m. (n, m)) (int64 (n + 1))"

definition dec_post_dec :: "int \<Rightarrow> (int \<times> int) option" where
  "dec_post_dec n = map_option (\<lambda>m. (n, m)) (int64 (n - 1))"

text \<open>The sample, and the number that is left. Without \<open>interlocked\<close> the old number goes through the
constructor from an integer, which takes it for a whole number and scales it.\<close>

definition dec_sample :: "int \<Rightarrow> bool \<Rightarrow> int \<Rightarrow> int option \<times> int" where
  "dec_sample decimals interlocked n = (if interlocked then Some n else of_base decimals n, 0)"

text \<open>The assigning operators agree with the plain ones.\<close>

lemma dec_assign_agrees:
  "dec_add_assign n b = dec_add n b" "dec_sub_assign n b = dec_sub n b"
  "dec_mul_assign decimals n b = dec_mul decimals n b" "dec_div_assign_int n b = dec_div_int n b"
  by (simp_all add: dec_add_assign_def dec_add_def dec_sub_assign_def dec_sub_def dec_mul_assign_def
      dec_mul_def dec_div_assign_int_def dec_div_int_def)

section \<open>Reading a text\<close>

text \<open>\<open>Undefined\<close> is an overflow, or the read behind the end of the text that the constructor
does when the text is a lone minus sign.\<close>

datatype decimal_error = MultipleDots | UnexpectedCharacter | EmptyString | Undefined

definition digit_value :: "char \<Rightarrow> int" where
  "digit_value c = sint (byte_of c) - 48"

definition is_digit :: "char \<Rightarrow> bool" where
  "is_digit c \<longleftrightarrow> 0 \<le> digit_value c \<and> digit_value c \<le> 9"

text \<open>The loop over the characters: the number read, whether a dot was seen, the decimals read.\<close>

fun read_digits ::
    "int \<Rightarrow> int \<Rightarrow> bool \<Rightarrow> int \<Rightarrow> string \<Rightarrow> decimal_error + int \<times> int" where
  "read_digits decimals n dot decs [] = Inr (n, decs)"
| "read_digits decimals n dot decs (c # cs) =
     (if is_digit c then
        (case Option.bind (int64 (n * 10)) (\<lambda>m. int64 (m + digit_value c)) of
           None \<Rightarrow> Inl Undefined
         | Some n \<Rightarrow>
             if dot then
               (let decs = decs + 1
                in if decs > decimals then Inr (n, decs) else read_digits decimals n dot decs cs)
             else read_digits decimals n dot decs cs)
      else if c = CHR ''.'' then
        (if dot then Inl MultipleDots else read_digits decimals n True 0 cs)
      else Inl UnexpectedCharacter)"

primrec scale_up :: "nat \<Rightarrow> int \<Rightarrow> int option" where
  "scale_up 0 n = Some n"
| "scale_up (Suc k) n = Option.bind (int64 (n * 10)) (scale_up k)"

primrec scale_down :: "nat \<Rightarrow> int \<Rightarrow> int option" where
  "scale_down 0 n = Some n"
| "scale_down (Suc k) n = Option.bind (divide_round n 10) (scale_down k)"

definition finish_number :: "int \<Rightarrow> bool \<Rightarrow> int \<times> int \<Rightarrow> decimal_error + int" where
  "finish_number decimals neg r =
     (case Option.bind (scale_up (nat (decimals - snd r)) (fst r))
             (\<lambda>n. Option.bind (scale_down (nat (snd r - decimals)) n)
                (\<lambda>n. if neg then int64 (- n) else Some n)) of
        None \<Rightarrow> Inl Undefined | Some n \<Rightarrow> Inr n)"

definition of_string :: "int \<Rightarrow> string \<Rightarrow> decimal_error + int" where
  "of_string decimals strn =
     (case strn of
        [] \<Rightarrow> Inl EmptyString
      | c # cs \<Rightarrow>
          let neg = (c = CHR ''-''); rest = (if neg then cs else strn)
          in (case rest of
                [] \<Rightarrow> Inl Undefined
              | d # ds \<Rightarrow>
                  let rest = (if d = CHR ''+'' then ds else rest)
                  in if rest = [] then Inl EmptyString
                     else (case read_digits decimals 0 False 0 rest of
                             Inl e \<Rightarrow> Inl e
                           | Inr r \<Rightarrow> finish_number decimals neg r)))"

section \<open>Writing a text\<close>

text \<open>The recursion of \<open>to_string_helper\<close> on a number that is not negative.\<close>

function to_string_helper :: "nat \<Rightarrow> int \<Rightarrow> string" where
  "to_string_helper n decimals =
     (if decimals \<ge> 0 \<or> n \<noteq> 0
      then to_string_helper (n div 10) (decimals - 1)
        @ (if decimals = 1 then ''.'' else '''')
        @ [char_of (48 + n mod 10)]
      else [])"
  by auto

termination
proof (relation "measure (\<lambda>(n, d). n + nat (d + 1))")
  fix n :: nat and d :: int
  assume "d \<ge> 0 \<or> n \<noteq> 0"
  then show "((n div 10, d - 1), n, d) \<in> measure (\<lambda>(n, d). n + nat (d + 1))"
    by (cases "n = 0") (auto simp: nat_less_iff)
qed simp

declare to_string_helper.simps [simp del]

definition to_string :: "int \<Rightarrow> int \<Rightarrow> string option" where
  "to_string decimals n =
     (if n = 0 then
        Some (''0'' @ (if decimals > 0 then ''.'' @ replicate (nat decimals) CHR ''0'' else []))
      else
        map_option (\<lambda>s. s @ replicate (nat (- decimals)) CHR ''0'')
          (if n < 0 then
             map_option (\<lambda>m. ''-'' @ to_string_helper (nat m) decimals) (int64 (- n))
           else Some (to_string_helper (nat n) decimals)))"

section \<open>Round trip\<close>

lemma int64_Some [simp]: "in_int64 n \<Longrightarrow> int64 n = Some n"
  by (simp add: int64_def)

lemma int64_eq_Some [simp]: "int64 n = Some m \<longleftrightarrow> m = n \<and> in_int64 n"
  by (auto simp: int64_def)

lemma digit_char:
  assumes "n < 10"
  shows "digit_value (char_of (48 + n)) = int n" "is_digit (char_of (48 + n))"
proof -
  have "list_all (\<lambda>n. digit_value (char_of (48 + n)) = int n) [0..<10]" by code_simp
  with assms show "digit_value (char_of (48 + n)) = int n" by (simp add: list_all_iff)
  with assms show "is_digit (char_of (48 + n))" by (simp add: is_digit_def)
qed

lemma dot_not_digit [simp]: "\<not> is_digit CHR ''.''" and char_of_48: "char_of (48 :: nat) = CHR ''0''"
  by code_simp+

text \<open>Reading what the helper wrote, whatever follows it.\<close>

lemma read_helper:
  assumes "k \<le> decimals" "int n < 2 ^ 63"
  shows "read_digits decimals 0 False 0 (to_string_helper n k @ rest) =
    read_digits decimals (int n) (1 \<le> k) (if 1 \<le> k then k else 0) rest"
  using assms
proof (induction n k arbitrary: rest rule: to_string_helper.induct)
  case (1 n k)
  show ?case
  proof (cases "k \<ge> 0 \<or> n \<noteq> 0")
    case False
    then show ?thesis by (simp add: to_string_helper.simps)
  next
    case True
    have "int (n div 10) * 10 + int (n mod 10) = int n"
      by (metis div_mod_decomp mult.commute of_nat_add of_nat_mult of_nat_numeral)
    moreover have "in_int64 (int (n div 10) * 10)" "in_int64 (int n)"
      using 1(3) calculation by (simp_all add: in_int64_def)
    ultimately show ?thesis
      using 1 True
      by (subst to_string_helper.simps) (auto simp: digit_char)
  qed
qed

lemma helper_not_empty: "0 \<le> k \<Longrightarrow> to_string_helper n k \<noteq> []"
  by (subst to_string_helper.simps) simp

lemma helper_chars: "c \<in> set (to_string_helper n k) \<Longrightarrow> is_digit c \<or> c = CHR ''.''"
proof (induction n k rule: to_string_helper.induct)
  case (1 n k)
  then show ?case
    by (subst (asm) (2) to_string_helper.simps)
      (auto simp: digit_char split: if_splits)
qed

lemma helper_zero:
  "to_string_helper 0 (int k)
     = ''0'' @ (if k > 0 then ''.'' @ replicate k CHR ''0'' else [])"
proof (induction k)
  case (Suc k)
  have "to_string_helper 0 (int (Suc k))
      = to_string_helper 0 (int k) @ (if k = 0 then ''.'' else '''') @ ''0''"
    by (subst to_string_helper.simps) (simp add: char_of_48)
  then show ?case unfolding Suc.IH by (cases "k = 0") (simp_all add: replicate_append_same)
qed (simp add: to_string_helper.simps char_of_48)

lemma not_sign:
  "is_digit c \<or> c = CHR ''.'' \<Longrightarrow> c \<noteq> CHR ''-'' \<and> c \<noteq> CHR ''+''"
  by (auto simp: is_digit_def digit_value_def byte_of_def)

lemma read_positive:
  assumes "0 \<le> d" "int n < 2 ^ 63"
  shows "of_string d (to_string_helper n d) = Inr (int n)"
    and "of_string d (CHR ''-'' # to_string_helper n d) = Inr (- int n)"
proof -
  obtain c cs where s: "to_string_helper n d = c # cs"
    using helper_not_empty [OF assms(1)] by (cases "to_string_helper n d") auto
  then have c: "c \<noteq> CHR ''-''" "c \<noteq> CHR ''+''"
    using helper_chars [of c n d] not_sign by auto
  have read: "read_digits d 0 False 0 (c # cs) = Inr (int n, d)"
    using read_helper [of d d n "[]"] assms by (simp add: s)
  have "in_int64 (- int n)" using assms(2) by (simp add: in_int64_def)
  then have finish: "finish_number d False (int n, d) = Inr (int n)"
    "finish_number d True (int n, d) = Inr (- int n)"
    by (simp_all add: finish_number_def)
  show "of_string d (to_string_helper n d) = Inr (int n)"
    unfolding s of_string_def list.case Let_def using c read finish(1) by simp
  show "of_string d (CHR ''-'' # to_string_helper n d) = Inr (- int n)"
    unfolding s of_string_def list.case Let_def using c read finish(2) by simp
qed

lemma to_string_read:
  assumes "0 \<le> decimals" "in_int64 n"
  shows "case to_string decimals n of
      None \<Rightarrow> n = - (2 ^ 63)
    | Some s \<Rightarrow> of_string decimals s = Inr n"
proof -
  consider "n = 0" | "0 < n" | "n < 0" by linarith
  then show ?thesis
  proof cases
    case 1
    then show ?thesis
      using read_positive(1) [OF assms(1), of 0] helper_zero [of "nat decimals"] assms(1)
      by (cases "decimals = 0") (simp_all add: to_string_def)
  next
    case 2
    then show ?thesis
      using read_positive(1) [OF assms(1), of "nat n"] assms by (simp add: to_string_def in_int64_def)
  next
    case 3
    then show ?thesis
      using read_positive(2) [OF assms(1), of "nat (- n)"] assms
      by (auto simp: to_string_def int64_def in_int64_def)
  qed
qed

lemma to_string_chars:
  "to_string decimals n = Some s \<Longrightarrow> c \<in> set s \<Longrightarrow> is_digit c \<or> c = CHR ''.'' \<or> c = CHR ''-''"
proof -
  have "is_digit CHR ''0''" by code_simp
  then show "to_string decimals n = Some s \<Longrightarrow> c \<in> set s \<Longrightarrow>
      is_digit c \<or> c = CHR ''.'' \<or> c = CHR ''-''"
    by (auto simp: to_string_def split: if_splits dest!: helper_chars)
qed

section \<open>Rounding\<close>

lemma nearest_quotient:
  assumes "0 < (y :: int)"
  shows "2 * \<bar>(x + y div 2) div y * y - x\<bar> \<le> y"
proof -
  have near: "2 * \<bar>p - x\<bar> \<le> y"
    if "p + r = x + h" "0 \<le> r" "r < y" "2 * h \<le> y" "y \<le> 2 * h + 1" for p r h :: int
    using that by presburger
  show ?thesis
    by (rule near [of _ "(x + y div 2) mod y" "y div 2"]) (use assms in simp_all)
qed

lemma divide_round_nearest:
  assumes "divide_round x y = Some q" "0 < y"
  shows "2 * \<bar>q * y - x\<bar> \<le> y"
proof (cases "x > 0")
  case True
  then have "q = (x + y div 2) div y"
    using assms by (auto simp: divide_round_def signed_divide_int_def bind_eq_Some_conv sgn_if abs_if)
  then show ?thesis using nearest_quotient [of y x] True assms(2) by simp
next
  case False
  then have "q = - ((- x + y div 2) div y)"
    using assms by (auto simp: divide_round_def signed_divide_int_def bind_eq_Some_conv sgn_if abs_if)
  then show ?thesis
    using nearest_quotient [of y "- x"] False assms(2) by (simp add: abs_minus_commute algebra_simps)
qed

text \<open>The product of two numbers, when no step overflows, is a nearest number of the
type: it is off by at most half of the last decimal.\<close>

lemma decimal_mul_nearest:
  assumes "0 \<le> decimals" "dec_mul decimals a b = Some p"
  shows "2 * \<bar>p * multiply_by decimals - a * b\<bar> \<le> multiply_by decimals"
  using assms divide_round_nearest [of "a * b" "multiply_by decimals" p]
  by (auto simp: dec_mul_def divide_by_def pow10_def multiply_by_def bind_eq_Some_conv)

text \<open>The sample of a plain number with decimals is scaled once too often.\<close>

lemma decimal_sample_scaled:
  assumes "0 \<le> decimals" "fst (dec_sample decimals False n) = Some m"
  shows "m = n * multiply_by decimals"
proof -
  have "(k :: int) sdiv 1 = k" for k by (simp add: signed_divide_int_def sgn_if)
  then have "divide_round k 1 = (if in_int64 k then Some k else None)" for k
    by (simp add: divide_round_def signed_divide_int_def int64_def)
  then show ?thesis
    using assms by (auto simp: dec_sample_def of_base_def divide_by_def pow10_def bind_eq_Some_conv split: if_splits)
qed

section \<open>Properties\<close>

text \<open>C29: every number of a type with zero or more decimals, the least one excepted, is written
as a text that is read back to the same number; the least number cannot be written, as its
negation overflows.\<close>

theorem decimal_round_trip:
  assumes "0 \<le> decimals" "in_int64 n"
  shows "case to_string decimals n of
      None \<Rightarrow> n = - (2 ^ 63)
    | Some s \<Rightarrow> of_string decimals s = Inr n"
  using assms by (rule to_string_read)

lemma decimal_round_trip_witness:
  "case to_string 3 (- 1050) of
      None \<Rightarrow> (- 1050) = - (2 ^ 63 :: int)
    | Some s \<Rightarrow> of_string 3 s = Inr (- 1050)"
  by (rule decimal_round_trip) (simp_all add: in_int64_def)

end
