(* ===== verification/Open_Metrics.thy ===== *)
theory Open_Metrics
  imports Decimal Std_Text
begin

text \<open>
  The data of \<^verbatim>\<open>src/src/telemetry/open_metrics/MetricPoint.h\<close> and the rendering of a metric point
  as OpenMetrics text, the static functions \<open>render...\<close> of \<^verbatim>\<open>Collector.cpp\<close>. Each rendering
  function returns the text it puts to the output stream; what follows a fault is not written.

  Floating-point numbers are an arbitrary type with the record \<open>float_ops\<close> of what the code asks
  of the library. A time is its count of nanoseconds. The properties are in
  \<open>Open_Metrics_Text\<close>.
\<close>

unbundle bit_operations_syntax

section \<open>Data\<close>

record 'f float_ops =
  f_isnan :: "'f \<Rightarrow> bool"
  f_isfinite :: "'f \<Rightarrow> bool"
  f_negative :: "'f \<Rightarrow> bool"      \<comment> \<open>\<open>v < 0\<close>\<close>
  f_stream :: "'f \<Rightarrow> string"      \<comment> \<open>\<open>operator<<\<close>\<close>
  f_to_string :: "'f \<Rightarrow> string"   \<comment> \<open>\<open>std::to_string\<close>\<close>

text \<open>An undefined operation (a null pointer, an index out of range, a shift by too much, an
overflow) or the exception \<open>std::out_of_range\<close> of \<open>at\<close>.\<close>

datatype fault = UndefinedBehaviour | OutOfRange

datatype MetricType =
  info | counter | gauge | histogram | gauge_histogram | summary | state_set | state_enum | unknown

record MetricDefinition =
  md_type :: MetricType
  md_identifier :: string
  md_description :: string
  md_unit :: string

datatype 'f AttributeValue =
    AV_bool bool | AV_int u32 | AV_uint u32 | AV_long u64 | AV_ulong u64
  | AV_llong u64 | AV_ullong u64 | AV_float 'f | AV_double 'f | AV_ldouble 'f
  | AV_string string | AV_decimal string

type_synonym 'f AttributeKeyValue = "string \<times> 'f AttributeValue"
type_synonym 'f AttributeList = "'f AttributeKeyValue list"

record StateDef =
  st_key :: string
  st_values :: "string list"

record StateData =
  sd_def :: "StateDef option"
  sd_value :: u64

text \<open>The sum of a summary: \<open>intmax_t\<close>, \<open>uintmax_t\<close>, a decimal text or a \<open>double\<close>.\<close>

datatype 'f scalar = S_signed u64 | S_unsigned u64 | S_decimal string | S_double 'f

record 'f SummaryData =
  sm_sum :: "'f scalar"
  sm_count :: u64

text \<open>The boundaries of a histogram; the first three are pointers.\<close>

datatype 'f boundaries =
    B_double "'f list option" | B_int "u32 list option" | B_decimal_ref "string list option"
  | B_decimal "string list"

record 'f HistogramData = "'f SummaryData" +
  hs_boundaries :: "'f boundaries"
  hs_counts :: "u64 list"

datatype 'f MeasuredValue =
    MV_null | MV_int u32 | MV_uint u32 | MV_intmax u64 | MV_uintmax u64 | MV_double 'f
  | MV_bool bool | MV_decimal string | MV_state StateData
  | MV_summary "'f SummaryData" | MV_histogram "'f HistogramData"

record 'f MetricPoint =
  mp_definition :: MetricDefinition
  mp_attributes :: "'f AttributeList option"
  mp_value :: "'f MeasuredValue"
  mp_ts :: int

definition Timestamp_min :: int where "Timestamp_min = - (2 ^ 63)"

section \<open>Emitting and building\<close>

text \<open>The call operators of \<open>Emitter\<close>: the point they hand to the collector.\<close>

definition emit_point ::
    "MetricDefinition \<Rightarrow> 'f AttributeList option \<Rightarrow> 'f MeasuredValue \<Rightarrow> int option \<Rightarrow> 'f MetricPoint" where
  "emit_point d attrs value measure_time =
     \<lparr>mp_definition = d, mp_attributes = attrs, mp_value = value,
       mp_ts = (case measure_time of None \<Rightarrow> Timestamp_min | Some t \<Rightarrow> t)\<rparr>"

definition defMetric :: "MetricType \<Rightarrow> string \<Rightarrow> string \<Rightarrow> string \<Rightarrow> MetricDefinition" where
  "defMetric t identifier description unit =
     \<lparr>md_type = t, md_identifier = identifier, md_description = description, md_unit = unit\<rparr>"

section \<open>Numbers and texts\<close>

definition render_double :: "'f float_ops \<Rightarrow> 'f \<Rightarrow> string" where
  "render_double F v =
     (if f_isnan F v then ''NaN''
      else if f_isfinite F v then f_stream F v
      else if f_negative F v then ''-Inf''
      else ''+Inf'')"

definition escape_char :: "char \<Rightarrow> string" where
  "escape_char c =
     (if c = CHR 0x0A then [CHR 0x5C, CHR ''n'']
      else if c = CHR 0x22 then [CHR 0x5C, CHR 0x22]
      else if c = CHR 0x5C then [CHR 0x5C, CHR 0x5C]
      else [c])"

definition render_escaped :: "string \<Rightarrow> string" where
  "render_escaped v = concat (map escape_char v)"

definition render_signed32 :: "u32 \<Rightarrow> string" where "render_signed32 w = int_text (sint w)"
definition render_signed64 :: "u64 \<Rightarrow> string" where "render_signed64 w = int_text (sint w)"
definition render_unsigned :: "'w::len word \<Rightarrow> string" where "render_unsigned w = nat_text (unat w)"
definition render_bool :: "bool \<Rightarrow> string" where "render_bool b = (if b then ''1'' else ''0'')"

fun render_scalar :: "'f float_ops \<Rightarrow> 'f scalar \<Rightarrow> string" where
  "render_scalar F (S_signed w) = render_signed64 w"
| "render_scalar F (S_unsigned w) = render_unsigned w"
| "render_scalar F (S_decimal s) = s"
| "render_scalar F (S_double f) = render_double F f"

fun render_attribute :: "'f float_ops \<Rightarrow> 'f AttributeValue \<Rightarrow> string" where
  "render_attribute F (AV_bool b) = render_bool b"
| "render_attribute F (AV_int w) = render_signed32 w"
| "render_attribute F (AV_uint w) = render_unsigned w"
| "render_attribute F (AV_long w) = render_signed64 w"
| "render_attribute F (AV_ulong w) = render_unsigned w"
| "render_attribute F (AV_llong w) = render_signed64 w"
| "render_attribute F (AV_ullong w) = render_unsigned w"
| "render_attribute F (AV_float f) = render_double F f"
| "render_attribute F (AV_double f) = render_double F f"
| "render_attribute F (AV_ldouble f) = render_double F f"
| "render_attribute F (AV_string s) = render_escaped s"
| "render_attribute F (AV_decimal s) = s"

section \<open>Names\<close>

fun metric_type_to_string :: "MetricType \<Rightarrow> string" where
  "metric_type_to_string info = ''info''"
| "metric_type_to_string counter = ''counter''"
| "metric_type_to_string gauge = ''gauge''"
| "metric_type_to_string histogram = ''histogram''"
| "metric_type_to_string gauge_histogram = ''gaugehistogram''"
| "metric_type_to_string summary = ''summary''"
| "metric_type_to_string state_set = ''stateset''"
| "metric_type_to_string state_enum = ''stateset''"
| "metric_type_to_string unknown = ''unknown''"

definition render_metric_identifier :: "string \<Rightarrow> string" where
  "render_metric_identifier name =
     (case name of
        [] \<Rightarrow> ''error:__empty__''
      | f # _ \<Rightarrow>
          (if \<not> c_isalpha f \<and> f \<noteq> CHR '':'' then ''x'' else '''')
          @ map (\<lambda>c. if c_isalnum c \<or> c = CHR '':'' then c else CHR ''_'') name)"

definition render_metric_name :: "MetricDefinition \<Rightarrow> string" where
  "render_metric_name d =
     render_metric_identifier (md_identifier d)
     @ (if md_unit d \<noteq> [] then ''_'' @ render_metric_identifier (md_unit d) else [])"

text \<open>The same switch as that of \<open>render_escaped\<close>.\<close>

definition render_metric_comment :: "string \<Rightarrow> string" where
  "render_metric_comment name = concat (map escape_char name)"

definition render_definition :: "MetricDefinition \<Rightarrow> string" where
  "render_definition d =
     ''# TYPE '' @ render_metric_name d @ '' '' @ metric_type_to_string (md_type d) @ [CHR 0x0A]
     @ (if md_description d \<noteq> []
        then ''# HELP '' @ render_metric_name d @ '' '' @ render_metric_comment (md_description d)
          @ [CHR 0x0A]
        else [])
     @ (if md_unit d \<noteq> []
        then ''# UNIT '' @ render_metric_name d @ '' '' @ render_metric_comment (md_unit d) @ [CHR 0x0A]
        else [])"

definition render_attribute_key :: "string \<Rightarrow> string" where
  "render_attribute_key name =
     (case name of
        [] \<Rightarrow> ''__empty''
      | c # _ \<Rightarrow> (if c_isdigit c then ''n'' else '''')
          @ map (\<lambda>c. if c_isalnum c then c else CHR ''_'') name)"

definition render_attribute_value :: "'f float_ops \<Rightarrow> 'f AttributeValue \<Rightarrow> string" where
  "render_attribute_value F val = [CHR 0x22] @ render_attribute F val @ [CHR 0x22]"

section \<open>Attributes\<close>

text \<open>One loop of the two: \<open>sep\<close> precedes each attribute and becomes a comma.\<close>

fun render_list :: "'f float_ops \<Rightarrow> char \<Rightarrow> 'f AttributeList \<Rightarrow> string" where
  "render_list F sep [] = []"
| "render_list F sep ((key, value) # kvs) =
     [sep] @ render_attribute_key key @ ''='' @ render_attribute_value F value
     @ render_list F CHR '','' kvs"

definition render_attributes ::
    "'f float_ops \<Rightarrow> 'f AttributeList option \<Rightarrow> 'f AttributeList \<Rightarrow> string" where
  "render_attributes F list extra_attributes =
     (let kvs = (case list of None \<Rightarrow> [] | Some l \<Rightarrow> l)
      in if kvs = [] \<and> extra_attributes = [] then []
         else render_list F CHR ''{'' kvs
           @ render_list F (if kvs = [] then CHR ''{'' else CHR '','') extra_attributes
           @ ''}'')"

section \<open>Points\<close>

fun in_sequence :: "(fault + string) list \<Rightarrow> fault + string" where
  "in_sequence [] = Inr []"
| "in_sequence (Inl e # _) = Inl e"
| "in_sequence (Inr s # ts) = (case in_sequence ts of Inl e \<Rightarrow> Inl e | Inr t \<Rightarrow> Inr (s @ t))"

definition time_text :: "int \<Rightarrow> fault + string" where
  "time_text ts =
     (case to_string 9 ts of None \<Rightarrow> Inl UndefinedBehaviour | Some s \<Rightarrow> Inr s)"

definition render_metric_point ::
    "'f float_ops \<Rightarrow> MetricDefinition \<Rightarrow> string \<Rightarrow> 'f AttributeList option \<Rightarrow> 'f AttributeList \<Rightarrow>
     fault + string \<Rightarrow> int \<Rightarrow> fault + string" where
  "render_metric_point F d suffix attrs extra_attributes value_render ts =
     in_sequence
       [Inr (render_metric_name d), Inr suffix, Inr (render_attributes F attrs extra_attributes),
        Inr '' '', value_render, Inr '' '', time_text ts, Inr [CHR 0x0A]]"

text \<open>The sample of the state number \<open>idx\<close>: \<open>1 << idx\<close> shifts an \<open>int\<close> of 32 bits, and its
result is extended with its sign to the 64 bits of the value.\<close>

definition state_sample :: "MetricType \<Rightarrow> nat \<Rightarrow> u64 \<Rightarrow> fault + string" where
  "state_sample t idx val =
     (if t = state_enum then Inr (if of_nat idx = val then ''1'' else ''0'')
      else if idx \<ge> 32 then Inl UndefinedBehaviour
      else Inr (if scast (push_bit idx (1 :: u32)) AND val \<noteq> 0 then ''1'' else ''0''))"

fun render_states ::
    "'f float_ops \<Rightarrow> MetricDefinition \<Rightarrow> 'f AttributeList option \<Rightarrow> string \<Rightarrow> u64 \<Rightarrow> int \<Rightarrow> nat \<Rightarrow>
     string list \<Rightarrow> fault + string" where
  "render_states F d attrs key val ts idx [] = Inr []"
| "render_states F d attrs key val ts idx (n # ns) =
     in_sequence
       [render_metric_point F d [] attrs [(key, AV_string n)] (state_sample (md_type d) idx val) ts,
        render_states F d attrs key val ts (Suc idx) ns]"

text \<open>The number of boundaries, and the text of one.\<close>

fun boundaries_size :: "'f boundaries \<Rightarrow> fault + nat" where
  "boundaries_size (B_double (Some x)) = Inr (length x)"
| "boundaries_size (B_int (Some x)) = Inr (length x)"
| "boundaries_size (B_decimal_ref (Some x)) = Inr (length x)"
| "boundaries_size (B_decimal x) = Inr (length x)"
| "boundaries_size _ = Inl UndefinedBehaviour"

fun boundary_text :: "'f float_ops \<Rightarrow> 'f boundaries \<Rightarrow> nat \<Rightarrow> string" where
  "boundary_text F (B_double (Some x)) i = f_to_string F (x ! i)"
| "boundary_text F (B_int (Some x)) i = int_text (sint (x ! i))"
| "boundary_text F (B_decimal_ref (Some x)) i = x ! i"
| "boundary_text F (B_decimal x) i = x ! i"
| "boundary_text F _ i = []"

text \<open>The loop over the boundaries from \<open>i\<close>, with the count so far, and the last bucket.\<close>

function render_buckets ::
    "'f float_ops \<Rightarrow> MetricDefinition \<Rightarrow> 'f AttributeList option \<Rightarrow> 'f HistogramData \<Rightarrow> int \<Rightarrow> nat \<Rightarrow>
     nat \<Rightarrow> u64 \<Rightarrow> fault + string" where
  "render_buckets F d attrs v ts cnt i acc =
     (if i < cnt then
        if i \<ge> length (hs_counts v) then Inl OutOfRange
        else let acc = acc + hs_counts v ! i
             in in_sequence
               [render_metric_point F d ''_bucket'' attrs
                  [(''le'', AV_string (boundary_text F (hs_boundaries v) i))]
                  (Inr (render_unsigned acc)) ts,
                render_buckets F d attrs v ts cnt (Suc i) acc]
      else if cnt \<ge> length (hs_counts v) then Inl UndefinedBehaviour
      else render_metric_point F d ''_bucket'' attrs [(''le'', AV_string ''+Inf'')]
             (Inr (render_unsigned (acc + hs_counts v ! cnt))) ts)"
  by auto

termination by (relation "measure (\<lambda>(_, _, _, _, _, cnt, i, _). cnt - i)") auto

declare render_buckets.simps [simp del]

definition render_summary ::
    "'f float_ops \<Rightarrow> MetricDefinition \<Rightarrow> 'f AttributeList option \<Rightarrow> ('f, 'z) SummaryData_scheme \<Rightarrow> int \<Rightarrow>
     (fault + string) option" where
  "render_summary F d attrs v ts =
     (let sm = Inr (render_scalar F (sm_sum v)); cn = Inr (render_unsigned (sm_count v));
          both = (\<lambda>s c. Some (in_sequence [render_metric_point F d s attrs [] sm ts,
                                           render_metric_point F d c attrs [] cn ts]))
      in case md_type d of
           summary \<Rightarrow> both ''_sum'' ''_count''
         | histogram \<Rightarrow> both ''_sum'' ''_count''
         | gauge_histogram \<Rightarrow> both ''_gsum'' ''_gcount''
         | _ \<Rightarrow> None)"

text \<open>The value printed as it is, with the suffix of a counter.\<close>

definition render_direct ::
    "'f float_ops \<Rightarrow> MetricDefinition \<Rightarrow> 'f AttributeList option \<Rightarrow> string \<Rightarrow> int \<Rightarrow> fault + string" where
  "render_direct F d attrs v ts =
     render_metric_point F d (if md_type d = counter then ''_total'' else []) attrs [] (Inr v) ts"

fun render_value :: "'f float_ops \<Rightarrow> int \<Rightarrow> MetricDefinition \<Rightarrow> 'f AttributeList option \<Rightarrow>
    'f MeasuredValue \<Rightarrow> fault + string" where
  "render_value F ts d attrs MV_null = render_metric_point F d ''_info'' attrs [] (Inr ''1'') ts"
| "render_value F ts d attrs (MV_state v) =
     (case sd_def v of
        None \<Rightarrow> Inl UndefinedBehaviour
      | Some stdef \<Rightarrow> render_states F d attrs (st_key stdef) (sd_value v) ts 0 (st_values stdef))"
| "render_value F ts d attrs (MV_summary v) =
     (case render_summary F d attrs v ts of None \<Rightarrow> Inr [] | Some t \<Rightarrow> t)"
| "render_value F ts d attrs (MV_histogram v) =
     (case render_summary F d attrs v ts of
        None \<Rightarrow> Inr []
      | Some t \<Rightarrow>
          in_sequence
            [t, if md_type d = histogram
                then (case boundaries_size (hs_boundaries v) of
                        Inl e \<Rightarrow> Inl e
                      | Inr cnt \<Rightarrow> render_buckets F d attrs v ts cnt 0 0)
                else Inr []])"
| "render_value F ts d attrs (MV_int w) = render_direct F d attrs (render_signed32 w) ts"
| "render_value F ts d attrs (MV_uint w) = render_direct F d attrs (render_unsigned w) ts"
| "render_value F ts d attrs (MV_intmax w) = render_direct F d attrs (render_signed64 w) ts"
| "render_value F ts d attrs (MV_uintmax w) = render_direct F d attrs (render_unsigned w) ts"
| "render_value F ts d attrs (MV_double f) = render_direct F d attrs (render_double F f) ts"
| "render_value F ts d attrs (MV_bool b) = render_direct F d attrs (render_bool b) ts"
| "render_value F ts d attrs (MV_decimal s) = render_direct F d attrs s ts"

text \<open>\<open>now\<close> is the time of the point, \<open>created\<close> that of its sensor.\<close>

definition render_metrics ::
    "'f float_ops \<Rightarrow> int \<Rightarrow> int \<Rightarrow> 'f MetricPoint \<Rightarrow> bool \<Rightarrow> fault + string" where
  "render_metrics F now created pt render_description =
     in_sequence
       [Inr (if render_description then render_definition (mp_definition pt) else []),
        render_value F now (mp_definition pt) (mp_attributes pt) (mp_value pt),
        if md_type (mp_definition pt) \<in> {summary, counter, histogram}
        then render_metric_point F (mp_definition pt) ''_created'' (mp_attributes pt) []
               (time_text created) now
        else Inr []]"

end
