(* ===== verification/Open_Metrics_Text.thy ===== *)
theory Open_Metrics_Text
  imports Open_Metrics
begin

text \<open>
  The text \<open>Open_Metrics\<close> renders, against the grammar of the exposition format: the characters of
  metric and label names, and a reader of one sample line that gets back what was rendered.
\<close>

section \<open>Names\<close>

definition metric_name_ok :: "string \<Rightarrow> bool" where
  "metric_name_ok s \<longleftrightarrow> s \<noteq> [] \<and> (c_isalpha (hd s) \<or> hd s = CHR '':'' \<or> hd s = CHR ''_'') \<and>
     list_all (\<lambda>c. c_isalnum c \<or> c = CHR '':'' \<or> c = CHR ''_'') s"

definition label_name_ok :: "string \<Rightarrow> bool" where
  "label_name_ok s \<longleftrightarrow> s \<noteq> [] \<and> (c_isalpha (hd s) \<or> hd s = CHR ''_'') \<and>
     list_all (\<lambda>c. c_isalnum c \<or> c = CHR ''_'') s"

lemma metric_identifier_ok: "metric_name_ok (render_metric_identifier name)"
proof (cases name)
  case Nil
  have "metric_name_ok ''error:__empty__''" by code_simp
  then show ?thesis by (simp add: render_metric_identifier_def Nil)
next
  case (Cons f cs)
  have "c_isalpha CHR ''x''" by code_simp
  then show ?thesis
    by (auto simp: render_metric_identifier_def Cons metric_name_ok_def list_all_iff c_isalnum_def)
qed

lemma metric_name_append:
  "metric_name_ok s \<Longrightarrow> metric_name_ok t \<Longrightarrow> metric_name_ok (s @ ''_'' @ t)"
  by (cases s) (auto simp: metric_name_ok_def)

lemma rendered_metric_name: "metric_name_ok (render_metric_name d)"
  using metric_identifier_ok metric_name_append by (simp add: render_metric_name_def)

lemma rendered_label_name: "label_name_ok (render_attribute_key key)"
proof (cases key)
  case Nil
  have "label_name_ok ''__empty''" by code_simp
  then show ?thesis by (simp add: render_attribute_key_def Nil)
next
  case (Cons c cs)
  have "c_isalpha CHR ''n''" by code_simp
  then show ?thesis
    by (auto simp: render_attribute_key_def Cons label_name_ok_def list_all_iff c_isalnum_def)
qed

section \<open>A reader of sample lines\<close>

text \<open>The rest of a quoted value, behind its opening quote.\<close>

fun read_quoted :: "string \<Rightarrow> (string \<times> string) option" where
  "read_quoted [] = None"
| "read_quoted (c # cs) =
     (if c = CHR 0x22 then Some ([], cs)
      else if c = CHR 0x5C then
        (case cs of
           [] \<Rightarrow> None
         | e # ds \<Rightarrow> map_option (apfst (Cons (if e = CHR ''n'' then CHR 0x0A else e)))
                      (read_quoted ds))
      else map_option (apfst (Cons c)) (read_quoted cs))"

text \<open>The labels behind an opening brace or a comma, at most \<open>k\<close> of them.\<close>

fun read_labels :: "nat \<Rightarrow> string \<Rightarrow> ((string \<times> string) list \<times> string) option" where
  "read_labels 0 s = None"
| "read_labels (Suc k) s =
     (let key = takeWhile (\<lambda>c. c \<noteq> CHR ''='') s
      in (case dropWhile (\<lambda>c. c \<noteq> CHR ''='') s of
            e # q # t \<Rightarrow>
              if q \<noteq> CHR 0x22 then None
              else (case read_quoted t of
                  None \<Rightarrow> None
                | Some (v, u) \<Rightarrow>
                    (case u of
                       [] \<Rightarrow> None
                     | c # r \<Rightarrow>
                         if c = CHR ''}'' then Some ([(key, v)], r)
                         else if c = CHR '','' then map_option (apfst (Cons (key, v))) (read_labels k r)
                         else None))
          | _ \<Rightarrow> None))"

definition read_label_set :: "string \<Rightarrow> ((string \<times> string) list \<times> string) option" where
  "read_label_set s =
     (case s of
        [] \<Rightarrow> Some ([], s)
      | c # r \<Rightarrow> if c = CHR ''{'' then read_labels (length r) r else Some ([], s))"

text \<open>A line: the name, the labels, the text of the value and the time.\<close>

definition read_sample :: "string \<Rightarrow> (string \<times> (string \<times> string) list \<times> string \<times> int) option" where
  "read_sample s =
     (let name = takeWhile (\<lambda>c. c \<noteq> CHR ''{'' \<and> c \<noteq> CHR '' '') s
      in (case read_label_set (dropWhile (\<lambda>c. c \<noteq> CHR ''{'' \<and> c \<noteq> CHR '' '') s) of
            Some (labels, b # t) \<Rightarrow>
              if b \<noteq> CHR '' '' then None
              else (let value = takeWhile (\<lambda>c. c \<noteq> CHR '' '') t;
                        time = tl (dropWhile (\<lambda>c. c \<noteq> CHR '' '') t)
                    in if time = [] \<or> last time \<noteq> CHR 0x0A then None
                       else (case of_string 9 (butlast time) of
                           Inl _ \<Rightarrow> None
                         | Inr ts \<Rightarrow> Some (name, labels, value, ts)))
          | _ \<Rightarrow> None))"

section \<open>What the reader gets back\<close>

fun attribute_text :: "'f float_ops \<Rightarrow> 'f AttributeValue \<Rightarrow> string" where
  "attribute_text F (AV_string s) = s"
| "attribute_text F v = render_attribute F v"

text \<open>Numbers are not escaped: the library and \<open>DecimalString\<close> write no quote or backslash.\<close>

definition plain_number :: "'f float_ops \<Rightarrow> 'f AttributeValue \<Rightarrow> bool" where
  "plain_number F v \<longleftrightarrow>
     (case v of AV_string _ \<Rightarrow> True
      | _ \<Rightarrow> CHR 0x22 \<notin> set (render_attribute F v) \<and> CHR 0x5C \<notin> set (render_attribute F v))"

definition label_of :: "'f float_ops \<Rightarrow> 'f AttributeKeyValue \<Rightarrow> string \<times> string" where
  "label_of F kv = (render_attribute_key (fst kv), attribute_text F (snd kv))"

lemma read_quoted_escaped:
  "read_quoted (render_escaped s @ CHR 0x22 # rest) = Some (s, rest)"
  by (induction s) (simp_all add: render_escaped_def escape_char_def)

lemma read_quoted_plain:
  "CHR 0x22 \<notin> set s \<Longrightarrow> CHR 0x5C \<notin> set s \<Longrightarrow> read_quoted (s @ CHR 0x22 # rest) = Some (s, rest)"
  by (induction s) auto

lemma read_attribute_value:
  assumes "plain_number F v"
  shows "read_quoted (render_attribute F v @ CHR 0x22 # rest) = Some (attribute_text F v, rest)"
proof (cases "\<exists>s. v = AV_string s")
  case True
  then show ?thesis using read_quoted_escaped by auto
next
  case False
  then have "attribute_text F v = render_attribute F v"
    and "CHR 0x22 \<notin> set (render_attribute F v)" "CHR 0x5C \<notin> set (render_attribute F v)"
    using assms by (cases v; simp add: plain_number_def)+
  then show ?thesis using read_quoted_plain by metis
qed

lemma label_name_no_equals: "c \<in> set (render_attribute_key key) \<Longrightarrow> c \<noteq> CHR ''=''"
proof -
  have "\<not> c_isalnum CHR ''=''" by code_simp
  then show "c \<in> set (render_attribute_key key) \<Longrightarrow> c \<noteq> CHR ''=''"
    using rendered_label_name [of key] by (auto simp: label_name_ok_def list_all_iff)
qed

lemma read_key:
  "takeWhile (\<lambda>c. c \<noteq> CHR ''='') (render_attribute_key key @ CHR ''='' # t) = render_attribute_key key"
  "dropWhile (\<lambda>c. c \<noteq> CHR ''='') (render_attribute_key key @ CHR ''='' # t) = CHR ''='' # t"
  using label_name_no_equals [of _ key] by (auto simp: takeWhile_append2 dropWhile_append2)

lemma render_list_append:
  "render_list F sep (kvs @ kvs') =
     render_list F sep kvs @ render_list F (if kvs = [] then sep else CHR '','') kvs'"
  by (induction kvs arbitrary: sep) (auto split: prod.splits)

lemma read_labels_rendered:
  assumes "list_all (plain_number F \<circ> snd) kvs" "kvs \<noteq> []" "length kvs \<le> k"
  shows "read_labels k (tl (render_list F sep kvs) @ ''}'' @ rest) = Some (map (label_of F) kvs, rest)"
  using assms
proof (induction kvs arbitrary: k sep)
  case (Cons kv kvs)
  obtain key v where kv: "kv = (key, v)" by (cases kv)
  obtain k' where k: "k = Suc k'" "length kvs \<le> k'" using Cons.prems(3) by (cases k) auto
  note read = read_attribute_value [of F v] read_key
  show ?case
  proof (cases kvs)
    case Nil
    then show ?thesis
      using Cons.prems(1)
      by (simp add: kv k read render_attribute_value_def label_of_def)
  next
    case (Cons kv' kvs')
    obtain t where t: "render_list F CHR '','' kvs = CHR '','' # t"
      by (cases kv') (simp add: Cons)
    have "read_labels k' (t @ ''}'' @ rest) = Some (map (label_of F) kvs, rest)"
      using Cons.prems(1) Cons.IH [of k' "CHR '',''"] k(2) Cons by (simp add: t [unfolded Cons])
    then show ?thesis
      using Cons.prems(1)
      by (simp add: kv k read render_attribute_value_def t label_of_def Let_def)
  qed
qed simp

lemma read_label_set_rendered:
  assumes "list_all (plain_number F \<circ> snd) (kvs @ extra)" "rest = CHR '' '' # t"
  shows "read_label_set (render_attributes F (Some kvs) extra @ rest)
    = Some (map (label_of F) (kvs @ extra), rest)"
proof (cases "kvs @ extra = []")
  case True
  then show ?thesis using assms(2) by (simp add: render_attributes_def read_label_set_def)
next
  case False
  let ?l = "render_list F CHR ''{'' (kvs @ extra)"
  have r: "render_attributes F (Some kvs) extra = ?l @ ''}''"
    using False by (auto simp: render_attributes_def render_list_append)
  obtain s where s: "?l = CHR ''{'' # s"
    using False by (cases "kvs @ extra") auto
  have "length (render_list F sep l) \<ge> length l" for sep and l :: "'a AttributeList"
    by (induction l arbitrary: sep) (auto simp: le_SucI trans_le_add2)
  then have "length (kvs @ extra) \<le> Suc (length s)" using s by (metis length_Cons)
  then have "length (kvs @ extra) \<le> length (s @ ''}'' @ rest)" by simp
  from read_labels_rendered [OF assms(1) False this, of "CHR ''{''" rest] show ?thesis
    unfolding r by (simp add: read_label_set_def s)
qed

lemma in_sequence_map [simp]: "in_sequence (map Inr ss) = Inr (concat ss)"
  by (induction ss) auto

lemma in_sequence_Inr:
  "in_sequence ts = Inr s \<longleftrightarrow> (\<exists>ss. ts = map Inr ss \<and> s = concat ss)"
proof
  show "in_sequence ts = Inr s \<Longrightarrow> \<exists>ss. ts = map Inr ss \<and> s = concat ss"
  proof (induction ts arbitrary: s rule: in_sequence.induct)
    case (3 t ts)
    then obtain u where "in_sequence ts = Inr u" "s = t @ u" by (auto split: sum.splits)
    then show ?case using 3 by (metis concat.simps(2) list.simps(9))
  qed auto
qed auto

definition attribute_list :: "'f AttributeList option \<Rightarrow> 'f AttributeList" where
  "attribute_list attrs = (case attrs of None \<Rightarrow> [] | Some l \<Rightarrow> l)"

lemma render_attributes_list: "render_attributes F attrs extra = render_attributes F (Some (attribute_list attrs)) extra"
  by (cases attrs) (simp_all add: attribute_list_def render_attributes_def)

lemma render_attributes_start:
  "render_attributes F attrs extra = [] \<or> hd (render_attributes F attrs extra) = CHR ''{''"
  by (cases "attribute_list attrs"; cases extra)
    (auto simp: attribute_list_def render_attributes_def split: option.splits)

lemma metric_name_chars:
  "c \<in> set (render_metric_name d) \<Longrightarrow> c \<noteq> CHR ''{'' \<and> c \<noteq> CHR '' ''"
proof -
  have "\<not> c_isalnum CHR ''{''" "\<not> c_isalnum CHR '' ''" by code_simp+
  then show "c \<in> set (render_metric_name d) \<Longrightarrow> c \<noteq> CHR ''{'' \<and> c \<noteq> CHR '' ''"
    using rendered_metric_name [of d] by (auto simp: metric_name_ok_def list_all_iff)
qed

section \<open>Properties\<close>

text \<open>C30: whatever the identifier, the unit and the keys are, every metric name and every label
name that is written is one of the exposition format.\<close>

theorem rendered_names_ok:
  "metric_name_ok (render_metric_name d) \<and> label_name_ok (render_attribute_key key)"
  using rendered_metric_name rendered_label_name by blast

text \<open>C31: a sample line is read back: the name with its suffix, every attribute with its key
made a label name and its text as it was given, the value, and the time to the nanosecond.\<close>

theorem sample_round_trip:
  assumes line: "render_metric_point F d suffix attrs extra (Inr v) ts = Inr s"
    and time: "in_int64 ts"
    and suffix: "list_all (\<lambda>c. c \<noteq> CHR ''{'' \<and> c \<noteq> CHR '' '') suffix"
    and v: "CHR '' '' \<notin> set v"
    and plain: "list_all (plain_number F \<circ> snd) (attribute_list attrs @ extra)"
  shows "read_sample s = Some (render_metric_name d @ suffix,
    map (label_of F) (attribute_list attrs @ extra), v, ts)"
proof -
  let ?A = "render_attributes F (Some (attribute_list attrs)) extra"
  obtain t where t: "to_string 9 ts = Some t"
    and s: "s = (render_metric_name d @ suffix) @ ?A @ CHR '' '' # v @ CHR '' '' # t @ [CHR 0x0A]"
    using line by (auto simp: render_metric_point_def time_text_def in_sequence_Inr
        Cons_eq_map_conv render_attributes_list [of F attrs] split: option.splits)
  define P where "P = (\<lambda>c. c \<noteq> CHR ''{'' \<and> c \<noteq> CHR '' '')"
  have name: "\<forall>c \<in> set (render_metric_name d @ suffix). P c"
    using metric_name_chars suffix by (auto simp: P_def list_all_iff)
  have stop: "takeWhile P (?A @ CHR '' '' # r) = []" "dropWhile P (?A @ CHR '' '' # r) = ?A @ CHR '' '' # r"
    for r using render_attributes_start [of F "Some (attribute_list attrs)" extra]
    by (cases ?A; simp add: P_def)+
  have split: "takeWhile P s = render_metric_name d @ suffix"
    "dropWhile P s = ?A @ CHR '' '' # v @ CHR '' '' # t @ [CHR 0x0A]"
    unfolding s by (subst takeWhile_append2 dropWhile_append2; use name stop in simp)+
  have val: "takeWhile (\<lambda>c. c \<noteq> CHR '' '') (v @ CHR '' '' # r) = v"
    "dropWhile (\<lambda>c. c \<noteq> CHR '' '') (v @ CHR '' '' # r) = CHR '' '' # r" for r
    by (subst takeWhile_append2 dropWhile_append2; use v in auto)+
  have "of_string 9 t = Inr ts" using to_string_read [of 9 ts] time t by simp
  then show ?thesis
    using read_label_set_rendered [OF plain refl]
    unfolding read_sample_def Let_def P_def [symmetric] split by (simp add: val)
qed

definition plain_floats :: "int float_ops" where
  "plain_floats = \<lparr>f_isnan = (\<lambda>_. False), f_isfinite = (\<lambda>_. True), f_negative = (\<lambda>v. v < 0),
     f_stream = int_text, f_to_string = int_text\<rparr>"

lemma sample_round_trip_witness:
  "\<exists>s. render_metric_point plain_floats (defMetric counter ''http.reqs'' [] []) ''_total''
      (Some [(''url path'', AV_string [CHR ''a'', CHR 0x22, CHR 0x0A])]) [] (Inr ''7'') 1500000000 = Inr s \<and>
     read_sample s = Some (''http_reqs_total'', [(''url_path'', [CHR ''a'', CHR 0x22, CHR 0x0A])],
       ''7'', 1500000000)"
proof -
  let ?d = "defMetric counter ''http.reqs'' [] []"
  let ?a = "[(''url path'', AV_string [CHR ''a'', CHR 0x22, CHR 0x0A])]"
  obtain s where s: "render_metric_point plain_floats ?d ''_total'' (Some ?a) [] (Inr ''7'') 1500000000
      = Inr s"
    by (simp add: render_metric_point_def time_text_def to_string_def)
  have "render_metric_name ?d @ ''_total'' = ''http_reqs_total''"
    "render_attribute_key ''url path'' = ''url_path''" by code_simp+
  then show ?thesis
    using sample_round_trip [OF s] s
    by (simp add: in_int64_def attribute_list_def plain_number_def label_of_def)
qed

end
