(* ===== verification/Collector.thy ===== *)
theory Collector
  imports Open_Metrics_Text "HOL-Library.Product_Lexorder" "HOL-Library.List_Lexorder"
begin

text \<open>
  The registry of sensors: \<^verbatim>\<open>src/src/telemetry/sensor.h\<close>, the type map of \<^verbatim>\<open>typemap.h\<close> and the
  state and operations of \<^verbatim>\<open>open_metrics/Collector.cpp\<close>.

  One state \<open>telemetry\<close> holds the collector, the holders its sensors share and the objects of
  class \<open>Sensor\<close> (handles) with what they point to. A C++ type is its name; a holder is owned
  (its weak pointers can be locked) while a handle or an active entry points to it. A metrics
  reader is a function of the holder's data to the points it emits. Each operation runs under
  the mutex of the collector and is one step; the time of a call is its argument \<open>now\<close>.

  The properties are in \<open>Collector_Sensors\<close>.
\<close>

section \<open>State\<close>

type_synonym ('x, 'f) reader = "'x \<Rightarrow> 'f MetricPoint list"
type_synonym ('x, 'f) type_map = "(string \<times> ('x, 'f) reader) list"

record 'x holder =
  h_type :: string
  h_data :: 'x
  h_scount :: u64

record ('x, 'f) sensor_def =
  sf_sensor :: nat
  sf_reader :: "('x, 'f) reader"
  sf_created :: int

record ('x, 'f) telemetry =
  holders :: "(nat \<times> 'x holder) list"
  next_holder :: nat
  handles :: "(nat \<times> nat) list"
  shared_sensors :: "('x, 'f) type_map"
  unique_sensors :: "('x, 'f) type_map"
  weak_shared :: "(string \<times> nat) list"      \<comment> \<open>\<open>_shared_sensors\<close>\<close>
  active_shared :: "('x, 'f) sensor_def list"
  active_unique :: "('x, 'f) sensor_def list"
  collect_start :: int

section \<open>Type maps\<close>

definition tm_defined :: "('x, 'f) type_map \<Rightarrow> string \<Rightarrow> bool" where
  "tm_defined m t \<longleftrightarrow> map_of m t \<noteq> None"

text \<open>\<open>reg_type\<close> is an \<open>emplace\<close>: the first registration of a type stays.\<close>

definition reg_type :: "string \<Rightarrow> ('x, 'f) reader \<Rightarrow> ('x, 'f) type_map \<Rightarrow> ('x, 'f) type_map" where
  "reg_type t fn m = (if tm_defined m t then m else (t, fn) # m)"

definition tm_convert :: "('x, 'f) type_map \<Rightarrow> string \<Rightarrow> ('x, 'f) reader option" where
  "tm_convert m t = map_of m t"

section \<open>Pointers\<close>

definition handle :: "('x, 'f) telemetry \<Rightarrow> nat \<Rightarrow> nat option" where
  "handle W h = map_of (handles W) h"

definition set_handle :: "nat \<Rightarrow> nat option \<Rightarrow> ('x, 'f) telemetry \<Rightarrow> ('x, 'f) telemetry" where
  "set_handle h p W =
     (let others = filter (\<lambda>e. fst e \<noteq> h) (handles W)
      in W\<lparr>handles := (case p of None \<Rightarrow> others | Some s \<Rightarrow> (h, s) # others)\<rparr>)"

definition holder :: "('x, 'f) telemetry \<Rightarrow> nat \<Rightarrow> 'x holder option" where
  "holder W s = map_of (holders W) s"

definition change_holder ::
    "nat \<Rightarrow> ('x holder \<Rightarrow> 'x holder) \<Rightarrow> ('x, 'f) telemetry \<Rightarrow> ('x, 'f) telemetry" where
  "change_holder s f W =
     W\<lparr>holders := map (\<lambda>e. if fst e = s then (s, f (snd e)) else e) (holders W)\<rparr>"

definition active :: "('x, 'f) telemetry \<Rightarrow> nat list" where
  "active W = map sf_sensor (active_unique W) @ map sf_sensor (active_shared W)"

text \<open>\<open>weak_ptr::lock\<close>\<close>

definition weak_lock :: "('x, 'f) telemetry \<Rightarrow> nat \<Rightarrow> nat option" where
  "weak_lock W s = (if s \<in> set (map snd (handles W)) \<or> s \<in> set (active W) then Some s else None)"

definition any_sensor :: "('x, 'f) telemetry \<Rightarrow> nat \<Rightarrow> bool" where
  "any_sensor W s = (case holder W s of None \<Rightarrow> False | Some x \<Rightarrow> h_scount x > 0)"

section \<open>Registration\<close>

definition can_register_unique_sensor :: "('x, 'f) telemetry \<Rightarrow> string \<Rightarrow> bool" where
  "can_register_unique_sensor W t = tm_defined (unique_sensors W) t"

definition can_register_shared_sensor :: "('x, 'f) telemetry \<Rightarrow> string \<Rightarrow> bool" where
  "can_register_shared_sensor W t = tm_defined (shared_sensors W) t"

datatype SensorType = st_none | st_shared | st_unique

definition can_register_sensor_auto :: "('x, 'f) telemetry \<Rightarrow> string \<Rightarrow> SensorType" where
  "can_register_sensor_auto W t =
     (let r = (if tm_defined (unique_sensors W) t then 1 else 0)
            + (if tm_defined (shared_sensors W) t then 2 else 0)
      in [st_none, st_unique, st_shared, st_none] ! r)"

definition get_shared_sensor :: "('x, 'f) telemetry \<Rightarrow> string \<Rightarrow> nat option" where
  "get_shared_sensor W t =
     (case map_of (weak_shared W) t of None \<Rightarrow> None | Some s \<Rightarrow> weak_lock W s)"

definition holder_type :: "('x, 'f) telemetry \<Rightarrow> nat \<Rightarrow> string" where
  "holder_type W s = (case holder W s of None \<Rightarrow> [] | Some x \<Rightarrow> h_type x)"

definition set_weak :: "string \<Rightarrow> nat \<Rightarrow> ('x, 'f) telemetry \<Rightarrow> ('x, 'f) telemetry" where
  "set_weak t s W = W\<lparr>weak_shared := (t, s) # filter (\<lambda>e. fst e \<noteq> t) (weak_shared W)\<rparr>"

text \<open>Both kinds of sensor are appended to \<open>_active_shared\<close>, with the reader their type map
gives, or refused when it has none.\<close>

definition activate ::
    "('x, 'f) type_map \<Rightarrow> int \<Rightarrow> nat \<Rightarrow> ('x, 'f) telemetry \<Rightarrow> nat option \<times> ('x, 'f) telemetry" where
  "activate m now s W =
     (case tm_convert m (holder_type W s) of
        None \<Rightarrow> (None, W)
      | Some mr \<Rightarrow>
          (Some s, W\<lparr>active_shared := active_shared W
             @ [\<lparr>sf_sensor = s, sf_reader = mr, sf_created = now\<rparr>]\<rparr>))"

definition register_shared_sensor ::
    "int \<Rightarrow> nat \<Rightarrow> ('x, 'f) telemetry \<Rightarrow> nat option \<times> ('x, 'f) telemetry" where
  "register_shared_sensor now sensor W =
     (let t = holder_type W sensor
      in (case map_of (weak_shared W) t of
            Some s0 \<Rightarrow>
              (case weak_lock W s0 of
                 Some s \<Rightarrow> (Some s, W)
               | None \<Rightarrow> activate (shared_sensors W) now sensor (set_weak t sensor W))
          | None \<Rightarrow> activate (shared_sensors W) now sensor (set_weak t sensor W)))"

definition register_unique_sensor ::
    "int \<Rightarrow> nat \<Rightarrow> ('x, 'f) telemetry \<Rightarrow> nat option \<times> ('x, 'f) telemetry" where
  "register_unique_sensor now sensor W = activate (unique_sensors W) now sensor W"

section \<open>Sensors\<close>

text \<open>\<open>make_shared\<close>, the count incremented, and the handle pointing to the new holder.\<close>

definition new_sensor ::
    "nat \<Rightarrow> string \<Rightarrow> 'x \<Rightarrow> ('x, 'f) telemetry \<Rightarrow> nat \<times> ('x, 'f) telemetry" where
  "new_sensor h t data W =
     (let s = next_holder W;
          W = W\<lparr>holders := (s, \<lparr>h_type = t, h_data = data, h_scount = 0\<rparr>) # holders W,
                next_holder := Suc s\<rparr>;
          W = change_holder s (\<lambda>x. x\<lparr>h_scount := h_scount x + 1\<rparr>) W
      in (s, set_handle h (Some s) W))"

text \<open>\<open>provider\<close>: the weak pointer to the active provider could be locked.\<close>

definition enable_unique ::
    "bool \<Rightarrow> int \<Rightarrow> nat \<Rightarrow> string \<Rightarrow> 'x \<Rightarrow> ('x, 'f) telemetry \<Rightarrow> ('x, 'f) telemetry" where
  "enable_unique provider now h t data W =
     (if provider \<and> can_register_unique_sensor W t then
        let (s, W) = new_sensor h t data W;
            (r, W) = register_unique_sensor now s W
        in set_handle h r W
      else W)"

definition use_shared ::
    "int \<Rightarrow> nat \<Rightarrow> string \<Rightarrow> 'x \<Rightarrow> ('x, 'f) telemetry \<Rightarrow> ('x, 'f) telemetry" where
  "use_shared now h t data W =
     (case get_shared_sensor W t of
        Some s \<Rightarrow> set_handle h (Some s) W
      | None \<Rightarrow>
          let (s, W) = new_sensor h t data W;
              (r, W) = register_shared_sensor now s W
          in set_handle h r W)"

definition enable_shared ::
    "bool \<Rightarrow> int \<Rightarrow> nat \<Rightarrow> string \<Rightarrow> 'x \<Rightarrow> ('x, 'f) telemetry \<Rightarrow> ('x, 'f) telemetry" where
  "enable_shared provider now h t data W =
     (if provider \<and> can_register_shared_sensor W t then use_shared now h t data W else W)"

definition enable_auto ::
    "bool \<Rightarrow> int \<Rightarrow> nat \<Rightarrow> string \<Rightarrow> 'x \<Rightarrow> ('x, 'f) telemetry \<Rightarrow> ('x, 'f) telemetry" where
  "enable_auto provider now h t data W =
     (if provider then
        (case can_register_sensor_auto W t of
           st_none \<Rightarrow> W
         | st_shared \<Rightarrow> use_shared now h t data W
         | st_unique \<Rightarrow>
             let (s, W) = new_sensor h t data W;
                 (r, W) = register_unique_sensor now s W
             in set_handle h r W)
      else W)"

definition sensor_disable :: "nat \<Rightarrow> ('x, 'f) telemetry \<Rightarrow> ('x, 'f) telemetry" where
  "sensor_disable h W =
     (case handle W h of
        None \<Rightarrow> W
      | Some s \<Rightarrow>
          set_handle h None (change_holder s (\<lambda>x. x\<lparr>h_scount := h_scount x - 1\<rparr>) W))"

definition is_enabled :: "('x, 'f) telemetry \<Rightarrow> nat \<Rightarrow> bool" where
  "is_enabled W h \<longleftrightarrow> handle W h \<noteq> None"

definition sensor_update :: "nat \<Rightarrow> ('x \<Rightarrow> 'x) \<Rightarrow> ('x, 'f) telemetry \<Rightarrow> ('x, 'f) telemetry" where
  "sensor_update h fn W =
     (case handle W h of
        None \<Rightarrow> W
      | Some s \<Rightarrow> change_holder s (\<lambda>x. x\<lparr>h_data := fn (h_data x)\<rparr>) W)"

section \<open>Collecting\<close>

definition compareDefintion :: "MetricDefinition \<Rightarrow> MetricDefinition \<Rightarrow> int" where
  "compareDefintion a b =
     (let x = map of_char (md_identifier a) :: nat list; y = map of_char (md_identifier b)
      in if x = y then 0 else if x < y then - 1 else 1)"

text \<open>The order of the stable sort: the definition, then the time.\<close>

definition point_order :: "'f MetricPoint \<times> int \<Rightarrow> nat list \<times> int" where
  "point_order p = (map of_char (md_identifier (mp_definition (fst p))), mp_ts (fst p))"

definition read_sensor :: "('x, 'f) telemetry \<Rightarrow> ('x, 'f) sensor_def \<Rightarrow> ('f MetricPoint \<times> int) list" where
  "read_sensor W sdef =
     (case holder W (sf_sensor sdef) of
        None \<Rightarrow> []
      | Some x \<Rightarrow> map (\<lambda>pt. (pt, sf_created sdef)) (sf_reader sdef (h_data x)))"

definition collected_points :: "('x, 'f) telemetry \<Rightarrow> ('f MetricPoint \<times> int) list" where
  "collected_points W =
     sort_key point_order (concat (map (read_sensor W) (active_unique W @ active_shared W)))"

definition uptime_metric :: MetricDefinition where
  "uptime_metric =
     \<lparr>md_type = counter, md_identifier = ''uptime'',
       md_description = ''Measure the up-time of the component. When the uptime stops to raise ''
         @ ''over the time, the component is probably down'',
       md_unit = ''seconds''\<rparr>"

definition uptime_point :: "int \<Rightarrow> ('x, 'f) telemetry \<Rightarrow> fault + 'f MetricPoint \<times> int" where
  "uptime_point now W =
     (case Option.bind (dec_sub now (collect_start W)) (to_string 9) of
        None \<Rightarrow> Inl UndefinedBehaviour
      | Some s \<Rightarrow> Inr (emit_point uptime_metric None (MV_decimal s) None, collect_start W))"

definition emptyDesc :: MetricDefinition where
  "emptyDesc = defMetric info [] [] []"

text \<open>The loop over the points: a definition is described when it differs from the previous.\<close>

fun render_points ::
    "'f float_ops \<Rightarrow> int \<Rightarrow> MetricDefinition \<Rightarrow> ('f MetricPoint \<times> int) list \<Rightarrow> (fault + string) list" where
  "render_points F now prev_def [] = []"
| "render_points F now prev_def ((pt, cts) # pts) =
     (let cur_def = mp_definition pt;
          rts = (if mp_ts pt = Timestamp_min then now else mp_ts pt)
      in render_metrics F rts cts pt (compareDefintion prev_def cur_def \<noteq> 0)
         # render_points F now cur_def pts)"

definition drop_inactive :: "('x, 'f) telemetry \<Rightarrow> ('x, 'f) telemetry" where
  "drop_inactive W =
     W\<lparr>active_shared := filter (\<lambda>d. any_sensor W (sf_sensor d)) (active_shared W),
       active_unique := filter (\<lambda>d. any_sensor W (sf_sensor d)) (active_unique W)\<rparr>"

definition collect_lk ::
    "'f float_ops \<Rightarrow> int \<Rightarrow> ('x, 'f) telemetry \<Rightarrow> (fault + string) \<times> ('x, 'f) telemetry" where
  "collect_lk F now W =
     (case uptime_point now W of
        Inl e \<Rightarrow> (Inl e, W)
      | Inr up \<Rightarrow>
          (case in_sequence (render_points F now emptyDesc (collected_points W @ [up])) of
             Inl e \<Rightarrow> (Inl e, W)
           | Inr output \<Rightarrow> (Inr output, drop_inactive W)))"

definition new_collector :: "int \<Rightarrow> ('x, 'f) telemetry" where
  "new_collector now =
     \<lparr>holders = [], next_holder = 0, handles = [], shared_sensors = [], unique_sensors = [],
       weak_shared = [], active_shared = [], active_unique = [], collect_start = now\<rparr>"

end
