(* ===== verification/Telemetry_Util.thy ===== *)
theory Telemetry_Util
  imports Collector
begin

text \<open>
  The small templates of \<^verbatim>\<open>src/src/telemetry\<close>: the selections without a branch (\<^verbatim>\<open>branchless.h\<close>), the
  sum and count of \<^verbatim>\<open>avg_aggreg.h\<close>, the references that remember their type (\<^verbatim>\<open>any_ref.h\<close>), the type map
  over them (\<^verbatim>\<open>typemap.h\<close>), and where a tracer is put (\<^verbatim>\<open>provider.h\<close>).

  The lemmas: each selection is the conditional its comment gives, two aggregations merge into that
  of both inputs, a reference never reads an object as another type, and the type map applies the
  function that was registered first.
\<close>

section \<open>Selections without a branch\<close>

definition branchless_if :: "bool \<Rightarrow> 'a \<Rightarrow> 'a \<Rightarrow> 'a" where
  "branchless_if cond expr1 expr2 = [expr2, expr1] ! of_bool cond"

definition branchless_aggregate :: "bool \<Rightarrow> bool \<Rightarrow> 'a \<Rightarrow> 'a \<Rightarrow> ('a \<Rightarrow> 'a \<Rightarrow> 'a) \<Rightarrow> 'a" where
  "branchless_aggregate ok1 ok2 v1 v2 binop =
     (let b1 = of_bool ok1; b2 = of_bool ok2; ofs = b1 + b2 * 2; aggr = binop v1 v2
      in [v1, v1, v2, aggr] ! ofs)"

definition branchless_max :: "'a :: ord \<Rightarrow> 'a \<Rightarrow> 'a" where
  "branchless_max a b = branchless_if (b < a) a b"

definition branchless_min :: "'a :: ord \<Rightarrow> 'a \<Rightarrow> 'a" where
  "branchless_min a b = branchless_if (a < b) a b"

lemma branchless_if_eq [simp]: "branchless_if cond x y = (if cond then x else y)"
  by (simp add: branchless_if_def)

lemma branchless_aggregate_eq [simp]:
  "branchless_aggregate ok1 ok2 v1 v2 binop = (if \<not> ok2 then v1 else if \<not> ok1 then v2 else binop v1 v2)"
  by (simp add: branchless_aggregate_def Let_def eval_nat_numeral)

lemma branchless_max_eq: "branchless_max a b = max a (b :: 'a :: linorder)"
  by (auto simp: branchless_max_def max_def)

lemma branchless_min_eq: "branchless_min a b = min a (b :: 'a :: linorder)"
  by (auto simp: branchless_min_def min_def)

section \<open>Sum and count\<close>

record 'v avg_aggregation =
  ag_sum :: 'v
  ag_count :: u64

definition ag_empty :: "'v :: zero avg_aggregation" where
  "ag_empty = \<lparr>ag_sum = 0, ag_count = 0\<rparr>"

definition ag_clear :: "'v :: zero avg_aggregation \<Rightarrow> 'v avg_aggregation" where
  "ag_clear a = a\<lparr>ag_sum := 0, ag_count := 0\<rparr>"

definition ag_push_back :: "'v :: plus \<Rightarrow> 'v avg_aggregation \<Rightarrow> 'v avg_aggregation" where
  "ag_push_back v a =
     a\<lparr>ag_sum := branchless_if (ag_count a > 0) (ag_sum a + v) v, ag_count := ag_count a + 1\<rparr>"

text \<open>\<open>operator+=\<close> of a container.\<close>

definition ag_merge :: "'v :: plus avg_aggregation \<Rightarrow> 'v avg_aggregation \<Rightarrow> 'v avg_aggregation" where
  "ag_merge a other =
     a\<lparr>ag_sum := branchless_aggregate (ag_count a > 0) (ag_count other > 0) (ag_sum a) (ag_sum other) (+),
       ag_count := ag_count a + ag_count other\<rparr>"

definition ag_sample :: "'v :: zero avg_aggregation \<Rightarrow> 'v avg_aggregation \<times> 'v avg_aggregation" where
  "ag_sample a = (a, ag_empty)"

definition ag_of :: "'v :: {plus, zero} list \<Rightarrow> 'v avg_aggregation" where
  "ag_of vs = fold ag_push_back vs ag_empty"

lemma word_of_nat_pos: "n < 2 ^ 64 \<Longrightarrow> 0 < (of_nat n :: u64) \<longleftrightarrow> 0 < n"
  by (simp add: word_less_nat_alt unat_of_nat)

lemma ag_of_eq:
  fixes vs :: "'v :: comm_monoid_add list"
  assumes "length vs < 2 ^ 64"
  shows "ag_of vs = \<lparr>ag_sum = sum_list vs, ag_count = of_nat (length vs)\<rparr>"
  using assms
proof (induction vs rule: rev_induct)
  case (snoc v vs)
  then have "ag_of vs = \<lparr>ag_sum = sum_list vs, ag_count = of_nat (length vs)\<rparr>" by simp
  moreover have "ag_of (vs @ [v]) = ag_push_back v (ag_of vs)" by (simp add: ag_of_def)
  ultimately show ?case
    using word_of_nat_pos [of "length vs"] snoc.prems
    by (cases "vs = []") (simp_all add: ag_push_back_def add.commute)
qed (simp add: ag_of_def ag_empty_def)

lemma ag_merge_of:
  fixes vs ws :: "'v :: comm_monoid_add list"
  assumes "length vs + length ws < 2 ^ 64"
  shows "ag_merge (ag_of vs) (ag_of ws) = ag_of (vs @ ws)"
  using assms word_of_nat_pos [of "length vs"] word_of_nat_pos [of "length ws"]
  by (cases "vs = []"; cases "ws = []") (simp_all add: ag_of_eq ag_merge_def)

section \<open>References with their type\<close>

text \<open>
  A type is a named one or an array without bounds of a type; the bounds of an array are forgotten.
  A reference holds an address and a type.
\<close>

datatype cpp_type = Named string | Array_of cpp_type

datatype static_type = Plain string | Unbounded static_type | Bounded static_type nat

fun typeid :: "static_type \<Rightarrow> cpp_type" where
  "typeid (Plain n) = Named n"
| "typeid (Unbounded t) = Array_of (typeid t)"
| "typeid (Bounded t n) = Array_of (typeid t)"

record any_ref =
  ar_ptr :: nat
  ar_tinfo :: cpp_type

definition any_ref_to :: "static_type \<Rightarrow> nat \<Rightarrow> any_ref" where
  "any_ref_to t val = \<lparr>ar_ptr = val, ar_tinfo = typeid t\<rparr>"

definition any_ref_raw :: "nat \<Rightarrow> cpp_type \<Rightarrow> any_ref" where
  "any_ref_raw ptr type = \<lparr>ar_ptr = ptr, ar_tinfo = type\<rparr>"

text \<open>\<open>None\<close> is \<open>std::bad_cast\<close>, or the null pointer.\<close>

definition ref_get :: "cpp_type \<Rightarrow> any_ref \<Rightarrow> nat option" where
  "ref_get t r = (if t = ar_tinfo r then Some (ar_ptr r) else None)"

definition ref_get_ptr :: "cpp_type \<Rightarrow> any_ref \<Rightarrow> nat option" where
  "ref_get_ptr t r = (if t = ar_tinfo r then Some (ar_ptr r) else None)"

text \<open>An \<open>any_cref\<close> made of an \<open>any_ref\<close>, and back.\<close>

definition cref_of :: "any_ref \<Rightarrow> any_ref" where
  "cref_of x = any_ref_raw (ar_ptr x) (ar_tinfo x)"

definition constCast :: "any_ref \<Rightarrow> any_ref" where
  "constCast x = any_ref_raw (ar_ptr x) (ar_tinfo x)"

text \<open>The objects of a program, each with the type it was declared with.\<close>

definition refers :: "(nat \<Rightarrow> static_type option) \<Rightarrow> any_ref \<Rightarrow> bool" where
  "refers objects r \<longleftrightarrow> (\<exists>t. objects (ar_ptr r) = Some t \<and> ar_tinfo r = typeid t)"

lemma any_ref_refers: "objects p = Some t \<Longrightarrow> refers objects (any_ref_to t p)"
  by (simp add: refers_def any_ref_to_def)

lemma cast_refers: "refers objects r \<Longrightarrow> refers objects (cref_of r) \<and> refers objects (constCast r)"
  by (simp add: refers_def cref_of_def constCast_def any_ref_raw_def)

lemma ref_get_typed:
  "refers objects r \<Longrightarrow> ref_get t r = Some p \<Longrightarrow> \<exists>s. objects p = Some s \<and> typeid s = t"
  by (auto simp: refers_def ref_get_def split: if_splits)

lemma ref_get_own: "ref_get (typeid t) (any_ref_to t p) = Some p"
  by (simp add: ref_get_def any_ref_to_def)

section \<open>The type map\<close>

text \<open>A conversion takes the address; \<open>own\<close> copies or moves a value of the result type.\<close>

type_synonym 'r conv_map = "(cpp_type \<times> (nat \<Rightarrow> 'r)) list"

definition tmap_reg :: "cpp_type \<Rightarrow> (nat \<Rightarrow> 'r) \<Rightarrow> 'r conv_map \<Rightarrow> 'r conv_map" where
  "tmap_reg t fn m = (if map_of m t = None then (t, fn) # m else m)"

fun tmap_reg_types :: "cpp_type list \<Rightarrow> (nat \<Rightarrow> 'r) \<Rightarrow> 'r conv_map \<Rightarrow> 'r conv_map" where
  "tmap_reg_types [] fn m = m"
| "tmap_reg_types (t # ts) fn m = tmap_reg_types ts fn (tmap_reg t fn m)"

definition tmap_convert :: "cpp_type \<Rightarrow> (nat \<Rightarrow> 'r) \<Rightarrow> 'r conv_map \<Rightarrow> any_ref \<Rightarrow> 'r option" where
  "tmap_convert result own m var =
     (if ar_tinfo var = result then map_option own (ref_get result var)
      else case map_of m (ar_tinfo var) of
             None \<Rightarrow> None
           | Some fn \<Rightarrow> map_option fn (ref_get (ar_tinfo var) var))"

lemma tmap_reg_find: "map_of (tmap_reg t fn m) u = (case map_of m u of Some g \<Rightarrow> Some g | None \<Rightarrow> if u = t then Some fn else None)"
  by (auto simp: tmap_reg_def split: option.splits)

lemma tmap_reg_types_find:
  "map_of (tmap_reg_types ts fn m) u = (case map_of m u of Some g \<Rightarrow> Some g | None \<Rightarrow> if u \<in> set ts then Some fn else None)"
  by (induction ts arbitrary: m) (auto simp: tmap_reg_find split: option.splits)

text \<open>A value of the result type is passed through whatever is registered; otherwise the first
registration decides.\<close>

lemma tmap_convert_first:
  "tmap_convert result own (fold (\<lambda>(t, fn). tmap_reg t fn) regs []) var =
     (if ar_tinfo var = result then Some (own (ar_ptr var))
      else map_option (\<lambda>fn. fn (ar_ptr var)) (map_of regs (ar_tinfo var)))"
proof -
  have "map_of (fold (\<lambda>(t, fn). tmap_reg t fn) regs m) u
      = (case map_of m u of Some g \<Rightarrow> Some g | None \<Rightarrow> map_of regs u)" for m u
    by (induction regs arbitrary: m) (auto simp: tmap_reg_find split: option.splits)
  then show ?thesis by (simp add: tmap_convert_def ref_get_def split: option.splits)
qed

text \<open>The registry of the collector is this map, on named types other than the result type.\<close>

lemma collector_map_agrees:
  "tmap_convert result own (map (\<lambda>(u, fn). (Named u, \<lambda>p. fn (objects p))) rs) \<lparr>ar_ptr = p, ar_tinfo = Named u\<rparr>
    = (if Named u = result then Some (own p) else map_option (\<lambda>fn. fn (objects p)) (tm_convert rs u))"
proof -
  have "map_of (map (\<lambda>(u, fn). (Named u, \<lambda>p. fn (objects p))) rs) (Named u)
      = map_option (\<lambda>fn p. fn (objects p)) (map_of rs u)"
    by (induction rs) auto
  then show ?thesis by (simp add: tmap_convert_def ref_get_def tm_convert_def split: option.splits)
qed

section \<open>Tracers\<close>

text \<open>Where \<open>make_tracer\<close> puts a tracer of a size, and what its deleter does with the memory.\<close>

datatype tracer_place = In_space | On_heap

definition make_tracer :: "nat \<Rightarrow> nat \<Rightarrow> tracer_place" where
  "make_tracer size_of alloc_space_size = (if size_of \<le> alloc_space_size then In_space else On_heap)"

definition tracer_deleter :: "tracer_place \<Rightarrow> bool" where
  "tracer_deleter place = (case place of In_space \<Rightarrow> False | On_heap \<Rightarrow> True)"

end
