(* ===== verification/Collector_Sensors.thy ===== *)
theory Collector_Sensors
  imports Collector "HOL-Library.Multiset"
begin

text \<open>
  What the collector reports: every definition is described once, before its first sample; every
  enabled sensor is collected, as long as a shared type is not enabled a second time; and what
  happens to the first user of a shared sensor when a second one is disabled.
\<close>

section \<open>Descriptions\<close>

text \<open>The flag of each identifier: it was not seen before.\<close>

fun describe_first :: "string list \<Rightarrow> string list \<Rightarrow> bool list" where
  "describe_first seen [] = []"
| "describe_first seen (x # xs) = (x \<notin> set seen) # describe_first (x # seen) xs"

definition point_id :: "'f MetricPoint \<times> int \<Rightarrow> string" where
  "point_id p = md_identifier (mp_definition (fst p))"

definition render_collected :: "'f float_ops \<Rightarrow> int \<Rightarrow> 'f MetricPoint \<times> int \<Rightarrow> bool \<Rightarrow> fault + string" where
  "render_collected F now p first =
     render_metrics F (if mp_ts (fst p) = Timestamp_min then now else mp_ts (fst p)) (snd p) (fst p) first"

definition code_of :: "string \<Rightarrow> nat list" where
  "code_of s = map of_char s"

lemma code_of_inject [simp]: "code_of s = code_of t \<longleftrightarrow> s = t"
  by (simp add: code_of_def inj_map_eq_map inj_on_def)

lemma compareDefintion_zero: "compareDefintion a b = 0 \<longleftrightarrow> md_identifier a = md_identifier b"
  by (simp add: compareDefintion_def Let_def code_of_def [symmetric])

lemma render_points_first:
  assumes "sorted (map code_of (md_identifier prev # map point_id pts))"
    and "md_identifier prev \<in> set seen" "\<forall>y \<in> set seen. code_of y \<le> code_of (md_identifier prev)"
    and "point_id up \<notin> set seen \<union> set (map point_id pts)"
  shows "render_points F now prev (pts @ [up]) =
    map2 (render_collected F now) (pts @ [up]) (describe_first seen (map point_id (pts @ [up])))"
  using assms
proof (induction pts arbitrary: prev seen)
  case Nil
  then show ?case
    by (cases up; cases "md_identifier prev = point_id up")
      (auto simp: compareDefintion_zero point_id_def render_collected_def)
next
  case (Cons p pts)
  obtain pt cts where p: "p = (pt, cts)" by (cases p)
  let ?d = "mp_definition pt"
  have le: "code_of (md_identifier prev) \<le> code_of (md_identifier ?d)"
    using Cons.prems(1) by (simp add: p point_id_def)
  have seen: "md_identifier ?d \<in> set seen \<longleftrightarrow> md_identifier prev = md_identifier ?d"
    using Cons.prems(2,3) le by (metis code_of_inject order_antisym)
  have "render_points F now ?d (pts @ [up]) = map2 (render_collected F now) (pts @ [up])
      (describe_first (md_identifier ?d # seen) (map point_id (pts @ [up])))"
    using Cons.prems le
    by (intro Cons.IH) (auto simp: p point_id_def intro: order_trans)
  moreover have "point_id p = md_identifier ?d" by (simp add: p point_id_def)
  ultimately show ?case
    by (simp add: p render_collected_def compareDefintion_zero seen Let_def del: map_append)
qed

lemma sorted_identifiers:
  "sorted (map point_order pts) \<Longrightarrow> sorted (map (code_of \<circ> point_id) pts)"
proof (induction pts)
  case (Cons p pts)
  then show ?case
    by (auto simp: point_order_def point_id_def code_of_def less_eq_prod_def)
qed simp

text \<open>A collection writes every point the active sensors emitted, and the up-time, grouped by
identifier and in the order of their times, each identifier (other than the empty one) described
exactly at its first point.\<close>

theorem collect_describes_once:
  assumes "collect_lk F now W = (Inr output, W')"
    and "''uptime'' \<notin> point_id ` set (collected_points W)"
  shows "\<exists>pts up. mset pts = mset (concat (map (read_sensor W) (active_unique W @ active_shared W))) \<and>
    sorted (map point_order pts) \<and> point_id up = ''uptime'' \<and>
    in_sequence (map2 (render_collected F now) (pts @ [up])
      (describe_first [''''] (map point_id (pts @ [up])))) = Inr output"
proof -
  obtain up where up: "uptime_point now W = Inr up"
    and out: "in_sequence (render_points F now emptyDesc (collected_points W @ [up])) = Inr output"
    using assms(1) by (auto simp: collect_lk_def split: sum.splits)
  have id: "point_id up = ''uptime''"
    using up by (auto simp: uptime_point_def point_id_def emit_point_def uptime_metric_def
        split: option.splits)
  have empty: "md_identifier emptyDesc = ''''" by (simp add: emptyDesc_def defMetric_def)
  have srt: "sorted (map point_order (collected_points W))" by (simp add: collected_points_def)
  have "render_points F now emptyDesc (collected_points W @ [up]) =
      map2 (render_collected F now) (collected_points W @ [up])
        (describe_first [''''] (map point_id (collected_points W @ [up])))"
    using sorted_identifiers [OF srt] assms(2)
    by (intro render_points_first) (auto simp: empty id code_of_def comp_def)
  moreover have "mset (collected_points W)
      = mset (concat (map (read_sensor W) (active_unique W @ active_shared W)))"
    by (simp add: collected_points_def)
  ultimately show ?thesis using out srt id
    by (intro exI [of _ "collected_points W"] exI [of _ up]) simp
qed

section \<open>Sensors\<close>

text \<open>The steps of a program that enables a handle only while it is disabled, and a shared type
only while no sensor of that type is alive.\<close>

inductive sensor_step :: "('x, 'f) telemetry \<Rightarrow> ('x, 'f) telemetry \<Rightarrow> bool" where
  enable_unique: "\<not> is_enabled W h \<Longrightarrow> sensor_step W (enable_unique provider now h t data W)"
| enable_shared: "\<not> is_enabled W h \<Longrightarrow> get_shared_sensor W t = None \<Longrightarrow>
    sensor_step W (enable_shared provider now h t data W)"
| enable_auto: "\<not> is_enabled W h \<Longrightarrow> get_shared_sensor W t = None \<Longrightarrow>
    sensor_step W (enable_auto provider now h t data W)"
| disable: "sensor_step W (sensor_disable h W)"
| update: "sensor_step W (sensor_update h fn W)"
| collect: "sensor_step W (snd (collect_lk F now W))"
| reg_shared: "sensor_step W (W\<lparr>shared_sensors := reg_type t fn (shared_sensors W)\<rparr>)"
| reg_unique: "sensor_step W (W\<lparr>unique_sensors := reg_type t fn (unique_sensors W)\<rparr>)"

definition count_is :: "('x, 'f) telemetry \<Rightarrow> nat \<Rightarrow> u64 \<Rightarrow> bool" where
  "count_is W s n \<longleftrightarrow> (case holder W s of None \<Rightarrow> False | Some x \<Rightarrow> h_scount x = n)"

definition sensors_ok :: "('x, 'f) telemetry \<Rightarrow> bool" where
  "sensors_ok W \<longleftrightarrow>
     distinct (map fst (handles W)) \<and> distinct (map snd (handles W)) \<and>
     distinct (map sf_sensor (active_shared W)) \<and> active_unique W = [] \<and>
     (\<forall>s \<in> snd ` set (handles W). s \<in> sf_sensor ` set (active_shared W) \<and> count_is W s 1) \<and>
     (\<forall>s \<in> sf_sensor ` set (active_shared W).
        s < next_holder W \<and> (s \<notin> snd ` set (handles W) \<longrightarrow> count_is W s 0)) \<and>
     (\<forall>s \<in> snd ` set (weak_shared W). s < next_holder W)"

lemma holder_change: 
  "holder (change_holder s f W) s' = map_option (\<lambda>x. if s' = s then f x else x) (holder W s')"
proof -
  have "map_of (map (\<lambda>e. if fst e = s then (s, f (snd e)) else e) hs) s'
      = map_option (\<lambda>x. if s' = s then f x else x) (map_of hs s')" for hs
    by (induction hs) auto
  then show ?thesis by (simp add: holder_def change_holder_def)
qed

lemma change_holder_rest [simp]:
  "handles (change_holder s f W) = handles W" "next_holder (change_holder s f W) = next_holder W"
  "active_shared (change_holder s f W) = active_shared W"
  "active_unique (change_holder s f W) = active_unique W"
  "weak_shared (change_holder s f W) = weak_shared W"
  "shared_sensors (change_holder s f W) = shared_sensors W"
  "unique_sensors (change_holder s f W) = unique_sensors W"
  by (simp_all add: change_holder_def)

lemma set_handle_rest [simp]:
  "holder (set_handle h p W) = holder W" "next_holder (set_handle h p W) = next_holder W"
  "active_shared (set_handle h p W) = active_shared W"
  "active_unique (set_handle h p W) = active_unique W"
  "weak_shared (set_handle h p W) = weak_shared W"
  "shared_sensors (set_handle h p W) = shared_sensors W"
  "unique_sensors (set_handle h p W) = unique_sensors W"
  by (simp_all add: set_handle_def holder_def fun_eq_iff Let_def)

lemma set_handle_twice [simp]: "set_handle h p (set_handle h q W) = set_handle h p W"
  by (cases q) (simp_all add: set_handle_def Let_def filter_filter)

lemma handle_set_handle [simp]: "handle (set_handle h p W) h' = (if h' = h then p else handle W h')"
proof -
  have "map_of (filter (\<lambda>e. fst e \<noteq> h) hs) h' = (if h' = h then None else map_of hs h')"
    for hs :: "(nat \<times> nat) list"
    by (induction hs) auto
  then show ?thesis by (cases p) (auto simp: handle_def set_handle_def Let_def)
qed

lemma handle_change_holder [simp]: "handle (change_holder s f W) = handle W"
  by (simp add: handle_def fun_eq_iff)

lemma handle_None: "handle W h = None \<longleftrightarrow> h \<notin> fst ` set (handles W)"
  by (simp add: handle_def map_of_eq_None_iff)

lemma new_sensor_state:
  assumes "handle W h = None" "new_sensor h t data W = (s, W1)"
  shows "s = next_holder W" "next_holder W1 = Suc (next_holder W)"
    "holder W1 = (holder W)(s \<mapsto> \<lparr>h_type = t, h_data = data, h_scount = 1\<rparr>)"
    "handles W1 = (h, s) # handles W"
    "active_shared W1 = active_shared W" "active_unique W1 = active_unique W"
    "weak_shared W1 = weak_shared W" "shared_sensors W1 = shared_sensors W"
    "unique_sensors W1 = unique_sensors W"
proof -
  have "filter (\<lambda>e. fst e \<noteq> h) (handles W) = handles W"
    using assms by (auto simp: handle_None filter_id_conv)
  then have h: "handles (set_handle h (Some s) V) = (h, s) # handles W" if "handles V = handles W" for V
    using that by (simp add: set_handle_def)
  have eqs: "s = next_holder W"
    "W1 = set_handle h (Some s) (change_holder s (\<lambda>x. x\<lparr>h_scount := h_scount x + 1\<rparr>)
      (W\<lparr>holders := (s, \<lparr>h_type = t, h_data = data, h_scount = 0\<rparr>) # holders W,
         next_holder := Suc s\<rparr>))"
    using assms(2) by (auto simp: new_sensor_def Let_def)
  show "s = next_holder W" by (fact eqs(1))
  then show "next_holder W1 = Suc (next_holder W)" "active_shared W1 = active_shared W"
    "active_unique W1 = active_unique W"
    "weak_shared W1 = weak_shared W" "shared_sensors W1 = shared_sensors W"
    "unique_sensors W1 = unique_sensors W" by (simp_all add: eqs(2))
  show "handles W1 = (h, s) # handles W" unfolding eqs(2) by (rule h) simp
  show "holder W1 = (holder W)(s \<mapsto> \<lparr>h_type = t, h_data = data, h_scount = 1\<rparr>)"
    by (simp add: eqs(2) fun_eq_iff holder_change) (simp add: holder_def option.map_ident)
qed

text \<open>The state behind a handle that was free, once its new sensor is active.\<close>

definition enabled_state ::
    "nat \<Rightarrow> ('x, 'f) telemetry \<Rightarrow> ('x, 'f) telemetry \<Rightarrow> bool" where
  "enabled_state h W V \<longleftrightarrow>
     handles V = (h, next_holder W) # handles W \<and> next_holder V = Suc (next_holder W) \<and>
     (\<exists>x d. holder V = (holder W)(next_holder W \<mapsto> x) \<and> h_scount x = 1 \<and>
        active_shared V = active_shared W @ [d] \<and> sf_sensor d = next_holder W) \<and>
     active_unique V = active_unique W \<and>
     snd ` set (weak_shared V) \<subseteq> snd ` set (weak_shared W) \<union> {next_holder W}"

lemma enabled_state_ok:
  assumes "sensors_ok W" "handle W h = None" "enabled_state h W V"
  shows "sensors_ok V"
proof -
  obtain x d where V: "handles V = (h, next_holder W) # handles W" "next_holder V = Suc (next_holder W)"
    "holder V = (holder W)(next_holder W \<mapsto> x)" "h_scount x = 1"
    "active_shared V = active_shared W @ [d]" "sf_sensor d = next_holder W"
    "active_unique V = active_unique W"
    "snd ` set (weak_shared V) \<subseteq> snd ` set (weak_shared W) \<union> {next_holder W}"
    using assms(3) by (auto simp: enabled_state_def)
  have old: "s < next_holder W" if "s \<in> snd ` set (handles W) \<union> sf_sensor ` set (active_shared W)" for s
    using assms(1) that by (auto simp: sensors_ok_def)
  then have new: "next_holder W \<notin> snd ` set (handles W)" "next_holder W \<notin> sf_sensor ` set (active_shared W)"
    by blast+
  have count: "count_is V s n \<longleftrightarrow> (if s = next_holder W then n = 1 else count_is W s n)" for s n
    using V(4) by (auto simp: count_is_def V(3))
  show ?thesis unfolding sensors_ok_def V(1,2,5,7)
  proof (intro conjI)
    show "distinct (map fst ((h, next_holder W) # handles W))"
      using assms(1,2) by (simp add: sensors_ok_def handle_None)
    show "distinct (map snd ((h, next_holder W) # handles W))"
      using assms(1) new(1) by (simp add: sensors_ok_def)
    show "distinct (map sf_sensor (active_shared W @ [d]))" "active_unique W = []"
      using assms(1) new(2) by (simp_all add: sensors_ok_def V(6))
    show "\<forall>s \<in> snd ` set ((h, next_holder W) # handles W).
        s \<in> sf_sensor ` set (active_shared W @ [d]) \<and> count_is V s 1"
      using assms(1) new(1) by (auto simp: sensors_ok_def V(6) count)
    show "\<forall>s \<in> sf_sensor ` set (active_shared W @ [d]). s < Suc (next_holder W) \<and>
        (s \<notin> snd ` set ((h, next_holder W) # handles W) \<longrightarrow> count_is V s 0)"
      using assms(1) new old by (auto simp: sensors_ok_def V(6) count less_Suc_eq)
    show "\<forall>s \<in> snd ` set (weak_shared V). s < Suc (next_holder W)"
    proof
      fix s
      assume "s \<in> snd ` set (weak_shared V)"
      then have "s \<in> snd ` set (weak_shared W) \<union> {next_holder W}" using V(8) by (rule rev_subsetD)
      then show "s < Suc (next_holder W)" using assms(1) by (auto simp: sensors_ok_def)
    qed
  qed
qed

lemma activate_new:
  assumes "handle W h = None" "new_sensor h t data W = (s, W1)" "map_of m t = Some mr"
    and W2: "holder W2 = holder W1" "handles W2 = handles W1" "next_holder W2 = next_holder W1"
      "active_shared W2 = active_shared W1" "active_unique W2 = active_unique W1"
      "snd ` set (weak_shared W2) \<subseteq> snd ` set (weak_shared W) \<union> {s}"
  shows "\<exists>V. activate m now s W2 = (Some s, V) \<and> enabled_state h W (set_handle h (Some s) V)"
proof -
  note st = new_sensor_state [OF assms(1,2)]
  have t: "holder_type W2 s = t" by (simp add: holder_type_def W2 st)
  have "filter (\<lambda>e. fst e \<noteq> h) (handles W) = handles W"
    using assms(1) by (auto simp: handle_None filter_id_conv)
  moreover have "holder (W2\<lparr>active_shared := a\<rparr>) = holder W2" for a
    by (simp add: holder_def fun_eq_iff)
  ultimately have "enabled_state h W (set_handle h (Some s) (W2\<lparr>active_shared := active_shared W2
      @ [\<lparr>sf_sensor = s, sf_reader = mr, sf_created = now\<rparr>]\<rparr>))"
    using W2 by (auto simp: enabled_state_def st set_handle_rest) (auto simp: set_handle_def st)
  then show ?thesis using assms(3) by (simp add: activate_def t tm_convert_def)
qed

lemma unique_step:
  assumes "sensors_ok W" "\<not> is_enabled W h" "tm_defined (unique_sensors W) t"
  shows "sensors_ok (let (s, W) = new_sensor h t data W; (r, W) = register_unique_sensor now s W
                     in set_handle h r W)"
proof -
  have free: "handle W h = None" using assms(2) by (simp add: is_enabled_def)
  obtain mr where mr: "map_of (unique_sensors W) t = Some mr"
    using assms(3) by (auto simp: tm_defined_def)
  obtain s W1 where n: "new_sensor h t data W = (s, W1)" by fastforce
  note st = new_sensor_state [OF free n]
  obtain V where "activate (unique_sensors W1) now s W1 = (Some s, V)"
      "enabled_state h W (set_handle h (Some s) V)"
    using activate_new [OF free n, of "unique_sensors W1" mr W1 now] mr st by auto
  then show ?thesis
    using enabled_state_ok [OF assms(1) free] by (simp add: n register_unique_sensor_def)
qed

lemma enable_unique_ok:
  "sensors_ok W \<Longrightarrow> \<not> is_enabled W h \<Longrightarrow> sensors_ok (enable_unique provider now h t data W)"
  using unique_step [of W h t data now] by (auto simp: enable_unique_def can_register_unique_sensor_def)

lemma use_shared_ok:
  assumes "sensors_ok W" "\<not> is_enabled W h" "tm_defined (shared_sensors W) t"
    "get_shared_sensor W t = None"
  shows "sensors_ok (use_shared now h t data W)"
proof -
  have free: "handle W h = None" using assms(2) by (simp add: is_enabled_def)
  obtain mr where mr: "map_of (shared_sensors W) t = Some mr"
    using assms(3) by (auto simp: tm_defined_def)
  obtain s W1 where n: "new_sensor h t data W = (s, W1)" by fastforce
  note st = new_sensor_state [OF free n]
  have t: "holder_type W1 s = t" by (simp add: holder_type_def st)
  have dead: "weak_lock W1 s0 = None" if "map_of (weak_shared W) t = Some s0" for s0
  proof -
    have "s0 \<in> snd ` set (weak_shared W)" using map_of_SomeD [OF that] by force
    then have "s0 \<noteq> s" using assms(1) st(1) by (auto simp: sensors_ok_def)
    then show ?thesis
      using assms(4) that by (auto simp: get_shared_sensor_def weak_lock_def active_def st split: if_splits)
  qed
  have reg: "register_shared_sensor now s W1 = activate (shared_sensors W1) now s (set_weak t s W1)"
    using dead by (auto simp: register_shared_sensor_def t Let_def st(2-) split: option.splits)
  have "snd ` set (weak_shared (set_weak t s W1)) \<subseteq> snd ` set (weak_shared W) \<union> {s}"
    by (auto simp: set_weak_def st)
  moreover have "holder (set_weak t s W1) = holder W1"
    by (simp add: set_weak_def holder_def fun_eq_iff)
  ultimately obtain V where "activate (shared_sensors W1) now s (set_weak t s W1) = (Some s, V)"
      "enabled_state h W (set_handle h (Some s) V)"
    using activate_new [OF free n, of "shared_sensors W1" mr "set_weak t s W1" now] mr st
    by (auto simp: set_weak_def)
  then show ?thesis
    using enabled_state_ok [OF assms(1) free] by (simp add: use_shared_def assms(4) n reg)
qed

lemma enable_shared_ok:
  "sensors_ok W \<Longrightarrow> \<not> is_enabled W h \<Longrightarrow> get_shared_sensor W t = None \<Longrightarrow>
     sensors_ok (enable_shared provider now h t data W)"
  using use_shared_ok [of W h t now data] by (auto simp: enable_shared_def can_register_shared_sensor_def)

lemma enable_auto_ok:
  assumes "sensors_ok W" "\<not> is_enabled W h" "get_shared_sensor W t = None"
  shows "sensors_ok (enable_auto provider now h t data W)"
  using assms unique_step [OF assms(1,2)] use_shared_ok [OF assms(1,2)]
  by (auto simp: enable_auto_def can_register_sensor_auto_def Let_def split: SensorType.splits)

lemma disable_ok:
  assumes "sensors_ok W"
  shows "sensors_ok (sensor_disable h W)"
proof (cases "handle W h")
  case None
  then show ?thesis using assms by (simp add: sensor_disable_def)
next
  case (Some s)
  let ?V = "sensor_disable h W"
  have hs: "(h, s) \<in> set (handles W)" using Some by (simp add: handle_def map_of_SomeD)
  have V: "handles ?V = filter (\<lambda>e. fst e \<noteq> h) (handles W)" "next_holder ?V = next_holder W"
    "active_shared ?V = active_shared W" "active_unique ?V = active_unique W"
    "weak_shared ?V = weak_shared W"
    by (simp_all add: sensor_disable_def Some set_handle_def Let_def)
  have one: "count_is W s 1" using assms hs by (force simp: sensors_ok_def)
  have count: "count_is ?V s' n \<longleftrightarrow> (if s' = s then n = 0 else count_is W s' n)" for s' n
    using one by (auto simp: sensor_disable_def Some count_is_def holder_change split: option.splits)
  have dist: "distinct (map fst (handles W))" "distinct (map snd (handles W))"
    using assms by (simp_all add: sensors_ok_def)
  have owned: "s' \<in> snd ` set (handles ?V) \<longleftrightarrow> s' \<in> snd ` set (handles W) \<and> s' \<noteq> s" for s'
    unfolding V using hs dist
    by (auto simp: image_iff distinct_map inj_on_def) (metis fst_conv snd_conv)+
  show ?thesis
    unfolding sensors_ok_def V(2-5)
  proof (intro conjI)
    show "distinct (map fst (handles ?V))" "distinct (map snd (handles ?V))"
      using dist by (simp_all add: V(1) distinct_map_filter)
    show "distinct (map sf_sensor (active_shared W))" "active_unique W = []"
      "\<forall>s \<in> snd ` set (weak_shared W). s < next_holder W"
      using assms by (simp_all add: sensors_ok_def)
    show "\<forall>s \<in> snd ` set (handles ?V). s \<in> sf_sensor ` set (active_shared W) \<and> count_is ?V s 1"
    proof
      fix s'
      assume "s' \<in> snd ` set (handles ?V)"
      then have "s' \<in> snd ` set (handles W) \<and> s' \<noteq> s" unfolding owned .
      then show "s' \<in> sf_sensor ` set (active_shared W) \<and> count_is ?V s' 1"
        using assms unfolding sensors_ok_def count by (metis (no_types))
    qed
    show "\<forall>s \<in> sf_sensor ` set (active_shared W). s < next_holder W \<and>
        (s \<notin> snd ` set (handles ?V) \<longrightarrow> count_is ?V s 0)"
      using assms by (simp add: sensors_ok_def owned count)
  qed
qed

lemma sensors_ok_cong:
  assumes "sensors_ok W" "handles V = handles W" "next_holder V = next_holder W"
    "active_shared V = active_shared W" "active_unique V = active_unique W"
    "weak_shared V = weak_shared W" "\<And>s n. count_is V s n = count_is W s n"
  shows "sensors_ok V"
  using assms by (simp add: sensors_ok_def)

lemma update_ok:
  assumes "sensors_ok W"
  shows "sensors_ok (sensor_update h fn W)"
proof (cases "handle W h")
  case (Some s)
  then show ?thesis
    by (intro sensors_ok_cong [OF assms])
      (simp_all add: sensor_update_def count_is_def holder_change option.case_eq_if option.map_sel)
qed (use assms in \<open>simp add: sensor_update_def\<close>)

lemma drop_inactive_ok:
  assumes "sensors_ok W"
  shows "sensors_ok (drop_inactive W)"
proof -
  let ?V = "drop_inactive W"
  have V: "handles ?V = handles W" "next_holder ?V = next_holder W" "weak_shared ?V = weak_shared W"
    "active_shared ?V = filter (\<lambda>d. any_sensor W (sf_sensor d)) (active_shared W)"
    "active_unique ?V = filter (\<lambda>d. any_sensor W (sf_sensor d)) (active_unique W)"
    by (simp_all add: drop_inactive_def)
  have count: "count_is ?V s n = count_is W s n" for s n
    by (simp add: count_is_def holder_def drop_inactive_def)
  have any: "any_sensor W s" if "count_is W s 1" for s
    using that by (auto simp: any_sensor_def count_is_def split: option.splits)
  show ?thesis
    using assms any unfolding sensors_ok_def V count
    by (auto simp: distinct_map_filter)
qed

lemma collect_ok: "sensors_ok W \<Longrightarrow> sensors_ok (snd (collect_lk F now W))"
  using drop_inactive_ok by (auto simp: collect_lk_def split: sum.splits)

lemma step_ok: "sensor_step W V \<Longrightarrow> sensors_ok W \<Longrightarrow> sensors_ok V"
proof (induction rule: sensor_step.induct)
  case (reg_shared W t fn)
  then show ?case by (rule sensors_ok_cong) (simp_all add: count_is_def holder_def)
next
  case (reg_unique W t fn)
  then show ?case by (rule sensors_ok_cong) (simp_all add: count_is_def holder_def)
qed (simp_all add: enable_unique_ok enable_shared_ok enable_auto_ok disable_ok update_ok collect_ok)

lemma new_collector_ok: "sensors_ok (new_collector start)"
  by (simp add: sensors_ok_def new_collector_def)

lemma reachable_ok: "sensor_step\<^sup>*\<^sup>* (new_collector start) W \<Longrightarrow> sensors_ok W"
  by (induction rule: rtranclp_induct) (use new_collector_ok step_ok in auto)

section \<open>Properties of the sensors\<close>


text \<open>A second handle of a shared sensor is not counted, so once it is disabled the next
collection drops the sensor although the first handle still updates it.\<close>

lemma shared_sensor_lost:
  assumes "get_shared_sensor W t = Some s" "can_register_shared_sensor W t" "count_is W s 1"
    and "handle W h = Some s" "h' \<noteq> h"
    and "collect_lk F later (sensor_disable h' (enable_shared True now h' t data W)) = (Inr output, V)"
  shows "handle V h = Some s \<and> s \<notin> set (active V)"
proof -
  define D where "D = sensor_disable h' (enable_shared True now h' t data W)"
  have E: "enable_shared True now h' t data W = set_handle h' (Some s) W"
    using assms(1,2) by (simp add: enable_shared_def use_shared_def)
  have D: "handle D h = Some s" "\<not> any_sensor D s"
    using assms(3-5) unfolding D_def E
    by (auto simp: sensor_disable_def any_sensor_def count_is_def holder_change split: option.splits)
  have V: "V = drop_inactive D"
    using assms(6) unfolding D_def [symmetric] by (auto simp: collect_lk_def split: sum.splits)
  show ?thesis
    using D by (auto simp: V drop_inactive_def handle_def active_def)
qed

section \<open>A collector with one sensor\<close>

definition stats_collector :: "(nat, int) telemetry" where
  "stats_collector = (new_collector 0)\<lparr>shared_sensors := reg_type ''Stats'' (\<lambda>n.
     [emit_point (defMetric gauge ''posts'' [] []) None (MV_uint (of_nat n)) None])
     (shared_sensors (new_collector 0))\<rparr>"

definition one_sensor :: "(nat, int) telemetry" where
  "one_sensor = enable_shared True 5 1 ''Stats'' 0 stats_collector"

lemma collect_describes_once_witness:
  "\<exists>text pts up. mset pts
      = mset (concat (map (read_sensor one_sensor) (active_unique one_sensor @ active_shared one_sensor))) \<and>
    sorted (map point_order pts) \<and> point_id up = ''uptime'' \<and>
    in_sequence (map2 (render_collected plain_floats 9) (pts @ [up])
      (describe_first [''''] (map point_id (pts @ [up])))) = Inr text"
proof -
  have "\<not> isl (fst (collect_lk plain_floats 9 one_sensor))" by code_simp
  then obtain t V where "collect_lk plain_floats 9 one_sensor = (Inr t, V)"
    by (metis isl_def old.sum.exhaust prod.collapse)
  moreover have "''uptime'' \<notin> point_id ` set (collected_points one_sensor)" by code_simp
  ultimately show ?thesis using collect_describes_once by blast
qed


lemma shared_sensor_lost_example:
  "\<exists>V. handle V 1 = Some 0 \<and> 0 \<notin> set (active (V :: (nat, int) telemetry))"
proof -
  have "get_shared_sensor one_sensor ''Stats'' = Some 0" "can_register_shared_sensor one_sensor ''Stats''"
    "count_is one_sensor 0 1" "handle one_sensor 1 = Some 0" by code_simp+
  moreover have "\<not> isl (fst (collect_lk plain_floats 9
      (sensor_disable 2 (enable_shared True 7 2 ''Stats'' 0 one_sensor))))" by code_simp
  then obtain t V where "collect_lk plain_floats 9
      (sensor_disable 2 (enable_shared True 7 2 ''Stats'' 0 one_sensor)) = (Inr t, V)"
    by (metis isl_def old.sum.exhaust prod.collapse)
  ultimately show ?thesis using shared_sensor_lost [of one_sensor "''Stats''" 0 1 2] by force
qed

end
