(* ===== verification/Telemetry_Def.thy ===== *)
theory Telemetry_Def
  imports Collector_Sensors
begin

text \<open>
  The relay's own sensors and their readers: \<^verbatim>\<open>src/src/nostr_server/telemetry_def.h\<close> and
  \<^verbatim>\<open>telemetry_def.cpp\<close>. A reader gives the points it emits; the properties of the database it asks
  for are the record \<open>level_ops\<close>. Logging and the atomic counter of connections are not modelled.

  The lemmas: \<open>report_kind\<close> keeps a sorted table of exact counts (modulo 32 bits), and the cache
  of attribute lists does not change what a client's reader emits.
\<close>

section \<open>The sensor of a client\<close>

record ClientSensor =
  cs_connectionID :: u32
  cs_ident :: string
  cs_user_agent :: string
  cs_command_counter :: u32
  cs_query_counter :: u32
  cs_error_counter :: u32
  cs_subscriptions :: u32
  cs_max_subscriptions :: u32
  cs_kinds :: "(u32 \<times> u32) list"      \<comment> \<open>\<open>event_created_kinds\<close>, sorted\<close>

definition new_client_sensor :: "u32 \<Rightarrow> string \<Rightarrow> string \<Rightarrow> ClientSensor" where
  "new_client_sensor ids ident user_agent =
     \<lparr>cs_connectionID = ids + 1, cs_ident = ident, cs_user_agent = user_agent,
       cs_command_counter = 0, cs_query_counter = 0, cs_error_counter = 0, cs_subscriptions = 0,
       cs_max_subscriptions = 0, cs_kinds = []\<rparr>"

text \<open>\<open>lower_bound\<close> of \<open>(kind, 0)\<close> in the sorted vector is the first entry whose kind is not
smaller: it is counted up, or a new entry is inserted before it.\<close>

fun report_kind_list :: "u32 \<Rightarrow> (u32 \<times> u32) list \<Rightarrow> (u32 \<times> u32) list" where
  "report_kind_list kind [] = [(kind, 1)]"
| "report_kind_list kind ((k, n) # ks) =
     (if k < kind then (k, n) # report_kind_list kind ks
      else if k \<noteq> kind then (kind, 1) # (k, n) # ks
      else (k, n + 1) # ks)"

definition report_kind :: "u32 \<Rightarrow> ClientSensor \<Rightarrow> ClientSensor" where
  "report_kind kind s = s\<lparr>cs_kinds := report_kind_list kind (cs_kinds s)\<rparr>"

section \<open>Its reader\<close>

definition basic_attributes :: "ClientSensor \<Rightarrow> 'f AttributeList" where
  "basic_attributes s = [(''connID'', AV_uint (cs_connectionID s))]"

definition ext_attributes :: "ClientSensor \<Rightarrow> 'f AttributeList" where
  "ext_attributes s =
     [(''connID'', AV_uint (cs_connectionID s)), (''userAgent'', AV_string (cs_user_agent s)),
      (''ident'', AV_string (cs_ident s))]"

text \<open>The loop over the kinds, with the cache of attribute lists sorted by kind.\<close>

fun emit_kinds ::
    "MetricDefinition \<Rightarrow> 'f AttributeList \<Rightarrow> (u32 \<times> 'f AttributeList) list \<Rightarrow> (u32 \<times> u32) list \<Rightarrow>
     'f MetricPoint list \<times> (u32 \<times> 'f AttributeList) list" where
  "emit_kinds d basic attrmap [] = ([], attrmap)"
| "emit_kinds d basic attrmap ((k, n) # ks) =
     (let before = takeWhile (\<lambda>e. fst e < k) attrmap; rest = dropWhile (\<lambda>e. fst e < k) attrmap;
          newa = basic @ [(''kind'', AV_uint k)];
          (attrs, attrmap) =
            (case rest of
               [] \<Rightarrow> (newa, before @ [(k, newa)])
             | (k', a) # ents \<Rightarrow> if k' > k then (newa, before @ (k, newa) # rest) else (a, attrmap));
          (pts, attrmap) = emit_kinds d basic attrmap ks
      in (emit_point d (Some attrs) (MV_uint n) None # pts, attrmap))"

definition client_reader ::
    "(u32 \<times> 'f AttributeList) list \<Rightarrow> ClientSensor \<Rightarrow>
     'f MetricPoint list \<times> (u32 \<times> 'f AttributeList) list" where
  "client_reader attrmap s =
     (let basic = basic_attributes s;
          (kinds, attrmap) =
            emit_kinds (defMetric counter ''nostr_client_post_events'' [] []) basic attrmap (cs_kinds s)
      in ([emit_point (defMetric info ''nostr_client_info'' [] []) (Some (ext_attributes s)) MV_null None,
           emit_point (defMetric counter ''nostr_client_command_count'' [] []) (Some basic)
             (MV_uint (cs_command_counter s)) None,
           emit_point (defMetric counter ''nostr_client_query_count'' [] []) (Some basic)
             (MV_uint (cs_query_counter s)) None,
           emit_point (defMetric gauge ''nostr_client_active_subscriptions'' [] []) (Some basic)
             (MV_uint (cs_subscriptions s)) None,
           emit_point (defMetric counter ''nostr_client_error_count'' [] []) (Some basic)
             (MV_uint (cs_error_counter s)) None,
           emit_point (defMetric gauge ''nostr_client_max_active_subscriptions'' [] []) (Some basic)
             (MV_uint (cs_max_subscriptions s)) None] @ kinds, attrmap))"

section \<open>The readers of the database\<close>

record level_ops =
  ldb_property :: "string \<Rightarrow> string"               \<comment> \<open>\<open>GetProperty\<close>\<close>
  db_list :: "(string \<times> nat) list"                 \<comment> \<open>the collections and their keyspaces\<close>
  db_index_size :: "nat \<Rightarrow> nat \<Rightarrow> u64"             \<comment> \<open>\<open>get_index_size\<close> of two raw keys\<close>

text \<open>\<open>std::getline\<close> on the rest of the input, whether the stream is good, and the line: a stream
that has met its end leaves the line as it is.\<close>

abbreviation newline :: char where "newline \<equiv> CHR 0x0A"

definition getline :: "string \<times> bool \<times> string \<Rightarrow> string \<times> bool \<times> string" where
  "getline st =
     (case st of (input, good, line) \<Rightarrow>
        if \<not> good then (input, good, line)
        else (case dropWhile (\<lambda>c. c \<noteq> newline) input of
                [] \<Rightarrow> ([], False, input)
              | _ # rest \<Rightarrow> (rest, True, takeWhile (\<lambda>c. c \<noteq> newline) input)))"

definition level_point :: "u64 \<Rightarrow> u64 \<Rightarrow> 'f MetricPoint list" where
  "level_point prev_level prev_level_size =
     (if prev_level \<noteq> - 1
      then [emit_point (defMetric gauge ''nostr_database_level_size'' [] ''bytes'')
              (Some [(''level'', AV_ulong prev_level)]) (MV_uintmax prev_level_size) None]
      else [])"

text \<open>One line: the points it flushes, the level and its size so far.\<close>

definition level_line :: "u64 \<times> u64 \<Rightarrow> string \<Rightarrow> 'f MetricPoint list \<times> u64 \<times> u64" where
  "level_line prev line =
     (if take 10 line = ''--- level '' then
        (level_point (fst prev) (snd prev), fst (strtoul (drop 10 line)), 0)
      else
        ([], fst prev,
         snd prev + (case dropWhile (\<lambda>c. c \<noteq> CHR '':'') line of
                       [] \<Rightarrow> 0 | _ # digits \<Rightarrow> fst (strtoul digits))))"

text \<open>The loop \<open>while (true)\<close>, left at an empty line only. A call that does not return is
\<open>None\<close>.\<close>

partial_function (option) level_loop ::
    "string \<times> bool \<times> string \<Rightarrow> u64 \<times> u64 \<Rightarrow> ('f MetricPoint list) option" where
  "level_loop st prev =
     (let st = getline st; line = snd (snd st)
      in if line = [] then Some (level_point (fst prev) (snd prev))
         else (let (pts, prev) = level_line prev line
               in Option.bind (level_loop st prev) (\<lambda>ents. Some (pts @ ents))))"

declare level_loop.simps [code]

definition database_reader :: "level_ops \<Rightarrow> ('f MetricPoint list) option" where
  "database_reader L =
     map_option (\<lambda>levels. levels
       @ map (\<lambda>(name, kid). emit_point (defMetric gauge ''nostr_database_collection_size'' [] ''bytes'')
                (Some [(''collection'', AV_string name)])
                (MV_uintmax (db_index_size L kid (kid + 1))) None) (db_list L)
       @ [emit_point (defMetric gauge ''nostr_database_memory_usage'' [] ''bytes'') None
            (MV_uintmax (fst (strtoul (ldb_property L ''leveldb.approximate-memory-usage'')))) None])
     (level_loop (ldb_property L ''leveldb.sstables'', True, []) (- 1, 0))"

definition storage_reader :: "u64 \<Rightarrow> 'f MetricPoint list" where
  "storage_reader revision =
     [emit_point (defMetric counter ''nostr_database_events'' [] []) None (MV_uintmax revision) None]"

definition stats_reader :: "u32 \<Rightarrow> 'f MetricPoint list" where
  "stats_reader duplicated_post =
     [emit_point (defMetric counter ''nostr_database_duplicated_posts'' [] []) None
        (MV_uint duplicated_post) None]"

section \<open>Counting kinds\<close>

definition kind_table :: "(u32 \<times> u32) list \<Rightarrow> u32 list \<Rightarrow> bool" where
  "kind_table tbl ks \<longleftrightarrow>
     sorted (map fst tbl) \<and> distinct (map fst tbl) \<and> fst ` set tbl = set ks \<and>
     (\<forall>x \<in> set tbl. snd x = of_nat (count_list ks (fst x)))"

lemma report_kind_keys:
  "(\<forall>x \<in> set (report_kind_list kind tbl). P (fst x)) \<longleftrightarrow> P kind \<and> (\<forall>x \<in> set tbl. P (fst x))"
  "fst ` set (report_kind_list kind tbl) = insert kind (fst ` set tbl)"
  by (induction kind tbl rule: report_kind_list.induct) auto

lemma report_kind_sorted:
  "sorted_wrt (<) (map fst tbl) \<Longrightarrow> sorted_wrt (<) (map fst (report_kind_list kind tbl))"
  by (induction kind tbl rule: report_kind_list.induct)
    (auto simp: report_kind_keys(1) sorted_wrt_map intro: less_trans)

lemma count_list_snoc:
  "of_nat (count_list (ks @ [kind]) k) = of_nat (count_list ks k) + (if k = kind then 1 else 0 :: u32)"
  by simp

lemma report_kind_counts:
  assumes "sorted_wrt (<) (map fst tbl)" "\<forall>x \<in> set tbl. snd x = of_nat (count_list ks (fst x))"
    "kind \<in> fst ` set tbl \<or> count_list ks kind = 0"
  shows "\<forall>x \<in> set (report_kind_list kind tbl). snd x = of_nat (count_list (ks @ [kind]) (fst x))"
  using assms
proof (induction kind tbl rule: report_kind_list.induct)
  case (1 kind)
  then show ?case by simp
next
  case (2 kind k n tbl)
  have later: "k < fst x" if "x \<in> set tbl" for x using 2(2) that by simp
  consider "k < kind" | "k = kind" | "kind < k" by (rule linorder_cases [of k kind])
  then show ?case
  proof cases
    case 1
    then have "kind \<in> fst ` set tbl \<or> count_list ks kind = 0" using 2(4) by auto
    with 1 2 show ?thesis by (simp add: count_list_snoc del: count_list_append)
  next
    case 2
    with \<open>\<forall>x \<in> set ((k, n) # tbl). snd x = of_nat (count_list ks (fst x))\<close> later show ?thesis
      by (fastforce simp: count_list_snoc simp del: count_list_append)
  next
    case 3
    then have "kind \<notin> fst ` set ((k, n) # tbl)" using later by force
    with 3 2 show ?thesis by (auto simp: count_list_snoc simp del: count_list_append)
  qed
qed

lemma report_kind_table:
  assumes "kind_table tbl ks"
  shows "kind_table (report_kind_list kind tbl) (ks @ [kind])"
proof -
  have sorted: "sorted_wrt (<) (map fst tbl)"
    using assms by (simp add: kind_table_def strict_sorted_iff)
  have keys: "fst ` set tbl = set ks" and counts: "\<forall>x \<in> set tbl. snd x = of_nat (count_list ks (fst x))"
    using assms by (simp_all add: kind_table_def)
  then have "kind \<in> fst ` set tbl \<or> count_list ks kind = 0" by (auto simp: count_list_0_iff)
  from report_kind_counts [OF sorted counts this] report_kind_sorted [OF sorted, of kind]
  show ?thesis
    unfolding kind_table_def strict_sorted_iff report_kind_keys(2) keys by simp
qed

section \<open>The cache of a client's reader\<close>

text \<open>The cache holds, under a kind, the attributes the reader would build for it; so a reader
emits the same points whatever it has cached.\<close>

definition kind_attributes :: "'f AttributeList \<Rightarrow> u32 \<Rightarrow> 'f AttributeList" where
  "kind_attributes basic k = basic @ [(''kind'', AV_uint k)]"

definition cache_ok :: "'f AttributeList \<Rightarrow> (u32 \<times> 'f AttributeList) list \<Rightarrow> bool" where
  "cache_ok basic attrmap \<longleftrightarrow> (\<forall>(k, a) \<in> set attrmap. a = kind_attributes basic k)"

lemma emit_kinds_cache:
  assumes "cache_ok basic attrmap" "emit_kinds d basic attrmap ks = (pts, attrmap')"
  shows "pts = map (\<lambda>(k, n). emit_point d (Some (kind_attributes basic k)) (MV_uint n) None) ks"
    and "cache_ok basic attrmap'"
proof -
  have "pts = map (\<lambda>(k, n). emit_point d (Some (kind_attributes basic k)) (MV_uint n) None) ks \<and>
      cache_ok basic attrmap'"
    using assms
  proof (induction ks arbitrary: attrmap pts)
    case (Cons kn ks)
    obtain k n where kn: "kn = (k, n)" by (cases kn)
    define before where "before = takeWhile (\<lambda>e. fst e < k) attrmap"
    define rest where "rest = dropWhile (\<lambda>e. fst e < k) attrmap"
    define hit where "hit = (case rest of
        [] \<Rightarrow> (kind_attributes basic k, before @ [(k, kind_attributes basic k)])
      | (k', a) # ents \<Rightarrow>
          if k' > k then (kind_attributes basic k, before @ (k, kind_attributes basic k) # rest)
          else (a, attrmap))"
    have parts: "cache_ok basic before" "cache_ok basic rest"
      using Cons.prems(1) by (auto simp: cache_ok_def before_def rest_def dest: set_takeWhileD set_dropWhileD)
    have head: "\<not> k' < k" if "rest = (k', a) # ents" for k' a ents
      using hd_dropWhile [of "\<lambda>e. fst e < k" attrmap] that unfolding rest_def by auto
    have hit_ok: "fst hit = kind_attributes basic k \<and> cache_ok basic (snd hit)"
      using parts Cons.prems(1) head by (auto simp: hit_def cache_ok_def split: list.splits)
    obtain p' where p': "emit_kinds d basic (snd hit) ks = (p', attrmap')"
      and pts: "pts = emit_point d (Some (fst hit)) (MV_uint n) None # p'"
      using Cons.prems(2) unfolding kn emit_kinds.simps Let_def before_def [symmetric] rest_def [symmetric]
        kind_attributes_def [symmetric] hit_def [symmetric]
      by (auto split: prod.splits)
    show ?case using Cons.IH [OF _ p'] hit_ok pts by (simp add: kn)
  qed simp
  then show "pts = map (\<lambda>(k, n). emit_point d (Some (kind_attributes basic k)) (MV_uint n) None) ks"
    and "cache_ok basic attrmap'" by simp_all
qed

section \<open>When the reader of the levels returns\<close>

text \<open>There is an empty line before the text ends.\<close>

fun line_ends :: "nat \<Rightarrow> string \<Rightarrow> bool" where
  "line_ends n [] = (n = 0)"
| "line_ends n (c # cs) = (if c = newline then n = 0 \<or> line_ends 0 cs else line_ends (Suc n) cs)"

lemma line_ends_line:
  "newline \<notin> set xs \<Longrightarrow> line_ends n (xs @ ys) = line_ends (n + length xs) ys"
  by (induction xs arbitrary: n) auto

lemma line_ends_cases:
  "line_ends 0 input \<longleftrightarrow>
     (case dropWhile (\<lambda>c. c \<noteq> newline) input of
        [] \<Rightarrow> input = []
      | _ # rest \<Rightarrow> takeWhile (\<lambda>c. c \<noteq> newline) input = [] \<or> line_ends 0 rest)"
proof (cases "dropWhile (\<lambda>c. c \<noteq> newline) input")
  case Nil
  then have "newline \<notin> set input" by (auto simp: dropWhile_eq_Nil_conv)
  then show ?thesis using line_ends_line [of input 0 "[]"] by (simp add: Nil)
next
  case (Cons c rest)
  then have c: "c = newline" using hd_dropWhile [of "\<lambda>c. c \<noteq> newline" input] by simp
  obtain t where t: "takeWhile (\<lambda>c. c \<noteq> newline) input = t" by blast
  then have "newline \<notin> set t" by (auto dest: set_takeWhileD)
  moreover have "input = t @ newline # rest"
    using takeWhile_dropWhile_id [of "\<lambda>c. c \<noteq> newline" input] unfolding t Cons c by simp
  ultimately have "line_ends 0 input \<longleftrightarrow> t = [] \<or> line_ends 0 rest"
    using line_ends_line [of t 0 "newline # rest"] by simp
  then show ?thesis by (simp add: Cons t)
qed

definition will_end :: "string \<times> bool \<times> string \<Rightarrow> bool" where
  "will_end st = (case st of (input, good, line) \<Rightarrow> if good then line_ends 0 input else line = [])"

lemma getline_cases:
  "getline (input, False, line) = (input, False, line)"
  "dropWhile (\<lambda>c. c \<noteq> newline) input = [] \<Longrightarrow> getline (input, True, line) = ([], False, input)"
  "dropWhile (\<lambda>c. c \<noteq> newline) input = c # rest \<Longrightarrow>
     getline (input, True, line) = (rest, True, takeWhile (\<lambda>c. c \<noteq> newline) input)"
  by (simp_all only: getline_def prod.case list.case simp_thms if_True if_False)

lemma will_end_simps [simp]:
  "will_end (input, True, line) = line_ends 0 input" "will_end (input, False, line) \<longleftrightarrow> line = []"
  by (simp_all add: will_end_def)

lemma will_end_getline: "will_end st \<longleftrightarrow> snd (snd (getline st)) = [] \<or> will_end (getline st)"
proof -
  obtain input good line where st: "st = (input, good, line)" by (cases st)
  consider "\<not> good" | "good" "dropWhile (\<lambda>c. c \<noteq> newline) input = []"
    | c rest where "good" "dropWhile (\<lambda>c. c \<noteq> newline) input = c # rest"
    by (cases "dropWhile (\<lambda>c. c \<noteq> newline) input") auto
  then show ?thesis
  proof cases
    case 2
    then have "line_ends 0 input \<longleftrightarrow> input = []" using line_ends_cases [of input] by (simp only: list.case)
    then show ?thesis using 2 by (simp add: st getline_cases(2))
  next
    case 3
    then have "line_ends 0 input \<longleftrightarrow> takeWhile (\<lambda>c. c \<noteq> newline) input = [] \<or> line_ends 0 rest"
      using line_ends_cases [of input] by (simp only: list.case)
    then show ?thesis using 3 by (simp add: st getline_cases(3))
  qed (simp add: st getline_cases)
qed

lemma level_loop_Some:
  assumes "level_loop st prev = Some (r :: 'a MetricPoint list)"
  shows "will_end st"
proof (rule level_loop.raw_induct [where P = "\<lambda>st prev r. will_end st", rotated])
  fix f :: "string \<times> bool \<times> string \<Rightarrow> u64 \<times> u64 \<Rightarrow> 'a MetricPoint list option"
    and st prev and r :: "'a MetricPoint list"
  assume ih: "\<And>st prev r. f st prev = Some r \<Longrightarrow> will_end st"
    and body: "(let st = getline st; line = snd (snd st)
      in if line = [] then Some (level_point (fst prev) (snd prev))
         else (let (pts, prev) = level_line prev line
               in Option.bind (f st prev) (\<lambda>ents. Some (pts @ ents)))) = Some r"
  let ?line = "snd (snd (getline st))"
  show "will_end st"
  proof (cases "?line = []")
    case False
    with body have "(case level_line prev ?line of (pts, prev) \<Rightarrow>
        Option.bind (f (getline st) prev) (\<lambda>ents. Some (pts @ ents))) = Some r"
      unfolding Let_def by (simp only: if_False)
    then obtain prev' ents where "f (getline st) prev' = Some ents"
      unfolding case_prod_unfold bind_eq_Some_conv by blast
    then have "will_end (getline st)" by (rule ih)
    then show ?thesis unfolding will_end_getline [of st] by blast
  next
    case True
    then show ?thesis unfolding will_end_getline [of st] by blast
  qed
qed (fact assms)

lemma level_loop_returns:
  "line_ends 0 input \<Longrightarrow> \<exists>r. level_loop (input, True, line) prev = Some r"
proof (induction "length input" arbitrary: input line prev rule: less_induct)
  case less
  show ?case
  proof (cases "dropWhile (\<lambda>c. c \<noteq> newline) input")
    case Nil
    then have "input = []" using less.prems line_ends_cases [of input] by (simp only: list.case)
    then show ?thesis by (subst level_loop.simps) (simp add: getline_def)
  next
    case (Cons c rest)
    then have len: "length rest < length input"
      using length_dropWhile_le [of "\<lambda>c. c \<noteq> newline" input] by simp
    let ?t = "takeWhile (\<lambda>c. c \<noteq> newline) input"
    have "?t = [] \<or> line_ends 0 rest"
      using less.prems line_ends_cases [of input] Cons by (simp only: list.case)
    moreover obtain pts prev' where "level_line prev ?t = (pts :: 'a MetricPoint list, prev')"
      by (rule prod.exhaust)
    moreover have "\<exists>r :: 'a MetricPoint list. level_loop (rest, True, ?t) prev' = Some r"
      if "line_ends 0 rest" using less.hyps [OF len that] .
    ultimately show ?thesis
      by (subst level_loop.simps) (auto simp: getline_cases(3) [OF Cons] Let_def)
  qed
qed

section \<open>Properties\<close>

text \<open>C33: the reader of the level sizes returns exactly when an empty line follows the lines of
the text, be it the one after a final line end; otherwise the last line is processed for ever, as
\<open>getline\<close> at the end of the input leaves it in place.\<close>

theorem database_reader_returns:
  "(\<exists>points. database_reader L = Some points) \<longleftrightarrow> line_ends 0 (ldb_property L ''leveldb.sstables'')"
  using level_loop_Some [of "(ldb_property L ''leveldb.sstables'', True, [])"] level_loop_returns
  by (fastforce simp: database_reader_def will_end_def)

end
