(* ===== verification/App_Http.thy ===== *)
theory App_Http
  imports Peer_Files Telemetry_Def
begin

text \<open>
  The pages of the relay: the handlers \<open>App::init_handlers\<close> of \<^verbatim>\<open>src/src/nostr_server/app.cpp\<close>
  registers with the web server, and the functions they call.

  The web server is not part of the repository: \<open>http_request\<close> is what the handlers ask of a
  request and \<open>http_response\<close> what they set, with the body once it is sent (\<open>None\<close> before). The
  decoders, the query parser and the aggregation of index rows are the record \<open>http_ops\<close>. A
  handler that returns false leaves the request to the next one (\<open>Declined\<close>); \<open>Failed\<close> is an
  exception that leaves the handler. Starting the threads and the signal handling of
  \<^verbatim>\<open>main.cpp\<close> are not modelled.

  The properties: a file a client stored is served under the link the relay made for it, and an
  identity is answered with the author who published it.
\<close>

section \<open>Requests and responses\<close>

record ServerDescription =
  sd_name :: string
  sd_desc :: string
  sd_pubkey :: string
  sd_contact :: string

record OpenMetricConf =
  om_enable :: bool
  om_auth :: string

datatype response_header = Hdr_access_control_allow_origin | Hdr_content_type | Hdr_etag

datatype ContentType = ct_text_plain_utf8 | ct_json

record http_request =
  rq_upgrade_websocket :: bool    \<comment> \<open>\<open>req[hdr_upgrade] == val_websocket\<close>\<close>
  rq_accept :: string             \<comment> \<open>values of headers, empty when absent\<close>
  rq_authorization :: string
  rq_has_etag :: bool             \<comment> \<open>\<open>req[hdr_etag].has_value()\<close>\<close>
  rq_host :: string               \<comment> \<open>\<open>get_host\<close>\<close>
  rq_url :: string                \<comment> \<open>\<open>get_url\<close>\<close>

record http_response =
  rs_status :: "nat option"
  rs_headers :: "(response_header \<times> string) list"
  rs_content_type :: "ContentType option"
  rs_caching :: "nat option"
  rs_body :: "string option"

datatype http_result =
    Done http_response
  | Declined http_response
  | StaticPage http_response string
  | ClientMain http_response
  | Failed

definition new_response :: http_response where
  "new_response =
     \<lparr>rs_status = None, rs_headers = [], rs_content_type = None, rs_caching = None, rs_body = None\<rparr>"

definition add_header :: "response_header \<Rightarrow> string \<Rightarrow> http_response \<Rightarrow> http_response" where
  "add_header h v r = r\<lparr>rs_headers := rs_headers r @ [(h, v)]\<rparr>"

definition set_status :: "nat \<Rightarrow> http_response \<Rightarrow> http_response" where
  "set_status n r = r\<lparr>rs_status := Some n\<rparr>"

definition set_content_type :: "ContentType \<Rightarrow> http_response \<Rightarrow> http_response" where
  "set_content_type c r = r\<lparr>rs_content_type := Some c\<rparr>"

definition send_body :: "string \<Rightarrow> http_response \<Rightarrow> http_result" where
  "send_body s r = Done (r\<lparr>rs_body := Some s\<rparr>)"

text \<open>An aggregation by key takes the function of the aggregator, with the state it captures.\<close>

type_synonym aggregator = "u32 \<Rightarrow> u8 \<Rightarrow> u32 \<times> u8"

record 'd http_ops =
  ho_base64url_decode :: "string \<Rightarrow> bytes"
  ho_url_decode :: "string \<Rightarrow> string"
  ho_query_name :: "string \<Rightarrow> string"          \<comment> \<open>the field \<open>name\<close> of a query\<close>
  ho_routing_all :: "'d \<Rightarrow> routing_row list"
  ho_routing_select :: "'d \<Rightarrow> string \<Rightarrow> routing_row list"
  ho_by_relay :: "aggregator \<Rightarrow> u32 \<Rightarrow> routing_row list \<Rightarrow> (string \<times> u8) list"
  ho_by_user :: "aggregator \<Rightarrow> u32 \<Rightarrow> routing_row list \<Rightarrow> ((string \<times> bytes) \<times> u8) list"

section \<open>What the relay tells about itself\<close>

definition supported_nips :: "int list" where
  "supported_nips = [1, 5, 9, 11, 12, 16, 20, 24, 33, 42, 45, 50, 97]"

definition software_url :: string where
  "software_url = ''git+https://github.com/ondra-novak/nostr_server.git''"

text \<open>\<open>version\<close> is a constant of the build.\<close>

definition get_server_capabilities ::
    "'j json_ops \<Rightarrow> server_options \<Rightarrow> ServerDescription \<Rightarrow> string \<Rightarrow> 'j" where
  "get_server_capabilities J options desc version =
     (let limitation = mk_object J [];
          limitation = (if opt_pow options \<noteq> 0
            then j_set J limitation ''min_pow_difficulty'' (mk_int J (opt_pow options)) else limitation);
          limitation = j_set J limitation ''min_prefix'' (mk_int J 32);
          limitation = j_set J limitation ''max_message_length'' (mk_int J (sint (max_message_size options)));
          limitation = j_set J limitation ''max_file_size'' (mk_int J (sint (attachment_max_size options)))
      in mk_object J
           [(''name'', mk_string J (sd_name desc)),
            (''description'', mk_string J (sd_desc desc)),
            (''contact'', mk_string J (sd_contact desc)),
            (''pubkey'', mk_string J (sd_pubkey desc)),
            (''supported_nips'', mk_array J (map (mk_int J) supported_nips)),
            (''software'', mk_string J software_url),
            (''version'', mk_string J version),
            (''limitation'', limitation)])"

definition send_infodoc ::
    "('j, 'd, 'r, 'k, 'p) env \<Rightarrow> ServerDescription \<Rightarrow> string \<Rightarrow> http_response \<Rightarrow> http_result" where
  "send_infodoc E desc version r =
     send_body (j_to_json (e_json E) (get_server_capabilities (e_json E) (e_options E) desc version))
       (add_header Hdr_content_type ''application/nostr+json'' r)"

text \<open>\<open>stored\<close> and \<open>db_size\<close> are the numbers of the storage and of the database, \<open>memory\<close> the text of its
property.\<close>

definition send_simple_stats ::
    "'j json_ops \<Rightarrow> u64 \<Rightarrow> u64 \<Rightarrow> string \<Rightarrow> 'd app \<Rightarrow> http_response \<Rightarrow> http_result" where
  "send_simple_stats J stored db_size memory a r =
     (let ev = mk_object J
           [(''active_connections'', mk_int J (app_clients a)),
            (''stored_events'', mk_int J (sint stored)),
            (''database_size'', mk_int J (sint db_size)),
            (''memory_usage'', mk_int J (sint (fst (strtoul memory))))]
      in send_body (j_to_json J ev) (add_header Hdr_content_type ''application/json'' r))"

section \<open>Known relays\<close>

text \<open>\<open>aggrDepth\<close>: the least depth seen, from 255 on.\<close>

definition aggrDepth :: aggregator where
  "aggrDepth dist d =
     (let dist = (if ucast d < dist then ucast d else dist) in (dist, ucast dist))"

definition get_known_relays :: "'d http_ops \<Rightarrow> 'd app \<Rightarrow> (string \<times> u8) list" where
  "get_known_relays H a = ho_by_relay H aggrDepth 255 (ho_routing_all H (app_db a))"

definition get_users_on_relay :: "'d http_ops \<Rightarrow> 'd app \<Rightarrow> string \<Rightarrow> (bytes \<times> u8) list" where
  "get_users_on_relay H a relay =
     map (\<lambda>((_, user), d). (user, d))
       (ho_by_user H aggrDepth 255 (ho_routing_select H (app_db a) relay))"

definition routing_line :: "u8 \<Rightarrow> string \<Rightarrow> string" where
  "routing_line d s = nat_text (unat d) @ CHR 0x09 # s @ [CHR 0x0A]"

definition routing_handler :: "'d http_ops \<Rightarrow> 'd app \<Rightarrow> string \<Rightarrow> http_response \<Rightarrow> http_result" where
  "routing_handler H a vpath r =
     (let page =
        (case vpath of
           [] \<Rightarrow> concat (map (\<lambda>(relay, d). routing_line d relay) (get_known_relays H a))
         | c # path \<Rightarrow>
             if c = CHR ''/'' then
               concat (map (\<lambda>(user, d). routing_line d (to_hex user))
                        (get_users_on_relay H a (ho_url_decode H path)))
             else [])
      in send_body page (set_content_type ct_text_plain_utf8 r))"

section \<open>Identities\<close>

text \<open>The address of the relay: the page's own with \<open>http\<close> replaced and the path cut off.\<close>

definition relay_of_url :: "string \<Rightarrow> string option" where
  "relay_of_url base_url =
     (if length base_url < 4 then None
      else Some (''ws'' @
        (case find_sub ''/.well-known'' base_url of
           Some i \<Rightarrow> if i \<ge> 4 then take (i - 4) (drop 4 base_url) else drop 4 base_url
         | None \<Rightarrow> drop 4 base_url)))"

definition nip05_page :: "'j json_ops \<Rightarrow> 'j \<Rightarrow> 'j \<Rightarrow> http_response \<Rightarrow> http_result" where
  "nip05_page J names relays r =
     send_body (j_to_json J (mk_object J [(''names'', names), (''relays'', relays)]))
       (add_header Hdr_access_control_allow_origin ''*'' (set_content_type ct_json r))"

definition process_nip05_request ::
    "('j, 'd, 'r, 'k, 'p) env \<Rightarrow> 'd http_ops \<Rightarrow> 'd app \<Rightarrow> http_request \<Rightarrow> string \<Rightarrow> http_response
       \<Rightarrow> http_result" where
  "process_nip05_request E H a req vpath r =
     (let J = e_json E; D = e_db E;
          r = set_content_type ct_json r;
          none = nip05_page J (mk_object J []) (mk_object J []) r;
          name = ho_query_name H vpath
      in if name = [] \<or> name = ''_'' then Declined r
         else
           (case nip05_find D (app_db a) (name @ ''@'' @ rq_host req) of
              None \<Rightarrow> none
            | Some n \<Rightarrow>
                (case storage_find D (app_db a) n of
                   Some (AnEvent ev) \<Rightarrow>
                     (case relay_of_url (rq_url req) of
                        None \<Rightarrow> Failed
                      | Some my_relay \<Rightarrow>
                          nip05_page J
                            (j_set J (mk_object J []) name (mk_string J (to_hex (ev_author ev))))
                            (j_set J (mk_object J []) (to_hex (ev_author ev))
                              (mk_array J [mk_string J my_relay])) r)
                 | _ \<Rightarrow> none)))"

section \<open>Files\<close>

text \<open>The identifier keeps what it held where the decoded path is too short; \<open>u\<close> is what it held.\<close>

definition decoded_id :: "(nat \<Rightarrow> u8) \<Rightarrow> bytes \<Rightarrow> bytes" where
  "decoded_id u bs = take 32 bs @ map u [length bs..<32]"

definition file_handler ::
    "('j, 'd, 'r, 'k, 'p) env \<Rightarrow> 'd http_ops \<Rightarrow> (nat \<Rightarrow> nat \<Rightarrow> u8) \<Rightarrow> 'd app \<Rightarrow> http_request \<Rightarrow> string
       \<Rightarrow> http_response \<Rightarrow> http_result" where
  "file_handler E H u a req vpath r =
     (let D = e_db E in
      if rq_has_etag req then send_body [] (set_status 304 r)
      else
        (let i = decoded_id (u 0) (ho_base64url_decode H vpath);
             docid = find_event_by_id D a i
         in if docid \<noteq> 0 then
              (case storage_find D (app_db a) docid of
                 Some (AnEvent evv) \<Rightarrow>
                   (let mime = get_tag_content evv ''m'';
                        attid = find_attachment D a (get_attachment_id (u 1) evv)
                    in if attid \<noteq> 0 then
                         (case storage_find D (app_db a) attid of
                            Some (AnAttachment att) \<Rightarrow>
                              send_body (att_data att)
                                ((add_header Hdr_etag vpath (add_header Hdr_content_type mime r))
                                   \<lparr>rs_caching := Some (24 * 60 * 60 * 365)\<rparr>)
                          | _ \<Rightarrow> Declined r)
                       else Declined r)
               | _ \<Rightarrow> Declined r)
            else Declined r))"

section \<open>The handlers\<close>

definition root_handler ::
    "('j, 'd, 'r, 'k, 'p) env \<Rightarrow> ServerDescription \<Rightarrow> string \<Rightarrow> http_request \<Rightarrow> string \<Rightarrow> http_response
       \<Rightarrow> http_result" where
  "root_handler E desc version req vpath r =
     (let r = add_header Hdr_access_control_allow_origin ''*'' r
      in if vpath = [] \<and> rq_upgrade_websocket req then ClientMain r
         else if rq_accept req = ''application/nostr+json'' then send_infodoc E desc version r
         else StaticPage r vpath)"

definition metrics_handler ::
    "OpenMetricConf \<Rightarrow> 'f float_ops \<Rightarrow> int \<Rightarrow> http_request \<Rightarrow> http_response \<Rightarrow> ('x, 'f) telemetry
       \<Rightarrow> http_result \<times> ('x, 'f) telemetry" where
  "metrics_handler conf F tm req r T =
     (if om_auth conf \<noteq> [] \<and> find_sub (om_auth conf) (rq_authorization req) = None
      then (Done (set_status 401 r), T)
      else
        (case collect_lk F tm T of
           (Inl e, T) \<Rightarrow> (Failed, T)
         | (Inr s, T) \<Rightarrow>
             (send_body (s @ ''# EOF'' @ [CHR 0x0A])
                (add_header Hdr_content_type
                   ''application/openmetrics-text; version=1.0.0; charset=utf-8'' r), T)))"

text \<open>What the pages need that is fixed while the server runs.\<close>

record ('j, 'd, 'r, 'k, 'p, 'f) server =
  sv_env :: "('j, 'd, 'r, 'k, 'p) env"
  sv_http :: "'d http_ops"
  sv_desc :: ServerDescription
  sv_metrics :: OpenMetricConf
  sv_version :: string
  sv_floats :: "'f float_ops"

text \<open>What one request takes from its surroundings.\<close>

record request_moment =
  rm_now :: int
  rm_mem :: "nat \<Rightarrow> nat \<Rightarrow> u8"
  rm_stored :: u64                 \<comment> \<open>\<open>_storage.get_rev()\<close>\<close>
  rm_size :: u64                   \<comment> \<open>\<open>get_index_size\<close> of the whole database\<close>
  rm_memory :: string              \<comment> \<open>\<open>leveldb.approximate-memory-usage\<close>\<close>

type_synonym ('d, 'x, 'f) handler =
  "request_moment \<Rightarrow> http_request \<Rightarrow> string \<Rightarrow> 'd app \<times> ('x, 'f) telemetry
     \<Rightarrow> http_result \<times> ('x, 'f) telemetry"

definition init_handlers ::
    "('j, 'd, 'r, 'k, 'p, 'f) server \<Rightarrow> (string \<times> ('d, 'x, 'f) handler) list" where
  "init_handlers V =
     (let E = sv_env V; H = sv_http V; desc = sv_desc V; version = sv_version V in
      [(''/'', \<lambda>M req vpath (a, T). (root_handler E desc version req vpath new_response, T))] @
      (if om_enable (sv_metrics V)
       then [(''/metrics'', \<lambda>M req vpath (a, T).
               metrics_handler (sv_metrics V) (sv_floats V) (rm_now M) req new_response T)]
       else []) @
      [(''/info'', \<lambda>M req vpath (a, T). (send_infodoc E desc version new_response, T)),
       (''/stats'', \<lambda>M req vpath (a, T).
          (send_simple_stats (e_json E) (rm_stored M) (rm_size M) (rm_memory M) a new_response, T)),
       (''/file/'', \<lambda>M req vpath (a, T). (file_handler E H (rm_mem M) a req vpath new_response, T)),
       (''/routing'', \<lambda>M req vpath (a, T). (routing_handler H a vpath new_response, T)),
       (''/.well-known/nostr.json'', \<lambda>M req vpath (a, T).
          (process_nip05_request E H a req vpath new_response, T))])"

text \<open>The application object when the database is open.\<close>

definition new_app :: "'d db_ops \<Rightarrow> 'd \<Rightarrow> 'd app" where
  "new_app D d =
     \<lparr>app_db = d, app_published = [], app_gc_running = False, app_empty_database = whitelist_empty D d,
      app_clients = 0, app_this_relay_url = []\<rparr>"

section \<open>What the pages promise\<close>

text \<open>A request without the configured text in its authorization header changes and learns nothing.\<close>

lemma metrics_guarded:
  "om_auth conf \<noteq> [] \<Longrightarrow> find_sub (om_auth conf) (rq_authorization req) = None \<Longrightarrow>
   metrics_handler conf F tm req new_response T
     = (Done \<lparr>rs_status = Some 401, rs_headers = [], rs_content_type = None, rs_caching = None,
         rs_body = None\<rparr>, T)"
  by (simp add: metrics_handler_def set_status_def new_response_def)

lemma decoded_id_exact: "length i = 32 \<Longrightarrow> take 32 bs = i \<Longrightarrow> decoded_id u bs = i"
  by (auto simp: decoded_id_def)

text \<open>What the code relies on: the decoder of a link reads the 32 bytes before an extension.\<close>

definition link_laws :: "(bytes \<Rightarrow> string) \<Rightarrow> (string \<Rightarrow> bytes) \<Rightarrow> bool" where
  "link_laws enc dec \<longleftrightarrow>
     (\<forall>i ext. length i = 32 \<longrightarrow> take 32 (dec (enc i)) = i \<and> take 32 (dec (enc i @ CHR ''.'' # ext)) = i)"

lemma link_decoded:
  assumes "link_laws (e_base64url E) dec" "length i = 32"
    "''file/'' @ vpath = get_attachment_link E i mime"
  shows "decoded_id u (dec vpath) = i"
proof -
  have "vpath = e_base64url E i \<or> (\<exists>ext. vpath = e_base64url E i @ CHR ''.'' # ext)"
    using assms(3) by (auto simp: get_attachment_link_def Let_def split: option.splits if_splits)
  then have "take 32 (dec vpath) = i" using assms(1,2) unfolding link_laws_def by blast
  then show ?thesis by (rule decoded_id_exact [OF assms(2)])
qed

text \<open>C25: the data of a file that was stored through a binary message is what RETRIEVE sends for the
event's identifier, to any client, in a binary frame after an OK message; and it is what the page
of its link answers, with the type the event names, to every request that is not taken for a
cached one.\<close>

theorem file_round_trip:
  assumes laws: "db_laws (e_db E) ok" "ok (app_db a)"
    and ev: "p_file_event p = Some ev" "length (ev_id ev) = 32" "length (e_sha E data) = 32"
      "get_tag_content ev ''x'' = to_hex (e_sha E data)"
    and run: "processBinaryMessage E W data (p, a) = (e, (p', a'))"
      "find_attachment (e_db E) a (e_sha E data) = 0" "app_db a' \<noteq> app_db a"
    and msg: "j_text (e_json E) (j_item (e_json E) msg 1) = to_hex (ev_id ev)"
    and link: "link_laws (e_base64url E) (ho_base64url_decode H)"
      "''file/'' @ vpath = get_attachment_link E (ev_id ev) (get_tag_content ev ''m'')"
    and req: "\<not> rq_has_etag req"
  shows "on_retrieve E W' msg (q, a') =
      (q\<lparr>p_out := p_out q @ [OkReply (to_hex (ev_id ev)) True [], BinaryReply data]\<rparr>, a') \<and>
    file_handler E H u a' req vpath new_response =
      Done \<lparr>rs_status = None,
        rs_headers = [(Hdr_content_type, get_tag_content ev ''m''), (Hdr_etag, vpath)],
        rs_content_type = None, rs_caching = Some 31536000, rs_body = Some data\<rparr>"
proof
  show "on_retrieve E W' msg (q, a') =
      (q\<lparr>p_out := p_out q @ [OkReply (to_hex (ev_id ev)) True [], BinaryReply data]\<rparr>, a')"
    by (rule stored_file [OF laws ev(1,3,4) run])
      (use msg ev(2-4) in \<open>simp add: on_retrieve_def Let_def get_tag_content_def get_tag_def\<close>)
  show "file_handler E H u a' req vpath new_response =
      Done \<lparr>rs_status = None,
        rs_headers = [(Hdr_content_type, get_tag_content ev ''m''), (Hdr_etag, vpath)],
        rs_content_type = None, rs_caching = Some 31536000, rs_body = Some data\<rparr>"
    by (rule stored_file [OF laws ev(1,3,4) run])
      (use ev(3,4) req link_decoded [OF link(1) ev(2) link(2)] in
        \<open>simp add: file_handler_def Let_def get_attachment_id_def get_tag_content_def get_tag_def
          send_body_def add_header_def new_response_def\<close>)
qed

text \<open>The unique index of identities holds the rows \<open>index_nip05\<close> gives.\<close>

definition nip05_law ::
    "('j, 'd, 'r, 'k, 'p) env \<Rightarrow> ('d \<Rightarrow> bool) \<Rightarrow> bool" where
  "nip05_law E ok \<longleftrightarrow>
     (\<forall>d i n. ok d \<longrightarrow> (nip05_find (e_db E) d i = Some n \<longleftrightarrow>
        (\<exists>doc. storage_find (e_db E) d n = Some doc \<and> i \<in> set (index_nip05 (e_json E) (e_from_json E) doc))))"

definition claims_identity :: "('j, 'd, 'r, 'k, 'p) env \<Rightarrow> 'd app \<Rightarrow> string \<Rightarrow> Event \<Rightarrow> bool" where
  "claims_identity E a ident ev \<longleftrightarrow>
     ev \<in> stored_events (e_db E) (app_db a) \<and>
     ident \<in> set (index_nip05 (e_json E) (e_from_json E) (AnEvent ev))"

lemma nip05_row:
  "i \<in> set (index_nip05 J from_json doc) \<longleftrightarrow>
     (\<exists>ev. doc = AnEvent ev \<and> i \<in> set (index_nip05 J from_json (AnEvent ev)))"
proof (cases doc)
  case (AnAttachment att)
  show ?thesis
    by (simp only: AnAttachment index_nip05_def EventOrAttachment.case list.set empty_iff
        EventOrAttachment.distinct) blast
qed blast

text \<open>C35: a request for an identity is answered with the key of the one author whose stored
metadata claims the name at this host, and with the relay's own address; with no key when there
is no such event.\<close>

theorem nip05_names_claimant:
  assumes laws: "nip05_law E ok" "ok (app_db a)" "json_laws (e_json E)"
    and req: "ho_query_name H vpath = name" "name \<noteq> []" "name \<noteq> ''_''"
    and url: "rq_url req = ''http'' @ host_url @ rest"
      "find_sub ''/.well-known'' (rq_url req) = Some (4 + length host_url)"
  shows "if \<exists>ev. claims_identity E a (name @ ''@'' @ rq_host req) ev
    then \<exists>ev names relays. (\<forall>ev'. claims_identity E a (name @ ''@'' @ rq_host req) ev' \<longleftrightarrow> ev' = ev) \<and>
      process_nip05_request E H a req vpath r =
        nip05_page (e_json E) names relays (set_content_type ct_json r) \<and>
      j_string (e_json E) (j_field (e_json E) names name) = to_hex (ev_author ev) \<and>
      map (j_string (e_json E)) (j_array (e_json E) (j_field (e_json E) relays (to_hex (ev_author ev))))
        = [''ws'' @ host_url]
    else process_nip05_request E H a req vpath r =
      nip05_page (e_json E) (mk_object (e_json E) []) (mk_object (e_json E) []) (set_content_type ct_json r)"
proof -
  let ?D = "e_db E" and ?J = "e_json E" and ?ident = "name @ ''@'' @ rq_host req"
  have find: "nip05_find ?D (app_db a) ?ident = Some n \<longleftrightarrow>
      (\<exists>ev. storage_find ?D (app_db a) n = Some (AnEvent ev) \<and> claims_identity E a ?ident ev)" for n
  proof -
    have "nip05_find ?D (app_db a) ?ident = Some n \<longleftrightarrow>
        (\<exists>doc. storage_find ?D (app_db a) n = Some doc \<and> ?ident \<in> set (index_nip05 ?J (e_from_json E) doc))"
      using laws(1,2) unfolding nip05_law_def by blast
    also have "\<dots> \<longleftrightarrow> (\<exists>ev. storage_find ?D (app_db a) n = Some (AnEvent ev) \<and>
        ?ident \<in> set (index_nip05 ?J (e_from_json E) (AnEvent ev)))"
      using nip05_row by metis
    finally show ?thesis unfolding claims_identity_def stored_events_def by blast
  qed
  show ?thesis
  proof (cases "nip05_find ?D (app_db a) ?ident")
    case None
    then have "\<not> (\<exists>ev. claims_identity E a ?ident ev)"
      using find by (auto simp: claims_identity_def stored_events_def)
    then show ?thesis using None req by (simp add: process_nip05_request_def Let_def)
  next
    case (Some n)
    then obtain ev where ev: "storage_find ?D (app_db a) n = Some (AnEvent ev)" "claims_identity E a ?ident ev"
      using find by blast
    have "ev' = ev" if c: "claims_identity E a ?ident ev'" for ev'
    proof -
      obtain m where m: "storage_find ?D (app_db a) m = Some (AnEvent ev')"
        using c by (auto simp: claims_identity_def stored_events_def)
      then have "nip05_find ?D (app_db a) ?ident = Some m" using find c by blast
      then show ?thesis using Some m ev(1) by simp
    qed
    then have only: "\<forall>ev'. claims_identity E a ?ident ev' \<longleftrightarrow> ev' = ev" using ev(2) by blast
    let ?names = "j_set ?J (mk_object ?J []) name (mk_string ?J (to_hex (ev_author ev)))"
    let ?relays = "j_set ?J (mk_object ?J []) (to_hex (ev_author ev)) (mk_array ?J [mk_string ?J (''ws'' @ host_url)])"
    have "relay_of_url (rq_url req) = Some (''ws'' @ host_url)"
      unfolding relay_of_url_def url(2) by (simp add: url(1))
    then have "process_nip05_request E H a req vpath r
        = nip05_page ?J ?names ?relays (set_content_type ct_json r)"
      using Some ev(1) req by (simp add: process_nip05_request_def Let_def)
    moreover have "j_string ?J (j_field ?J ?names name) = to_hex (ev_author ev)"
      "map (j_string ?J) (j_array ?J (j_field ?J ?relays (to_hex (ev_author ev)))) = [''ws'' @ host_url]"
      by (simp_all add: json_laws_simps [OF laws(3)])
    ultimately have answer: "\<exists>ev names relays. (\<forall>ev'. claims_identity E a ?ident ev' \<longleftrightarrow> ev' = ev) \<and>
        process_nip05_request E H a req vpath r = nip05_page ?J names relays (set_content_type ct_json r) \<and>
        j_string ?J (j_field ?J names name) = to_hex (ev_author ev) \<and>
        map (j_string ?J) (j_array ?J (j_field ?J relays (to_hex (ev_author ev)))) = [''ws'' @ host_url]"
      using only
      by (intro exI [of _ ev] exI [of _ ?names] exI [of _ ?relays] conjI)
    have claimed: "\<exists>ev. claims_identity E a ?ident ev" using ev(2) by blast
    show ?thesis unfolding if_P [OF claimed] by (rule answer)
  qed
qed

text \<open>C36: an identity stays with the author who claimed it: whatever another author publishes, the
event that claims it stays stored and stays the only one.\<close>

theorem identity_kept:
  assumes laws: "db_laws (e_db E) ok" "nip05_law E ok" "ok (app_db a)"
    and old: "claims_identity E a ident old"
    and run: "publish (e_db E) ev who a = Inr a'" "ev_author ev \<noteq> ev_author old"
  shows "claims_identity E a' ident ev' \<longleftrightarrow> ev' = old"
proof -
  let ?D = "e_db E"
  note pub = publish_spec [OF laws(1,3) run(1)]
  have "\<not> same_key old ev"
    using run(2) replaceable_key_author unfolding same_key_def by (metis option.exhaust prod_cases3)
  then have "old \<in> stored_events ?D (app_db a')"
    using old unfolding pub(2) spec_store_def claims_identity_def by simp
  then obtain m where m: "storage_find ?D (app_db a') m = Some (AnEvent old)"
    unfolding stored_events_def by blast
  have claim: "claims_identity E a' ident old"
    using m old unfolding claims_identity_def stored_events_def by blast
  have "ev' = old" if c: "claims_identity E a' ident ev'"
  proof -
    obtain n where n: "storage_find ?D (app_db a') n = Some (AnEvent ev')"
      using c unfolding claims_identity_def stored_events_def by blast
    then have "nip05_find ?D (app_db a') ident = Some n" "nip05_find ?D (app_db a') ident = Some m"
      using m c claim laws(2) pub(1) unfolding nip05_law_def claims_identity_def by blast+
    then show ?thesis using n m by simp
  qed
  then show ?thesis using claim by blast
qed

section \<open>Examples\<close>

definition sample_http :: "mem_db http_ops" where
  "sample_http =
     \<lparr>ho_base64url_decode = (\<lambda>s. from_hex 32 (\<lambda>_. 0) (take 64 s)), ho_url_decode = (\<lambda>s. s),
      ho_query_name = (\<lambda>s. s), ho_routing_all = (\<lambda>_. []), ho_routing_select = (\<lambda>_ _. []),
      ho_by_relay = (\<lambda>_ _ _. []), ho_by_user = (\<lambda>_ _ _. [])\<rparr>"

definition sample_request :: http_request where
  "sample_request =
     \<lparr>rq_upgrade_websocket = False, rq_accept = [], rq_authorization = [], rq_has_etag = False,
      rq_host = ''relay'', rq_url = ''https://relay/.well-known/nostr.json?name=bob''\<rparr>"

definition link_env :: "(json, mem_db, mem_rs, unit, unit) env" where
  "link_env = sample_env\<lparr>e_base64url := to_hex, e_extension := (\<lambda>_. Some ''txt'')\<rparr>"

lemma sample_link_laws: "link_laws (e_base64url link_env) (ho_base64url_decode sample_http)"
  by (simp add: link_laws_def link_env_def sample_http_def from_hex_take length_to_hex)

lemma link_env_binary: "processBinaryMessage link_env W data c = processBinaryMessage sample_env W data c"
proof -
  have "e_db link_env = e_db sample_env" "e_sha link_env = e_sha sample_env"
    by (simp_all add: link_env_def)
  then show ?thesis by (simp only: processBinaryMessage_def)
qed

lemma file_round_trip_witness:
  "\<exists>a'. app_db a' = app_db (snd (snd (processBinaryMessage link_env sample_moment ''ab''
          (sample_peer\<lparr>p_file_event := Some file_event\<rparr>, empty_app)))) \<and>
     on_retrieve link_env sample_moment (JArray [JString ''RETRIEVE'', JString (to_hex (replicate 32 7))])
       (sample_peer, a') =
     (sample_peer\<lparr>p_out := [OkReply (to_hex (replicate 32 7)) True [], BinaryReply ''ab'']\<rparr>, a') \<and>
     file_handler link_env sample_http (\<lambda>_ _. 0) a' sample_request (to_hex (replicate 32 7) @ ''.txt'') new_response =
     Done \<lparr>rs_status = None,
       rs_headers = [(Hdr_content_type, ''text/plain''), (Hdr_etag, to_hex (replicate 32 7) @ ''.txt'')],
       rs_content_type = None, rs_caching = Some 31536000, rs_body = Some ''ab''\<rparr>"
proof -
  let ?p = "sample_peer\<lparr>p_file_event := Some file_event\<rparr>"
  let ?msg = "JArray [JString ''RETRIEVE'', JString (to_hex (replicate 32 7))]"
  let ?path = "to_hex (replicate 32 7) @ ''.txt''"
  have mime: "get_tag_content file_event ''m'' = ''text/plain''"
    by (simp add: file_event_def get_tag_content_def get_tag_def)
  obtain e p' a' where run: "processBinaryMessage link_env sample_moment ''ab'' (?p, empty_app) = (e, (p', a'))"
    by (metis prod.exhaust)
  have "on_retrieve link_env sample_moment ?msg (sample_peer, a') =
      (sample_peer\<lparr>p_out := p_out sample_peer @ [OkReply (to_hex (ev_id file_event)) True [], BinaryReply ''ab'']\<rparr>, a') \<and>
    file_handler link_env sample_http (\<lambda>_ _. 0) a' sample_request ?path new_response =
      Done \<lparr>rs_status = None,
        rs_headers = [(Hdr_content_type, get_tag_content file_event ''m''), (Hdr_etag, ?path)],
        rs_content_type = None, rs_caching = Some 31536000, rs_body = Some ''ab''\<rparr>"
  proof (rule file_round_trip [OF _ _ _ _ _ _ run _ _ _ sample_link_laws])
    show "db_laws (e_db link_env) mem_ok" by (simp add: link_env_def mem_laws)
    show "mem_ok (app_db empty_app)" by (simp add: empty_app_def empty_db_ok)
    show "app_db a' \<noteq> app_db empty_app"
      using file_sample run by (auto simp: link_env_binary empty_app_def empty_db_def)
    show "find_attachment (e_db link_env) empty_app (e_sha link_env ''ab'') = 0"
      by (simp add: link_env_def find_attachment_def mem_ops_def empty_app_def empty_db_def index_rows_def)
    show "j_text (e_json link_env) (j_item (e_json link_env) ?msg 1) = to_hex (ev_id file_event)"
      by (simp add: link_env_def json_ref_def)
    show "''file/'' @ ?path = get_attachment_link link_env (ev_id file_event) (get_tag_content file_event ''m'')"
      by (simp add: get_attachment_link_def link_env_def)
  qed (simp_all add: link_env_def sample_request_def)
  then show ?thesis using run mime by (intro exI [of _ a']) simp
qed

text \<open>A database with the unique index of identities.\<close>

definition profile_json :: "string \<Rightarrow> json option" where
  "profile_json = map_of [(''profile'', JObject [(''nip05'', JString ''bob@relay'')])]"

definition identity_rows :: "mem_db \<Rightarrow> (string \<times> docid \<times> unit) list" where
  "identity_rows d =
     index_rows (\<lambda>doc. map (\<lambda>i. (i, ())) (index_nip05 json_ref profile_json doc)) (md_docs d)"

definition identity_ok :: "mem_db \<Rightarrow> bool" where
  "identity_ok d \<longleftrightarrow> mem_ok d \<and> distinct (map fst (identity_rows d))"

definition identity_commit :: "mem_db \<Rightarrow> batch_op list \<Rightarrow> db_error + mem_db" where
  "identity_commit d ops =
     (case mem_commit d ops of
        Inl e \<Rightarrow> Inl e
      | Inr d' \<Rightarrow> if distinct (map fst (identity_rows d')) then Inr d' else Inl DuplicateKey)"

definition identity_ops :: "mem_db db_ops" where
  "identity_ops = mem_ops\<lparr>commit_batch := identity_commit,
     nip05_find := (\<lambda>d i. map_option fst (map_of (identity_rows d) i))\<rparr>"

definition profile_env :: "(json, mem_db, mem_rs, unit, unit) env" where
  "profile_env = sample_env\<lparr>e_from_json := profile_json, e_db := identity_ops\<rparr>"

lemma profile_env_simps:
  "e_json profile_env = json_ref" "e_from_json profile_env = profile_json" "e_db profile_env = identity_ops"
  "storage_find identity_ops = storage_find mem_ops" "storage_find mem_ops = (\<lambda>d n. map_of (md_docs d) n)"
  "nip05_find identity_ops d i = map_option fst (map_of (identity_rows d) i)"
  by (simp_all add: profile_env_def identity_ops_def mem_ops_def)

lemma identity_laws: "db_laws (e_db profile_env) identity_ok"
proof -
  have commit: "identity_ok d' \<and> commit_batch mem_ops d ops = Inr d'"
    if "mem_ok d" "commit_batch identity_ops d ops = Inr d'" for d ops d'
    using that db_lawsD(6) [OF mem_laws]
    by (auto simp: identity_ops_def identity_commit_def identity_ok_def mem_ops_def split: sum.splits if_splits)
  show ?thesis
    unfolding db_laws_def profile_env_simps(3)
  proof (intro conjI allI impI)
    fix d ops d' assume d: "identity_ok d" "commit_batch identity_ops d ops = Inr d'"
    then show "identity_ok d'" using commit unfolding identity_ok_def by blast
    show "\<exists>ns. length ns = puts ops \<and> fresh_numbers ns (storage_find identity_ops d) \<and>
        storage_find identity_ops d' = apply_batch ops ns (storage_find identity_ops d)"
      using commit [of d ops d'] d db_lawsD(6) [OF mem_laws, of d ops d']
      unfolding profile_env_simps(4) identity_ok_def by blast
  qed (simp_all add: identity_ok_def identity_ops_def db_lawsD [OF mem_laws])
qed

lemma identity_law: "nip05_law profile_env identity_ok"
  unfolding nip05_law_def
proof (intro allI impI)
  fix d :: mem_db and i n assume "identity_ok d"
  then have "map_of (identity_rows d) i = Some (n, ()) \<longleftrightarrow>
      (\<exists>doc. map_of (md_docs d) n = Some doc \<and>
         (i, ()) \<in> set (map (\<lambda>i. (i, ())) (index_nip05 json_ref profile_json doc)))"
    unfolding identity_ok_def identity_rows_def mem_ok_def by (intro index_rows_find) auto
  then show "nip05_find (e_db profile_env) d i = Some n \<longleftrightarrow>
      (\<exists>doc. storage_find (e_db profile_env) d n = Some doc \<and>
        i \<in> set (index_nip05 (e_json profile_env) (e_from_json profile_env) doc))"
    by (simp add: profile_env_simps image_iff)
qed

definition profile_event :: Event where
  "profile_event = file_event\<lparr>ev_kind := Metadata, ev_content := ''profile''\<rparr>"

definition profile_app :: "mem_db app" where
  "profile_app = empty_app\<lparr>app_db := empty_db\<lparr>md_docs := [(1, AnEvent profile_event)], md_next := 2\<rparr>\<rparr>"

lemma profile_rows:
  "index_nip05 json_ref profile_json (AnEvent profile_event) = [''bob@relay'']"
  by (simp add: index_nip05_def profile_event_def profile_json_def json_ref_def kind_defs)

lemma profile_app_ok: "identity_ok (app_db profile_app)"
  by (simp add: identity_ok_def identity_rows_def mem_ok_def mem_unique_def profile_app_def empty_app_def
      empty_db_def index_rows_def profile_rows index_by_id_def index_by_author_kind_def attachment_ids_def
      Let_def)

lemma profile_claimed: "claims_identity profile_env profile_app ''bob@relay'' ev \<longleftrightarrow> ev = profile_event"
proof -
  have "stored_events (e_db profile_env) (app_db profile_app) = {profile_event}"
    by (auto simp: stored_events_def profile_env_simps profile_app_def)
  then show ?thesis
    using profile_rows by (auto simp: claims_identity_def profile_env_simps(1,2))
qed

lemma nip05_names_claimant_witness:
  "\<exists>names relays. process_nip05_request profile_env sample_http profile_app sample_request ''bob'' new_response
      = nip05_page json_ref names relays (set_content_type ct_json new_response) \<and>
    j_string json_ref (j_field json_ref names ''bob'') = to_hex (replicate 32 1)"
proof -
  have ident: "''bob'' @ ''@'' @ rq_host sample_request = ''bob@relay''" by (simp add: sample_request_def)
  have "ho_query_name sample_http ''bob'' = ''bob''" by (simp add: sample_http_def)
  moreover have "rq_url sample_request = ''http'' @ ''s://relay'' @ ''/.well-known/nostr.json?name=bob''"
    "find_sub ''/.well-known'' (rq_url sample_request) = Some (4 + length ''s://relay'')"
    by (simp_all add: sample_request_def find_sub.simps)
  ultimately have answer: "\<exists>ev names relays.
      (\<forall>ev'. claims_identity profile_env profile_app ''bob@relay'' ev' \<longleftrightarrow> ev' = ev) \<and>
      process_nip05_request profile_env sample_http profile_app sample_request ''bob'' new_response =
        nip05_page json_ref names relays (set_content_type ct_json new_response) \<and>
      j_string json_ref (j_field json_ref names ''bob'') = to_hex (ev_author ev)"
    using nip05_names_claimant [OF identity_law profile_app_ok, of sample_http "''bob''" "''bob''" sample_request
        "''s://relay''" "''/.well-known/nostr.json?name=bob''" new_response]
    unfolding ident profile_claimed profile_env_simps(1) by (auto simp: json_ref_laws)
  moreover have "ev_author profile_event = replicate 32 1" by (simp add: profile_event_def file_event_def)
  ultimately show ?thesis unfolding profile_claimed by metis
qed

definition other_event :: Event where
  "other_event = sample_event\<lparr>ev_id := replicate 32 9, ev_author := replicate 32 2\<rparr>"

lemma identity_kept_witness:
  "\<exists>a'. publish (e_db profile_env) other_event None profile_app = Inr a' \<and>
     claims_identity profile_env a' ''bob@relay'' profile_event"
proof -
  have other: "index_nip05 json_ref profile_json (AnEvent other_event) = []"
    by (simp add: index_nip05_def other_event_def sample_event_def kind_defs)
  let ?d = "empty_db\<lparr>md_docs := [(2, AnEvent other_event), (1, AnEvent profile_event)], md_next := 3\<rparr>"
  let ?a = "profile_app\<lparr>app_db := ?d, app_published := [(other_event, None)]\<rparr>"
  have "index_by_author_kind (AnEvent other_event) = []" "index_by_id (AnEvent other_event) = [(replicate 32 9, 5)]"
    "index_by_author_kind (AnEvent profile_event) = [((replicate 32 1, Metadata, []), 5)]"
    "index_by_id (AnEvent profile_event) = [(replicate 32 7, 5)]"
    by (simp_all add: index_by_author_kind_def index_by_id_def other_event_def sample_event_def
        profile_event_def file_event_def kind_defs word_le_nat_alt Let_def)
  note rows = this
  have "mem_commit (app_db profile_app) [Put (AnEvent other_event) 0] = Inr ?d"
    by (simp add: mem_commit_def mem_unique_def profile_app_def empty_app_def empty_db_def index_rows_def
        attachment_ids_def rows)
  moreover have "distinct (map fst (identity_rows ?d))"
    by (simp add: identity_rows_def index_rows_def other profile_rows)
  ultimately have commit: "commit_batch identity_ops (app_db profile_app) [Put (AnEvent other_event) 0] = Inr ?d"
    by (simp add: identity_ops_def identity_commit_def)
  have empty_pub: "app_published profile_app = []" by (simp add: profile_app_def empty_app_def)
  have "ev_kind other_event \<noteq> Event_Deletion"
    by (simp add: other_event_def sample_event_def kind_defs)
  then have run: "publish (e_db profile_env) other_event None profile_app = Inr ?a"
    unfolding profile_env_simps(3) publish_def
    by (simp add: doc_to_replace_def rows storage_put_def commit app_publish_event_def Let_def empty_pub)
  moreover have "claims_identity profile_env ?a ''bob@relay'' profile_event"
  proof (subst identity_kept [OF identity_laws identity_law profile_app_ok _ run])
    show "claims_identity profile_env profile_app ''bob@relay'' profile_event"
      by (simp only: profile_claimed)
    show "ev_author other_event \<noteq> ev_author profile_event"
      by (simp add: other_event_def profile_event_def file_event_def)
  qed (rule refl)
  ultimately show ?thesis by blast
qed

end
