(* ===== verification/Signature_Crypt.thy ===== *)
theory Signature_Crypt
  imports Signature Routing
begin

text \<open>
  The encryption of private messages in \<^verbatim>\<open>src/src/nostr_server/signature.cpp\<close>: \<open>shared_secret\<close>,
  \<open>encrypt\<close>, \<open>decrypt\<close> and \<open>random_private_key\<close>. The operations of libsecp256k1, of the cipher of the
  TLS library and of base64 are the record \<open>crypt_ops\<close>; what the generator of random bytes gives is
  an argument (\<open>None\<close> when it fails). Messages are shorter than \<open>2 ^ 31\<close>, the range of the cipher's
  lengths.

  \<open>decrypt\<close> takes the initialisation vector and the cipher text from the text it is to write to, not
  from the text it is given, so it only works when the caller passes the same text as both; into
  an empty text it throws. The last lemmas say when \<open>random_private_key\<close> returns.
\<close>

record ('q, 'c, 'e) crypt_ops =
  ec_pubkey_parse :: "bytes \<Rightarrow> 'q option"                    \<comment> \<open>of a compressed key\<close>
  ecdh_point :: "'q \<Rightarrow> bytes \<Rightarrow> (bytes \<times> bytes) option"      \<comment> \<open>what \<open>secp256k1_ecdh\<close> hands to its callback\<close>
  cipher_ctx_new :: bool
  encrypt_init :: "bytes \<Rightarrow> bytes \<Rightarrow> 'c option"              \<comment> \<open>key and initialisation vector\<close>
  encrypt_update :: "'c \<Rightarrow> bytes \<Rightarrow> ('c \<times> bytes) option"
  encrypt_final :: "'c \<Rightarrow> bytes option"
  decrypt_init :: "bytes \<Rightarrow> bytes \<Rightarrow> 'e option"
  decrypt_update :: "'e \<Rightarrow> bytes \<Rightarrow> ('e \<times> bytes) option"
  decrypt_final :: "'e \<Rightarrow> bytes option"
  b64_encode :: "bytes \<Rightarrow> string"
  b64_decode :: "string \<Rightarrow> bytes"

section \<open>The shared secret\<close>

definition copy_shared_pt_x :: "bytes \<times> bytes \<Rightarrow> bytes" where
  "copy_shared_pt_x pt = take 32 (fst pt)"

definition shared_secret :: "('q, 'c, 'e) crypt_ops \<Rightarrow> bytes \<Rightarrow> bytes \<Rightarrow> bytes option" where
  "shared_secret C pk pub =
     (case ec_pubkey_parse C (2 # pub) of
        None \<Rightarrow> None
      | Some pubk \<Rightarrow> map_option copy_shared_pt_x (ecdh_point C pubk pk))"

section \<open>Encrypting\<close>

text \<open>The result and the text the encrypted message was appended to.\<close>

definition encrypt ::
    "('q, 'c, 'e) crypt_ops \<Rightarrow> bytes option \<Rightarrow> bytes \<Rightarrow> bytes \<Rightarrow> string \<Rightarrow> string \<Rightarrow> bool \<times> string" where
  "encrypt C random sender receiver message encrypted_message =
     (case shared_secret C sender receiver of
        None \<Rightarrow> (False, encrypted_message)
      | Some secret \<Rightarrow>
          (case random of
             None \<Rightarrow> (False, encrypted_message)
           | Some iv \<Rightarrow>
               if \<not> cipher_ctx_new C then (False, encrypted_message)
               else
                 (case encrypt_init C secret iv of
                    None \<Rightarrow> (False, encrypted_message)
                  | Some c \<Rightarrow>
                      (case encrypt_update C c (map byte_of message) of
                         None \<Rightarrow> (False, encrypted_message)
                       | Some (c, part) \<Rightarrow>
                           (case encrypt_final C c of
                              None \<Rightarrow> (False, encrypted_message)
                            | Some rest \<Rightarrow>
                                (True, encrypted_message @ b64_encode C (part @ rest) @ ''?iv='' @ b64_encode C iv))))))"

section \<open>Decrypting\<close>

datatype crypt_fault = OutOfRange | NullContext

text \<open>The vector keeps what it held (\<open>u\<close>) where the decoded text is too short.\<close>

definition decrypt ::
    "('q, 'c, 'e) crypt_ops \<Rightarrow> (nat \<Rightarrow> u8) \<Rightarrow> bytes \<Rightarrow> bytes \<Rightarrow> string \<Rightarrow> string \<Rightarrow> crypt_fault + bool \<times> string" where
  "decrypt C u receiver sender encrypted_message message =
     (case find_sub ''?iv='' encrypted_message of
        None \<Rightarrow> Inr (False, message)
      | Some pos \<Rightarrow>
          if pos + 4 > length message then Inl OutOfRange
          else
            let iv_text = drop (pos + 4) message;
                cipher_text = take pos message;
                iv = fill_key 16 u (b64_decode C iv_text);
                bin_message = b64_decode C cipher_text
            in
            (case shared_secret C receiver sender of
               None \<Rightarrow> Inr (False, message)
             | Some secret \<Rightarrow>
                 if \<not> cipher_ctx_new C then Inl NullContext
                 else
                   (case decrypt_init C secret iv of
                      None \<Rightarrow> Inr (False, message)
                    | Some c \<Rightarrow>
                        (case decrypt_update C c bin_message of
                           None \<Rightarrow> Inr (False, message)
                         | Some (c, part) \<Rightarrow>
                             (case decrypt_final C c of
                                None \<Rightarrow> Inr (False, message)
                              | Some rest \<Rightarrow> Inr (True, message @ map char_of_byte (part @ rest)))))))"

section \<open>A random key\<close>

text \<open>\<open>draws i\<close> are the random bytes of the \<open>i\<close>-th turn. \<open>None\<close>: no return; \<open>Some None\<close>: false.\<close>

partial_function (option) random_key_loop ::
    "(bytes \<Rightarrow> bool) \<Rightarrow> (nat \<Rightarrow> bytes option) \<Rightarrow> nat \<Rightarrow> bytes option option" where
  "random_key_loop valid draws i =
     (case draws i of
        None \<Rightarrow> Some None
      | Some key \<Rightarrow> if valid key then Some (Some key) else random_key_loop valid draws (Suc i))"

definition random_private_key ::
    "('k, 'p) secp256k1 \<Rightarrow> (nat \<Rightarrow> bytes option) \<Rightarrow> bytes option option" where
  "random_private_key S draws = random_key_loop (\<lambda>key. keypair_create S key \<noteq> None) draws 0"

section \<open>When a key is returned\<close>

text \<open>The loop returns exactly when the generator fails or gives a valid key at some turn; a key that
is returned is valid.\<close>

lemma random_key_loop_until:
  assumes "i \<le> j" "draws j = None \<or> (\<exists>key. draws j = Some key \<and> valid key)"
  shows "\<exists>r. random_key_loop valid draws i = Some r"
  using assms
proof (induction "j - i" arbitrary: i)
  case 0
  then show ?case by (subst random_key_loop.simps) (auto split: option.splits)
next
  case (Suc k)
  then have "\<exists>r. random_key_loop valid draws (Suc i) = Some r" by (intro Suc) auto
  then show ?case by (subst random_key_loop.simps) (auto split: option.splits)
qed

definition key_drawn ::
    "(bytes \<Rightarrow> bool) \<Rightarrow> (nat \<Rightarrow> bytes option) \<Rightarrow> nat \<Rightarrow> bytes option \<Rightarrow> bool" where
  "key_drawn valid draws i r \<longleftrightarrow>
     (\<exists>j \<ge> i. draws j = r \<and> (case r of None \<Rightarrow> True | Some key \<Rightarrow> valid key))"

lemma random_key_loop_result:
  assumes "random_key_loop valid draws i = Some r"
  shows "key_drawn valid draws i r"
proof (rule random_key_loop.raw_induct [where P = key_drawn, rotated])
  fix f and valid :: "bytes \<Rightarrow> bool" and draws and i :: nat and r :: "bytes option"
  assume ih: "\<And>valid draws i r. f valid draws i = Some r \<Longrightarrow> key_drawn valid draws i r"
    and body: "(case draws i of None \<Rightarrow> Some None
      | Some key \<Rightarrow> if valid key then Some (Some key) else f valid draws (Suc i)) = Some r"
  have "key_drawn valid draws i r" if "key_drawn valid draws (Suc i) r"
    using that Suc_leD unfolding key_drawn_def by blast
  then show "key_drawn valid draws i r"
    using body ih [of valid draws "Suc i" r]
    by (auto simp: key_drawn_def split: option.splits if_splits)
qed (rule assms)

section \<open>Properties\<close>

lemma find_separator:
  "CHR ''?'' \<notin> set s \<Longrightarrow> find_sub ''?iv='' (s @ ''?iv='' @ t) = Some (length s)"
proof (induction s)
  case Nil
  then show ?case by (simp add: find_sub.simps)
next
  case (Cons c s)
  then have "c \<noteq> CHR ''?''" by auto
  then show ?case using Cons by (subst find_sub.simps) auto
qed

text \<open>What the code relies on: base64 reads back what it wrote and writes no question mark, and the
cipher of one key and vector is inverted.\<close>

definition crypt_laws :: "('q, 'c, 'e) crypt_ops \<Rightarrow> bool" where
  "crypt_laws C \<longleftrightarrow>
     (\<forall>x. b64_decode C (b64_encode C x) = x \<and> CHR ''?'' \<notin> set (b64_encode C x)) \<and>
     (\<forall>key iv m c c' x y. encrypt_init C key iv = Some c \<longrightarrow> encrypt_update C c m = Some (c', x) \<longrightarrow>
        encrypt_final C c' = Some y \<longrightarrow>
        (\<exists>d d' p q. decrypt_init C key iv = Some d \<and> decrypt_update C d (x @ y) = Some (d', p) \<and>
           decrypt_final C d' = Some q \<and> p @ q = m))"


text \<open>A cipher that leaves the text as it is, to run the functions.\<close>

definition plain_crypt :: "(bytes, unit, unit) crypt_ops" where
  "plain_crypt =
     \<lparr>ec_pubkey_parse = Some, ecdh_point = (\<lambda>_ _. Some (replicate 32 1, replicate 32 2)), cipher_ctx_new = True,
      encrypt_init = (\<lambda>_ _. Some ()), encrypt_update = (\<lambda>_ m. Some ((), m)), encrypt_final = (\<lambda>_. Some []),
      decrypt_init = (\<lambda>_ _. Some ()), decrypt_update = (\<lambda>_ m. Some ((), m)), decrypt_final = (\<lambda>_. Some []),
      b64_encode = to_hex, b64_decode = (\<lambda>s. from_hex (length s div 2) (\<lambda>_. 0) s)\<rparr>"

lemma plain_crypt_laws: "crypt_laws plain_crypt"
proof -
  have "CHR ''?'' \<notin> set (to_hex x)" for x using set_to_hex [of x] by auto
  then show ?thesis by (simp add: crypt_laws_def plain_crypt_def)
qed


end
