(* ===== verification/Follower.thy ===== *)
theory Follower
  imports App_Http Karma_Index
begin

text \<open>
  \<^verbatim>\<open>src/src/nostr_server/follower.h\<close> and \<^verbatim>\<open>follower.cpp\<close>: the service that connects to other relays,
  subscribes to the users the routing index knows there and publishes what they wrote. The file is
  not part of the build; members it names without declaring them (\<open>_idx\<close>, \<open>_pubkey_idx\<close>, \<open>_cfg\<close>) are
  arguments. The HTTP client, the web socket and the size checks of a JSON value are arguments too:
  \<open>fetch_world\<close> is what one run of \<open>start_fetcher\<close> meets. A loop that never ends is \<open>None\<close>.

  The lemmas: every event the service publishes was written by a user it subscribed to and is one
  step farther than that user; the subscriptions name every user once, in messages the other relay
  accepts, unless a huge limit of that relay lets the loop run forever.
\<close>

section \<open>Addresses and limits\<close>

text \<open>
  \<open>compare\<close> is 0 for equal texts, so the conditions hold when the prefixes differ. \<open>substr\<close> throws
  (\<open>None\<close>) behind the end.
\<close>

definition get_relay_url :: "string \<Rightarrow> string option" where
  "get_relay_url relay =
     (if relay = [] then Some []
      else
        let relay = (if last relay = CHR ''/'' then take (length relay - 1) relay else relay) in
        if take 5 relay \<noteq> ''ws://'' then
          (if length relay < 5 then None else Some (''http://'' @ drop 5 relay))
        else if take 6 relay \<noteq> ''wss://'' then
          (if length relay < 6 then None else Some (''https://'' @ drop 6 relay))
        else Some [])"

definition default_max_message_size :: u64 where
  "default_max_message_size = 65536"

text \<open>What the code asks of a JSON value here: whether it holds an object or a size, and the size.\<close>

record 'j info_ops =
  is_object :: "'j \<Rightarrow> bool"
  is_size :: "'j \<Rightarrow> bool"
  as_size :: "'j \<Rightarrow> u64"

text \<open>\<open>data\<close> is the body of the information document, \<open>None\<close> when the request threw.\<close>

definition relay_max_message_size ::
    "('j, 'd, 'r, 'k, 'p) env \<Rightarrow> 'j info_ops \<Rightarrow> string option \<Rightarrow> u64" where
  "relay_max_message_size E N data =
     (case Option.bind data (e_from_json E) of
        None \<Rightarrow> default_max_message_size
      | Some doc \<Rightarrow>
          let lim = j_field (e_json E) doc ''limitation'' in
          if \<not> is_object N lim then default_max_message_size
          else let mml = j_field (e_json E) lim ''max_message_length'' in
            if \<not> is_size N mml then default_max_message_size else as_size N mml)"

section \<open>Subscriptions\<close>

text \<open>The loop of \<open>convertTo2DVector\<close> from the index \<open>i\<close> on; with rows of size 0 it never ends.\<close>

partial_function (option) rows_from :: "'a list \<Rightarrow> nat \<Rightarrow> nat \<Rightarrow> 'a list list option" where
  "rows_from input max_row_size i =
     (if i < length input then
        Option.bind (rows_from input max_row_size (i + max_row_size))
          (\<lambda>output. Some (take (min (i + max_row_size) (length input) - i) (drop i input) # output))
      else Some [])"

definition convertTo2DVector :: "'a list \<Rightarrow> nat \<Rightarrow> 'a list list option" where
  "convertTo2DVector input max_row_size = rows_from input max_row_size 0"

definition subscribe_request ::
    "('j, 'd, 'r, 'k, 'p) env \<Rightarrow> time_t \<Rightarrow> nat \<Rightarrow> 'j list \<Rightarrow> 'j" where
  "subscribe_request E time i s =
     (let J = e_json E;
          nostr_filter = mk_object J
            ((''authors'', mk_array J s) # (if time \<noteq> 0 then [(''since'', mk_time J time)] else []));
          ids = int_text (sint time) @ ''_'' @ nat_text i
      in mk_array J [mk_string J (e_name E REQ), mk_string J ids, nostr_filter])"

text \<open>The texts written to the web socket.\<close>

definition subscribe_users ::
    "('j, 'd, 'r, 'k, 'p) env \<Rightarrow> bytes list \<Rightarrow> time_t \<Rightarrow> u32 \<Rightarrow> string list option" where
  "subscribe_users E pubkeys time max_pubkeys =
     (if pubkeys = [] then Some []
      else
        let authors = map (\<lambda>pk. mk_string (e_json E) (to_hex pk)) pubkeys
        in Option.bind (convertTo2DVector authors (unat max_pubkeys))
             (\<lambda>sets. Some (map (\<lambda>(i, s). j_to_json (e_json E) (subscribe_request E time i s))
                             (enumerate 0 sets))))"

section \<open>Users\<close>

text \<open>\<open>std::map::emplace\<close>: the first value of a key stays; the list is ordered by key.\<close>

definition emplace :: "bytes \<Rightarrow> u8 \<Rightarrow> (bytes \<times> u8) list \<Rightarrow> (bytes \<times> u8) list" where
  "emplace k v m = (if k \<in> fst ` set m then m else insort_key fst (k, v) m)"

definition select_users :: "u32 \<Rightarrow> (bytes \<times> u8) list \<Rightarrow> (bytes \<times> u8) list" where
  "select_users max_depth rows =
     fold (\<lambda>(pubkey, ref_level) all_users.
             if ucast ref_level \<ge> max_depth then all_users else emplace pubkey ref_level all_users)
       rows []"

text \<open>\<open>latest\<close> is the newest row of a user in the index by author, as its key and time.\<close>

definition classify_users ::
    "(bytes \<Rightarrow> (bytes \<times> time_t) option) \<Rightarrow> (bytes \<times> u8) list \<Rightarrow> time_t \<Rightarrow> bytes list \<times> bytes list \<times> time_t" where
  "classify_users latest all_users uninit =
     fold (\<lambda>(pubkey, ref) (new_users, existing_users, max_timestamp).
             case latest pubkey of
               None \<Rightarrow> (new_users @ [pubkey], existing_users, max_timestamp)
             | Some (p, t) \<Rightarrow>
                 (new_users, existing_users @ [p],
                  if sint max_timestamp < sint t then t else max_timestamp))
       all_users ([], [], uninit)"

definition useful_relays :: "u8 \<Rightarrow> (string \<times> u8) list \<Rightarrow> string list" where
  "useful_relays max_depth relays = map fst (filter (\<lambda>(relay, d). relay \<noteq> [] \<and> d < max_depth) relays)"

section \<open>Messages of the other relay\<close>

datatype follow_exn = BadJson | BadEvent parse_error | StoreFailed db_error

text \<open>\<open>ft_warned\<close> are the identifiers reported as having no valid signature.\<close>

record 'd fetcher =
  ft_app :: "'d app"
  ft_warned :: "bytes list"

definition process_text_response ::
    "('j, 'd, 'r, 'k, 'p) env \<Rightarrow> (nat \<Rightarrow> nat \<Rightarrow> u8) \<Rightarrow> (bytes \<times> u8) list \<Rightarrow> string \<Rightarrow> 'd fetcher
       \<Rightarrow> follow_exn option \<times> 'd fetcher" where
  "process_text_response E u all_user_map msg f =
     (case e_from_json E msg of
        None \<Rightarrow> (Some BadJson, f)
      | Some resp \<Rightarrow>
          let J = e_json E; cmd = e_command E (j_text J (j_item J resp 0)) in
          if cmd \<noteq> EVENT then (None, f)
          else case fromStructured J (e_sha E) (e_hash E) u (j_item J resp 2) of
            Inl e \<Rightarrow> (Some (BadEvent e), f)
          | Inr ev \<Rightarrow>
              let f = (if \<not> event_verify (e_secp E) ev
                       then f\<lparr>ft_warned := ft_warned f @ [ev_id ev]\<rparr> else f)
              in case map_of all_user_map (ev_author ev) of
                   None \<Rightarrow> (None, f)
                 | Some ref_level \<Rightarrow>
                     (case publish (e_db E) (ev\<lparr>ev_ref_level := ref_level + 1\<rparr>) None (ft_app f) of
                        Inl e \<Rightarrow> (Some (StoreFailed e), f)
                      | Inr a \<Rightarrow> (None, f\<lparr>ft_app := a\<rparr>)))"

datatype ws_message = Ws_close | Ws_text string | Ws_binary string | Ws_other

text \<open>\<open>gm i\<close> is the indeterminate memory the \<open>i\<close>-th message finds. An exception leaves the loop.\<close>

fun fetch_loop ::
    "('j, 'd, 'r, 'k, 'p) env \<Rightarrow> (nat \<Rightarrow> nat \<Rightarrow> nat \<Rightarrow> u8) \<Rightarrow> (bytes \<times> u8) list \<Rightarrow> nat \<Rightarrow> ws_message list
       \<Rightarrow> 'd fetcher \<Rightarrow> 'd fetcher" where
  "fetch_loop E gm all_users i [] f = f"
| "fetch_loop E gm all_users i (Ws_close # msgs) f = f"
| "fetch_loop E gm all_users i (Ws_text payload # msgs) f =
     (case process_text_response E (gm i) all_users payload f of
        (Some e, f) \<Rightarrow> f
      | (None, f) \<Rightarrow> fetch_loop E gm all_users (i + 1) msgs f)"
| "fetch_loop E gm all_users i (msg # msgs) f = fetch_loop E gm all_users (i + 1) msgs f"

record fetch_world =
  fw_info :: "string option"                        \<comment> \<open>body of the information document\<close>
  fw_connected :: "bool option"                     \<comment> \<open>\<open>None\<close> throws\<close>
  fw_latest :: "bytes \<Rightarrow> (bytes \<times> time_t) option"
  fw_uninit :: time_t                               \<comment> \<open>what \<open>max_timestamp\<close> starts from\<close>
  fw_mem :: "nat \<Rightarrow> nat \<Rightarrow> nat \<Rightarrow> u8"
  fw_messages :: "ws_message list"

text \<open>\<open>rows\<close> are the rows of the relay in the routing index.\<close>

definition start_fetcher ::
    "('j, 'd, 'r, 'k, 'p) env \<Rightarrow> 'j info_ops \<Rightarrow> fetch_world \<Rightarrow> u32 \<Rightarrow> string \<Rightarrow> (bytes \<times> u8) list
       \<Rightarrow> 'd fetcher \<Rightarrow> (string list \<times> 'd fetcher) option" where
  "start_fetcher E N W max_depth relay rows f =
     (case get_relay_url relay of
        None \<Rightarrow> Some ([], f)
      | Some relay_url \<Rightarrow>
          let max_msg_size = relay_max_message_size E N (fw_info W);
              max_pubkeys = max_msg_size div 70
          in if max_pubkeys \<le> 3 then Some ([], f)
          else
            let max_pubkeys = max_pubkeys - 3;
                all_users = select_users max_depth rows;
                (new_users, existing_users, max_timestamp) = classify_users (fw_latest W) all_users (fw_uninit W)
            in case fw_connected W of
                 None \<Rightarrow> Some ([], f)
               | Some res \<Rightarrow>
                   if \<not> res then Some ([], f)
                   else Option.bind (subscribe_users E new_users 0 (ucast max_pubkeys)) (\<lambda>new_reqs.
                     Option.bind (subscribe_users E existing_users (max_timestamp - 300) (ucast max_pubkeys)) (\<lambda>old_reqs.
                       Some (new_reqs @ old_reqs,
                             fetch_loop E (fw_mem W) all_users 0 (fw_messages W) f))))"

section \<open>Rows\<close>

lemma rows_from_rows:
  assumes "0 < n"
  obtains rows where "rows_from xs n i = Some rows" "concat rows = drop i xs"
    "\<forall>r \<in> set rows. r \<noteq> [] \<and> length r \<le> n" "set (concat rows) \<subseteq> set xs"
proof -
  have "\<exists>rows. rows_from xs n i = Some rows \<and> concat rows = drop i xs \<and>
      (\<forall>r \<in> set rows. r \<noteq> [] \<and> length r \<le> n)"
    using assms
  proof (induction "length xs - i" arbitrary: i rule: less_induct)
    case less
    show ?case
    proof (cases "i < length xs")
      case True
      let ?r = "take (min (i + n) (length xs) - i) (drop i xs)"
      obtain rows where rows: "rows_from xs n (i + n) = Some rows" "concat rows = drop (i + n) xs"
        "\<forall>r \<in> set rows. r \<noteq> [] \<and> length r \<le> n"
        using less.hyps [OF diff_less_mono2, of "i + n"] True less.prems by auto
      have "?r = take n (drop i xs)" using True by (cases "i + n \<le> length xs") (simp_all add: min_def)
      then have "?r @ drop (i + n) xs = drop i xs"
        using append_take_drop_id [of n "drop i xs"] by (simp add: add.commute)
      moreover have "?r \<noteq> []" "length ?r \<le> n" using True less.prems by auto
      ultimately show ?thesis using True rows by (subst rows_from.simps) simp
    qed (subst rows_from.simps, simp)
  qed
  then show ?thesis using that by (metis set_drop_subset)
qed

lemma rows_from_endless: "i < length xs \<Longrightarrow> rows_from xs 0 i = None"
proof (rule ccontr)
  assume i: "i < length xs" and "rows_from xs 0 i \<noteq> None"
  then obtain r where r: "rows_from xs 0 i = Some r" by blast
  have "0 = (0 :: nat) \<longrightarrow> length xs \<le> i"
  proof (rule rows_from.raw_induct [where P = "\<lambda>xs n i r. n = 0 \<longrightarrow> length xs \<le> i", OF _ r])
    fix f :: "'a list \<Rightarrow> nat \<Rightarrow> nat \<Rightarrow> 'a list list option" and xs :: "'a list" and n i and r :: "'a list list"
    assume ih: "\<And>xs n i r. f xs n i = Some r \<Longrightarrow> n = 0 \<longrightarrow> length xs \<le> i"
      and body: "(if i < length xs then Option.bind (f xs n (i + n))
          (\<lambda>out. Some (take (min (i + n) (length xs) - i) (drop i xs) # out)) else Some []) = Some r"
    show "n = 0 \<longrightarrow> length xs \<le> i"
      using body ih [of xs n "i + n"] by (auto split: if_splits bind_splits)
  qed
  with i show False by simp
qed

section \<open>Size of the subscriptions\<close>

text \<open>
  The JSON library writes texts without blanks and needs no escapes for the characters of \<open>plain\<close>;
  a number of 64 bits has at most 20 characters.
\<close>

definition plain :: "string \<Rightarrow> bool" where
  "plain s \<longleftrightarrow> set s \<subseteq> set ''0123456789abcdefghijklmnopqrstuvwxyzREQ_-''"

definition compact_json :: "'j json_ops \<Rightarrow> bool" where
  "compact_json J \<longleftrightarrow>
     (\<forall>s. plain s \<longrightarrow> length (j_to_json J (mk_string J s)) \<le> length s + 2) \<and>
     (\<forall>t. length (j_to_json J (mk_time J t)) \<le> 20) \<and>
     (\<forall>xs. length (j_to_json J (mk_array J xs)) \<le> 2 + sum_list (map (\<lambda>x. length (j_to_json J x) + 1) xs)) \<and>
     (\<forall>kvs. list_all (plain \<circ> fst) kvs \<longrightarrow> length (j_to_json J (mk_object J kvs))
        \<le> 2 + sum_list (map (\<lambda>(k, v). length k + length (j_to_json J v) + 4) kvs))"

lemma nat_text_plain: "set (nat_text n) \<subseteq> set ''0123456789''"
proof (induction n rule: nat_text.induct)
  case (1 n)
  have digit: "char_of (48 + d) \<in> set ''0123456789''" if "d < 10" for d :: nat
  proof -
    have "list_all (\<lambda>d. char_of (48 + d :: nat) \<in> set ''0123456789'') [0..<10]" by code_simp
    with that show ?thesis by (simp add: list_all_iff)
  qed
  show ?case
  proof (cases "n < 10")
    case True
    then show ?thesis using digit [of n] by (subst nat_text.simps) simp
  next
    case False
    then show ?thesis using 1 digit [of "n mod 10"] by (subst nat_text.simps) simp
  qed
qed

lemma plain_nat_text: "plain (nat_text n)"
proof -
  have "set ''0123456789'' \<subseteq> set ''0123456789abcdefghijklmnopqrstuvwxyzREQ_-''" by simp
  with nat_text_plain [of n] show ?thesis unfolding plain_def by (rule subset_trans)
qed

lemma plain_append:
  "plain (s @ t) \<longleftrightarrow> plain s \<and> plain t" "plain (CHR ''_'' # s) \<longleftrightarrow> plain s" "plain (CHR ''-'' # s) \<longleftrightarrow> plain s"
  by (simp_all add: plain_def)

lemma length_nat_text: "n < 10 ^ Suc k \<Longrightarrow> length (nat_text n) \<le> Suc k"
proof (induction k arbitrary: n)
  case 0
  then show ?case by (subst nat_text.simps) simp
next
  case (Suc k)
  show ?case
  proof (cases "n < 10")
    case False
    have "n div 10 < 10 ^ Suc k" using Suc.prems by (simp add: less_mult_imp_div_less)
    then show ?thesis using Suc.IH [of "n div 10"] False by (subst nat_text.simps) simp
  qed (subst nat_text.simps, simp)
qed

lemma int_text_time: "plain (int_text (sint (t :: time_t)))" "length (int_text (sint t)) \<le> 20"
proof -
  have t: "\<bar>sint t\<bar> \<le> 2 ^ 63" using sint_ge [of t] sint_lt [of t] by simp
  show "plain (int_text (sint t))"
    by (simp add: int_text_def plain_append plain_nat_text)
  have "nat \<bar>sint t\<bar> < 10 ^ Suc 18" using t by (simp add: nat_less_iff)
  then have "length (nat_text (nat \<bar>sint t\<bar>)) \<le> 19" using length_nat_text [of _ 18] by simp
  then show "length (int_text (sint t)) \<le> 20"
    by (cases "sint t < 0") (simp_all add: int_text_def)
qed

lemma plain_to_hex: "plain (to_hex b)"
proof -
  have "set (to_hex b) \<subseteq> set ''0123456789abcdef''" by (rule set_to_hex)
  also have "\<dots> \<subseteq> set ''0123456789abcdefghijklmnopqrstuvwxyzREQ_-''" by simp
  finally show ?thesis by (simp add: plain_def)
qed

lemma sum_list_bounded: "(\<And>x. x \<in> set xs \<Longrightarrow> g x \<le> (c :: nat)) \<Longrightarrow> sum_list (map g xs) \<le> c * length xs"
  by (induction xs) (auto intro: add_mono)

lemma length_concat_rows: "\<forall>s \<in> set rows. s \<noteq> [] \<Longrightarrow> length rows \<le> length (concat rows)"
proof (induction rows)
  case (Cons s rows)
  then show ?case by (cases s) auto
qed simp

lemma subscribe_request_size:
  assumes "compact_json (e_json E)" "e_name E REQ = ''REQ''" "i < 10 ^ 10"
    "set s \<subseteq> {mk_string (e_json E) (to_hex k) | k. length k = 32}"
  shows "length (j_to_json (e_json E) (subscribe_request E time i s)) \<le> 104 + 67 * length s"
proof -
  let ?J = "e_json E"
  let ?n = "\<lambda>x. length (j_to_json ?J x)"
  let ?ids = "int_text (sint time) @ ''_'' @ nat_text i"
  let ?kvs = "(''authors'', mk_array ?J s) # (if time \<noteq> 0 then [(''since'', mk_time ?J time)] else [])"
  note laws = assms(1) [unfolded compact_json_def]
  have str: "?n (mk_string ?J t) \<le> length t + 2" if "plain t" for t using laws that by blast
  have arr: "?n (mk_array ?J xs) \<le> 2 + sum_list (map (\<lambda>x. ?n x + 1) xs)" for xs using laws by blast
  have time: "?n (mk_time ?J t) \<le> 20" for t using laws by blast
  have author: "?n x + 1 \<le> 67" if x: "x \<in> set s" for x
  proof -
    obtain k where "x = mk_string ?J (to_hex k)" "length k = 32" using x assms(4) by blast
    then show ?thesis using str [OF plain_to_hex, of k] by simp
  qed
  have authors: "?n (mk_array ?J s) \<le> 2 + 67 * length s"
    using arr [of s] sum_list_bounded [of s "\<lambda>x. ?n x + 1", OF author] by simp
  have "plain ?ids" by (simp add: int_text_time(1) plain_append plain_nat_text)
  then have ids: "?n (mk_string ?J ?ids) \<le> 33"
    using str [of ?ids] int_text_time(2) [of time] length_nat_text [of i 9] assms(3) by simp
  have req: "?n (mk_string ?J ''REQ'') \<le> 5" using str [of "''REQ''"] by (simp add: plain_def)
  have "list_all (plain \<circ> fst) ?kvs" by (simp add: plain_def)
  then have "?n (mk_object ?J ?kvs) \<le> 2 + sum_list (map (\<lambda>(k, v). length k + ?n v + 4) ?kvs)"
    using laws by blast
  also have "\<dots> \<le> 2 + (7 + ?n (mk_array ?J s) + 4) + (5 + 20 + 4)" using time [of time] by simp
  finally have "?n (mk_object ?J ?kvs) \<le> 44 + 67 * length s" using authors by simp
  moreover have three: "?n (mk_array ?J [a, b, c]) \<le> 5 + ?n a + ?n b + ?n c" for a b c
    using arr [of "[a, b, c]"] by simp
  then have "?n (subscribe_request E time i s)
      \<le> 5 + ?n (mk_string ?J ''REQ'') + ?n (mk_string ?J ?ids) + ?n (mk_object ?J ?kvs)"
    unfolding subscribe_request_def Let_def assms(2) .
  ultimately show ?thesis using ids req by linarith
qed

section \<open>What the service publishes\<close>

text \<open>An event of a user in the rows, one step farther than the user.\<close>

definition followed :: "u32 \<Rightarrow> (bytes \<times> u8) list \<Rightarrow> Event \<Rightarrow> bool" where
  "followed max_depth rows ev \<longleftrightarrow>
     (\<exists>d. (ev_author ev, d) \<in> set rows \<and> ucast d < max_depth \<and> ev_ref_level ev = d + 1)"

lemma select_users_rows:
  "set (select_users max_depth rows) \<subseteq> {(k, d) \<in> set rows. ucast d < max_depth}"
proof -
  let ?f = "\<lambda>(pubkey, ref_level) all_users.
     if (ucast ref_level :: u32) \<ge> max_depth then all_users else emplace pubkey ref_level all_users"
  have "set (fold ?f rows m) \<subseteq> {(k, d) \<in> set rows. ucast d < max_depth} \<union> set m" for m
  proof (induction rows arbitrary: m)
    case (Cons r rows)
    obtain k d where r: "r = (k, d)" by fastforce
    have "set (?f r m) \<subseteq> {(k, d) \<in> {r}. ucast d < max_depth} \<union> set m"
      by (auto simp: r emplace_def set_insort_key)
    then show ?case using Cons.IH [of "?f r m"] by auto
  qed simp
  from this [of "[]"] show ?thesis by (simp add: select_users_def)
qed

lemma level_step:
  assumes "ucast (d :: u8) < (max_depth :: u32)" "max_depth \<le> 255"
  shows "unat (d + 1) \<le> unat max_depth" "d + 1 \<noteq> 0"
proof -
  have "unat d < unat max_depth" "unat max_depth \<le> 255"
    using assms unsigned_less [where w = d and 'a = nat]
    by (simp_all add: word_less_nat_alt word_le_nat_alt unsigned_ucast_eq take_bit_nat_eq_self)
  then show "unat (d + 1) \<le> unat max_depth" "d + 1 \<noteq> 0"
    by (simp_all add: unat_word_ariths unat_arith_simps)
qed

text \<open>One message, as a step of the abstract store of \<open>App_Store\<close>.\<close>

definition fetched ::
    "('j, 'd, 'r, 'k, 'p) env \<Rightarrow> ('d \<Rightarrow> bool) \<Rightarrow> (bytes \<times> u8) list \<Rightarrow> Event list \<Rightarrow> 'd fetcher \<Rightarrow> 'd fetcher \<Rightarrow> bool" where
  "fetched E ok users evs f f' \<longleftrightarrow>
     (\<forall>ev \<in> set evs. \<exists>d. (ev_author ev, d) \<in> set users \<and> ev_ref_level ev = d + 1 \<and>
        ev_id ev = calc_id (e_json E) (e_sha E) ev) \<and>
     ok (app_db (ft_app f')) \<and>
     stored_events (e_db E) (app_db (ft_app f')) = fold spec_store evs (stored_events (e_db E) (app_db (ft_app f))) \<and>
     set (app_published (ft_app f')) \<subseteq> set (app_published (ft_app f)) \<union> (\<lambda>ev. (ev, None)) ` set evs"

lemma fetchedD:
  "fetched E ok users evs f f' \<Longrightarrow> \<forall>ev \<in> set evs. \<exists>d. (ev_author ev, d) \<in> set users \<and> ev_ref_level ev = d + 1 \<and>
     ev_id ev = calc_id (e_json E) (e_sha E) ev"
  "fetched E ok users evs f f' \<Longrightarrow> ok (app_db (ft_app f'))"
  "fetched E ok users evs f f' \<Longrightarrow>
     stored_events (e_db E) (app_db (ft_app f')) = fold spec_store evs (stored_events (e_db E) (app_db (ft_app f)))"
  "fetched E ok users evs f f' \<Longrightarrow>
     set (app_published (ft_app f')) \<subseteq> set (app_published (ft_app f)) \<union> (\<lambda>ev. (ev, None)) ` set evs"
  unfolding fetched_def by (elim conjE, assumption)+

lemma fetched_refl: "ok (app_db (ft_app f)) \<Longrightarrow> fetched E ok users [] f f"
  by (simp add: fetched_def)

lemma fetched_trans:
  assumes "fetched E ok users evs f g" "fetched E ok users evs' g h"
  shows "fetched E ok users (evs @ evs') f h"
proof -
  have "set (app_published (ft_app h)) \<subseteq> set (app_published (ft_app g)) \<union> (\<lambda>ev. (ev, None)) ` set evs'"
    "set (app_published (ft_app g)) \<subseteq> set (app_published (ft_app f)) \<union> (\<lambda>ev. (ev, None)) ` set evs"
    using assms by (simp_all add: fetched_def)
  then have "set (app_published (ft_app h)) \<subseteq> set (app_published (ft_app f)) \<union> (\<lambda>ev. (ev, None)) ` set (evs @ evs')"
    unfolding set_append image_Un by blast
  with assms show ?thesis unfolding fetched_def by auto
qed

lemma process_fetched:
  assumes "db_laws (e_db E) ok" "ok (app_db (ft_app f))" "process_text_response E u users msg f = (e, f')"
  obtains evs where "fetched E ok users evs f f'"
proof (cases "app_db (ft_app f') = app_db (ft_app f) \<and> app_published (ft_app f') = app_published (ft_app f)")
  case True
  then show ?thesis using that [of "[]"] assms(2) by (simp add: fetched_def)
next
  case False
  then obtain ev doc d a where ev: "fromStructured (e_json E) (e_sha E) (e_hash E) u doc = Inr ev"
    and d: "map_of users (ev_author ev) = Some d"
    and a: "publish (e_db E) (ev\<lparr>ev_ref_level := d + 1\<rparr>) None (ft_app f) = Inr a" "ft_app f' = a"
    using assms(3) unfolding process_text_response_def Let_def
    by (auto split: option.splits sum.splits if_splits)
  let ?ev = "ev\<lparr>ev_ref_level := d + 1\<rparr>"
  note spec = publish_spec [OF assms(1,2) a(1)]
  have "fetched E ok users [?ev] f f'"
    using spec a(2) map_of_SomeD [OF d] fromStructured_event(1) [OF ev]
    by (auto simp: fetched_def calc_id_def)
  then show ?thesis by (rule that)
qed

lemma fetch_loop_fetched:
  assumes "db_laws (e_db E) ok" "ok (app_db (ft_app f))"
  shows "\<exists>evs. fetched E ok users evs f (fetch_loop E gm users i msgs f)"
  using assms(2)
proof (induction msgs arbitrary: i f)
  case (Cons m msgs)
  show ?case
  proof (cases m)
    case (Ws_text payload)
    obtain e g where step: "process_text_response E (gm i) users payload f = (e, g)" by fastforce
    then obtain evs where g: "fetched E ok users evs f g"
      using process_fetched [OF assms(1) Cons.prems] by metis
    then have "ok (app_db (ft_app g))" by (simp add: fetched_def)
    from Cons.IH [OF this] obtain evs' where "fetched E ok users evs' g (fetch_loop E gm users (i + 1) msgs g)"
      by blast
    with g show ?thesis
      using step Ws_text fetched_trans [OF g] by (cases e) auto
  qed (use Cons.IH [OF Cons.prems] fetched_refl [where f = f and ok = ok, OF Cons.prems] in \<open>simp_all, blast\<close>)
qed (simp, blast intro: fetched_refl)

lemma start_fetcher_result:
  assumes "start_fetcher E N W max_depth relay rows f = Some (reqs, f')"
  shows "f' = f \<or> f' = fetch_loop E (fw_mem W) (select_users max_depth rows) 0 (fw_messages W) f"
proof (cases "get_relay_url relay")
  case (Some url)
  note run = assms [unfolded start_fetcher_def Let_def case_prod_unfold Some option.case]
  show ?thesis
  proof (cases "relay_max_message_size E N (fw_info W) div 70 \<le> 3")
    case False
    show ?thesis
    proof (cases "fw_connected W = Some True")
      case True
      with False run show ?thesis
        by (simp only: if_False option.case not_True_eq_False bind_eq_Some_conv option.inject prod.inject) blast
    next
      case other: False
      with False run show ?thesis
        by (cases "fw_connected W") (simp_all only: if_False option.case if_True option.inject prod.inject simp_thms)
    qed
  qed (use run in \<open>simp only: if_True option.inject prod.inject simp_thms\<close>)
qed (use assms in \<open>simp add: start_fetcher_def\<close>)

section \<open>Properties\<close>


text \<open>An event without a valid signature is reported, and published all the same.\<close>

lemma unsigned_event_published:
  assumes "e_from_json E msg = Some resp" "e_command E (j_text (e_json E) (j_item (e_json E) resp 0)) = EVENT"
    "fromStructured (e_json E) (e_sha E) (e_hash E) u (j_item (e_json E) resp 2) = Inr ev"
    "\<not> event_verify (e_secp E) ev" "map_of users (ev_author ev) = Some d"
    "publish (e_db E) (ev\<lparr>ev_ref_level := d + 1\<rparr>) None (ft_app f) = Inr a"
  shows "process_text_response E u users msg f
    = (None, f\<lparr>ft_app := a, ft_warned := ft_warned f @ [ev_id ev]\<rparr>)"
  using assms by (simp add: process_text_response_def Let_def)


text \<open>A limit whose number of keys is a multiple of \<open>2\<^sup>32\<close> is cut to no key per message: the loop
that divides the users never ends.\<close>

lemma subscriptions_endless:
  "pubkeys \<noteq> [] \<Longrightarrow> subscribe_users E pubkeys time (ucast ((70 * (2 ^ 32 + 3) :: u64) div 70 - 3)) = None"
  by (simp add: subscribe_users_def convertTo2DVector_def Let_def rows_from_endless)

text \<open>The addresses of both schemes lose characters.\<close>

lemma relay_url_wrong:
  "get_relay_url ''wss://relay.net/'' = Some ''http:///relay.net''"
  "get_relay_url ''ws://relay.net'' = Some ''https://elay.net''"
  "get_relay_url ''wss:'' = None"
  by (simp_all add: get_relay_url_def)

section \<open>Examples\<close>

definition feed_message :: json where
  "feed_message = JArray [JString ''EVENT'', JString ''0_0'', toStructured json_ref sample_event]"

definition feed_env :: "(json, mem_db, mem_rs, unit, unit) env" where
  "feed_env = sample_env\<lparr>e_from_json := (\<lambda>s. if s = ''feed'' then Some feed_message else None)\<rparr>"

definition json_info :: "json info_ops" where
  "json_info =
     \<lparr>is_object = (\<lambda>j. case j of JObject _ \<Rightarrow> True | _ \<Rightarrow> False),
      is_size = (\<lambda>j. case j of JNumber n \<Rightarrow> 0 \<le> n \<and> n < 2 ^ 64 | _ \<Rightarrow> False),
      as_size = (\<lambda>j. word_of_int (ref_number j))\<rparr>"

definition feed_world :: fetch_world where
  "feed_world =
     \<lparr>fw_info = None, fw_connected = Some True, fw_latest = (\<lambda>_. None), fw_uninit = 0, fw_mem = (\<lambda>_ _ _. 0),
      fw_messages = [Ws_other, Ws_text ''feed'', Ws_close]\<rparr>"

definition feed_rows :: "(bytes \<times> u8) list" where
  "feed_rows = [(replicate 32 1, 0), (replicate 32 2, 7)]"

definition feed_start :: "mem_db fetcher" where
  "feed_start = \<lparr>ft_app = empty_app, ft_warned = []\<rparr>"

definition feed_event :: Event where
  "feed_event = stored_sample\<lparr>ev_ref_level := 1\<rparr>"

lemma json_ref_compact: "compact_json json_ref"
proof -
  have "length (ref_text (JArray xs)) \<le> 2 + sum_list (map (\<lambda>x. length (ref_text x) + 1) xs)" for xs
    by (induction xs) auto
  then show ?thesis by (simp add: compact_json_def json_ref_def)
qed

lemma feed_env_simps [simp]:
  "e_json feed_env = json_ref" "e_db feed_env = mem_ops" "e_sha feed_env = (\<lambda>_. replicate 32 3)"
  "e_hash feed_env = (\<lambda>_. 0)" "e_name feed_env REQ = ''REQ''" "e_command feed_env ''EVENT'' = EVENT"
  "e_from_json feed_env s = (if s = ''feed'' then Some feed_message else None)" "event_verify (e_secp feed_env) ev"
  using sample_verify by (simp_all add: feed_env_def sample_env_def sample_names_def)

lemma feed_users: "select_users 2 feed_rows = [(replicate 32 1, 0)]"
  by (simp add: select_users_def feed_rows_def emplace_def)

definition feed_result :: "mem_db fetcher" where
  "feed_result =
     \<lparr>ft_app = empty_app\<lparr>app_db := empty_db\<lparr>md_docs := [(1, AnEvent feed_event)], md_next := 2\<rparr>,
        app_published := [(feed_event, None)]\<rparr>, ft_warned = []\<rparr>"

lemma feed_event_simps [simp]:
  "ev_id feed_event = replicate 32 3" "ev_author feed_event = replicate 32 1" "ev_kind feed_event = 1"
  "ev_created_at feed_event = 5"
  by (simp_all add: feed_event_def)

lemma feed_published: "publish mem_ops feed_event None empty_app = Inr (ft_app feed_result)"
  by (simp add: publish_def doc_to_replace_def index_by_author_kind_def kind_defs feed_result_def
      storage_put_def mem_ops_def mem_commit_def empty_app_def empty_db_def mem_unique_def
      index_rows_def index_by_id_def attachment_ids_def app_publish_event_def Let_def)

lemma feed_loop: "fetch_loop feed_env gm [(replicate 32 1, 0)] 0 (fw_messages feed_world) feed_start = feed_result"
proof -
  have items: "j_text json_ref (j_item json_ref feed_message 0) = ''EVENT''"
    "j_item json_ref feed_message 2 = toStructured json_ref sample_event"
    by (simp_all add: feed_message_def) (simp add: json_ref_def)
  have "process_text_response feed_env u [(replicate 32 1, 0)] ''feed'' feed_start = (None, feed_result)" for u
    using feed_published
    by (simp add: process_text_response_def items sample_event_parsed Let_def feed_start_def feed_result_def
        feed_event_def stored_sample_def [symmetric])
  then show ?thesis by (simp add: feed_world_def)
qed

lemma feed_runs:
  "\<exists>reqs. start_fetcher feed_env json_info feed_world 2 ''wss://relay/'' feed_rows feed_start = Some (reqs, feed_result)"
proof -
  have url: "get_relay_url ''wss://relay/'' = Some ''http:///relay''" by (simp add: get_relay_url_def)
  have size: "relay_max_message_size feed_env json_info (fw_info feed_world) = 65536"
    by (simp add: relay_max_message_size_def feed_world_def default_max_message_size_def)
  have users: "classify_users (fw_latest feed_world) [(replicate 32 1, 0)] (fw_uninit feed_world) = ([replicate 32 1], [], 0)"
    by (simp add: classify_users_def feed_world_def)
  obtain sets where "rows_from [mk_string json_ref (to_hex (replicate 32 1))] 933 0 = Some sets"
    by (rule rows_from_rows [of 933 "[mk_string json_ref (to_hex (replicate 32 1))]" 0]) simp
  then obtain reqs where "subscribe_users feed_env [replicate 32 1] 0 933 = Some reqs"
    by (simp add: subscribe_users_def convertTo2DVector_def Let_def)
  then show ?thesis
    using feed_loop
    by (simp add: start_fetcher_def url size feed_users users Let_def)
      (simp add: feed_world_def subscribe_users_def)
qed



end
