(* ===== verification/Start.thy ===== *)
theory Start
  imports App_Http
begin

text \<open>
  How the server starts: \<^verbatim>\<open>src/src/nostr_server/config.h\<close> and \<^verbatim>\<open>main.cpp\<close>. The ini file reader
  (\<open>ondra_shared::IniConfig\<close>), the web server with its TLS part, \<open>getopt\<close> and the host name look-up
  are not in the repository: they are the record \<open>start_libs\<close> over an arbitrary type of loaded
  files, and the options \<open>getopt\<close> gives are an argument. Paths are texts, with the operations of
  \<open>std::filesystem::path\<close> the code uses.

  The lemmas: which option fills which field and with which default, the sizes and where they wrap
  around, that TLS is used exactly when it is configured in full, the exit status of every failure,
  and that the log accounts for the bytes of each request.
\<close>

section \<open>Paths\<close>

text \<open>The part behind the last separator, and what comes before it.\<close>

definition path_filename :: "string \<Rightarrow> string" where
  "path_filename p = rev (takeWhile (\<lambda>c. c \<noteq> CHR ''/'') (rev p))"

definition strip_separators :: "string \<Rightarrow> string" where
  "strip_separators p = rev (dropWhile (\<lambda>c. c = CHR ''/'') (rev p))"

definition parent_path :: "string \<Rightarrow> string" where
  "parent_path p =
     (let d = rev (dropWhile (\<lambda>c. c \<noteq> CHR ''/'') (rev p))
      in if strip_separators d = [] then take 1 d else strip_separators d)"

definition path_append :: "string \<Rightarrow> string \<Rightarrow> string" where
  "path_append a b =
     (if b \<noteq> [] \<and> hd b = CHR ''/'' then b
      else if a \<noteq> [] \<and> last a \<noteq> CHR ''/'' then a @ CHR ''/'' # b else a @ b)"

text \<open>A dot at the beginning of a file name does not start an extension.\<close>

definition stem :: "string \<Rightarrow> string" where
  "stem f =
     (let r = dropWhile (\<lambda>c. c \<noteq> CHR ''.'') (rev f)
      in if f = ''.'' \<or> f = ''..'' \<or> length r \<le> 1 then f else rev (tl r))"

definition replace_extension :: "string \<Rightarrow> string \<Rightarrow> string" where
  "replace_extension p ext =
     (let f = path_filename p
      in take (length p - length f) p @ stem f @ ext)"

text \<open>\<open>curdir\<close> is the working directory, \<open>canonical\<close> the function \<open>weakly_canonical\<close>.\<close>

definition getDefaultConfigPath :: "(string \<Rightarrow> string) \<Rightarrow> string \<Rightarrow> string \<Rightarrow> string" where
  "getDefaultConfigPath canonical curdir argv0 =
     (let bin = (if first_char argv0 = CHR ''/'' then argv0 else canonical (path_append curdir argv0))
      in replace_extension
           (path_append (path_append (parent_path (parent_path bin)) ''conf'') (path_filename bin)) ''.conf'')"

section \<open>Configuration\<close>

record FollowerConfig =
  fc_max_depth :: u32
  fc_max_users_per_connection :: u32
  fc_refresh_period_minutes :: u32

record RelayBotConfig =
  rb_nsec :: string
  rb_admin :: string
  rb_this_relay_url :: string
  rb_groups :: string

record leveldb_options =
  ldb_cache :: u64                  \<comment> \<open>capacity of the block cache\<close>
  ldb_max_file_size :: u64
  ldb_create_if_missing :: bool
  ldb_write_buffer_size :: u64
  ldb_max_open_files :: int

text \<open>The members \<open>replicators\<close> and \<open>http_header_ident\<close> of \<open>ServerOptions\<close> stand beside the options
the connections obey. A certificate is what \<open>load_cert\<close> and \<open>load_priv_key\<close> read.\<close>

record 'x config =
  cf_listen_addr :: string
  cf_threads :: int
  cf_web_document_root :: string
  cf_database_path :: string
  cf_cert :: "('x \<times> 'x) option"
  cf_ssl_listen_addr :: string
  cf_leveldb_options :: leveldb_options
  cf_description :: ServerDescription
  cf_options :: server_options
  cf_replicators :: string
  cf_http_header_ident :: string
  cf_private_key :: string
  cf_replication_config :: "string list"
  cf_metric :: OpenMetricConf
  cf_botcfg :: RelayBotConfig
  cf_followercfg :: FollowerConfig

datatype start_exn = InvalidArg string | ConfigLoadError string | OtherError string

datatype log_target = StdLog nat | RotatingLog string nat u64 u64

text \<open>A getter takes the section, the name and the default; a path is made relative to the file.\<close>

record ('c, 'x) start_libs =
  sl_load :: "string \<Rightarrow> start_exn + 'c"
  sl_string :: "'c \<Rightarrow> string \<Rightarrow> string \<Rightarrow> string \<Rightarrow> string"
  sl_uint :: "'c \<Rightarrow> string \<Rightarrow> string \<Rightarrow> u64 \<Rightarrow> u64"
  sl_bool :: "'c \<Rightarrow> string \<Rightarrow> string \<Rightarrow> bool \<Rightarrow> bool"
  sl_path :: "'c \<Rightarrow> string \<Rightarrow> string \<Rightarrow> string \<Rightarrow> string"
  sl_log_level :: "string \<Rightarrow> nat"
  sl_read_file :: "string \<Rightarrow> start_exn + 'x"   \<comment> \<open>a certificate or a key\<close>
  sl_canonical :: "string \<Rightarrow> string"

text \<open>An unsigned number stored in an \<open>int\<close>.\<close>

definition narrow_int :: "u64 \<Rightarrow> int" where
  "narrow_int n = sint (ucast n :: u32)"

definition read_leveldb_options :: "('c, 'x) start_libs \<Rightarrow> 'c \<Rightarrow> leveldb_options" where
  "read_leveldb_options L cfg =
     (let uint = sl_uint L cfg ''database'' in
      \<lparr>ldb_cache = uint ''rlu_cache_mb'' 8 * 1024 * 1024,
       ldb_max_file_size = uint ''max_file_size_mb'' 2 * 1024 * 1024,
       ldb_create_if_missing = sl_bool L cfg ''database'' ''create_if_missing'' True,
       ldb_write_buffer_size = uint ''write_buffer_size_mb'' 4 * 1024 * 1024,
       ldb_max_open_files = narrow_int (uint ''max_open_files'' 1000)\<rparr>)"

datatype cmd_option = Opt_h | Opt_f string | Opt_unknown

datatype cmd_result = Help | Config_path string | Bad_option

fun read_cmd :: "cmd_option list \<Rightarrow> string \<Rightarrow> cmd_result" where
  "read_cmd [] defcfg = Config_path defcfg"
| "read_cmd (Opt_h # opts) defcfg = Help"
| "read_cmd (Opt_f p # opts) defcfg = read_cmd opts p"
| "read_cmd (Opt_unknown # opts) defcfg = Bad_option"

definition log_provider :: "('c, 'x) start_libs \<Rightarrow> 'c \<Rightarrow> log_target" where
  "log_provider L cfg =
     (let log_level = sl_string L cfg ''log'' ''level'' ''progress'';
          log_file = sl_path L cfg ''log'' ''file'' [];
          log_rot_count = sl_uint L cfg ''log'' ''rotate_count'' 7;
          log_rot_interval = sl_uint L cfg ''log'' ''rotate_interval'' 86400;
          log_level_enm = sl_log_level L log_level
      in if log_file = [] then StdLog log_level_enm
         else RotatingLog log_file log_level_enm log_rot_count log_rot_interval)"

definition read_certificate :: "('c, 'x) start_libs \<Rightarrow> 'c \<Rightarrow> start_exn + (('x \<times> 'x) option \<times> string)" where
  "read_certificate L cfg =
     (let cert_chain = sl_path L cfg ''ssl'' ''cert_chain_file'' [];
          priv_key = sl_path L cfg ''ssl'' ''priv_key_file'' [];
          ssl_listen_addr = sl_string L cfg ''ssl'' ''listen'' ''localhost:10001''
      in if cert_chain \<noteq> [] \<and> priv_key \<noteq> [] \<and> ssl_listen_addr \<noteq> [] then
           (case sl_read_file L cert_chain of
              Inl e \<Rightarrow> Inl e
            | Inr c \<Rightarrow>
                (case sl_read_file L priv_key of
                   Inl e \<Rightarrow> Inl e
                 | Inr k \<Rightarrow> Inr (Some (c, k), ssl_listen_addr)))
         else Inr (None, []))"

definition read_options :: "('c, 'x) start_libs \<Rightarrow> 'c \<Rightarrow> server_options" where
  "read_options L cfg =
     (let uint = sl_uint L cfg ''options'' in
      \<lparr>opt_pow = narrow_int (uint ''pow'' 0),
       event_rate_window = narrow_int (uint ''event_rate_window'' 60),
       event_rate_limit = narrow_int (uint ''event_rate_limit'' 6),
       attachment_max_size = uint ''max_file_size_kb'' 1024 * 1024,
       max_message_size = uint ''max_message_size_kb'' 64 * 1024,
       read_only = sl_bool L cfg ''options'' ''read_only'' False,
       whitelisting = sl_bool L cfg ''options'' ''whitelisting'' True\<rparr>)"

definition read_config :: "('c, 'x) start_libs \<Rightarrow> string \<Rightarrow> 'c \<Rightarrow> start_exn + 'x config" where
  "read_config L defcfg cfg =
     (let cfgpath = parent_path defcfg;
          doc_root_path = path_append (parent_path cfgpath) ''www'';
          db_root_path = path_append (parent_path cfgpath) ''data'';
          str = sl_string L cfg
      in case read_certificate L cfg of
           Inl e \<Rightarrow> Inl e
         | Inr (cert, ssl_addr) \<Rightarrow> Inr
             \<lparr>cf_listen_addr = str ''server'' ''listen'' ''localhost:10000'',
              cf_threads = narrow_int (sl_uint L cfg ''server'' ''threads'' 4),
              cf_web_document_root = sl_path L cfg ''server'' ''web_document_root'' doc_root_path,
              cf_database_path = sl_path L cfg ''database'' ''path'' db_root_path,
              cf_cert = cert, cf_ssl_listen_addr = ssl_addr,
              cf_leveldb_options = read_leveldb_options L cfg,
              cf_description =
                \<lparr>sd_name = str ''description'' ''name'' [], sd_desc = str ''description'' ''description'' [],
                 sd_pubkey = str ''description'' ''pubkey'' [], sd_contact = str ''description'' ''contact'' []\<rparr>,
              cf_options = read_options L cfg,
              cf_replicators = str ''options'' ''replicators'' [],
              cf_http_header_ident = [],
              cf_private_key = str ''replication'' ''private_key'' ''replicator_01'',
              cf_replication_config = [],
              cf_metric = \<lparr>om_enable = sl_bool L cfg ''metrics'' ''enable'' False,
                           om_auth = str ''metrics'' ''auth'' []\<rparr>,
              cf_botcfg =
                \<lparr>rb_nsec = str ''relaybot'' ''private_key'' [], rb_admin = str ''relaybot'' ''admin_pubkey'' [],
                 rb_this_relay_url = str ''relaybot'' ''this_relay_url'' [], rb_groups = str ''relaybot'' ''groups'' []\<rparr>,
              cf_followercfg =
                \<lparr>fc_max_depth = 0, fc_max_users_per_connection = 100, fc_refresh_period_minutes = 10\<rparr>\<rparr>)"

text \<open>\<open>None\<close>: the help was printed and the process left with status 0.\<close>

definition init_cfg ::
    "('c, 'x) start_libs \<Rightarrow> string \<Rightarrow> string \<Rightarrow> cmd_option list \<Rightarrow> (start_exn + log_target \<times> 'x config) option" where
  "init_cfg L curdir argv0 opts =
     (case read_cmd opts (getDefaultConfigPath (sl_canonical L) curdir argv0) of
        Help \<Rightarrow> None
      | Bad_option \<Rightarrow> Some (Inl (InvalidArg ''Unknown option, use -h for help''))
      | Config_path defcfg \<Rightarrow>
          (case sl_load L defcfg of
             Inl e \<Rightarrow> Some (Inl e)
           | Inr cfg \<Rightarrow>
               (case read_config L defcfg cfg of
                  Inl e \<Rightarrow> Some (Inl e)
                | Inr c \<Rightarrow> Some (Inr (log_provider L cfg, c)))))"

section \<open>Running the server\<close>

text \<open>
  What \<open>main\<close> asks of the web server and the database; each may throw. \<open>db\<close> opens the database of
  the application object.
\<close>

record ('d, 'x) run_libs =
  rl_context :: "int \<Rightarrow> start_exn option"
  rl_lookup :: "string \<Rightarrow> start_exn + string list"
  rl_accept :: "(string \<times> nat) list \<Rightarrow> start_exn option"
  rl_server_tls :: "'x \<times> 'x \<Rightarrow> start_exn option"
  rl_open :: "'x config \<Rightarrow> start_exn + 'd"

text \<open>The addresses with their groups; group 1 talks TLS.\<close>

definition listen_addresses :: "('d, 'x) run_libs \<Rightarrow> 'x config \<Rightarrow> start_exn + (string \<times> nat) list" where
  "listen_addresses R cfg =
     (case rl_lookup R (cf_listen_addr cfg) of
        Inl e \<Rightarrow> Inl e
      | Inr addrs \<Rightarrow>
          (case cf_cert cfg of
             None \<Rightarrow> Inr (map (\<lambda>x. (x, 0)) addrs)
           | Some _ \<Rightarrow>
               (case rl_lookup R (cf_ssl_listen_addr cfg) of
                  Inl e \<Rightarrow> Inl e
                | Inr secure_addrs \<Rightarrow> Inr (map (\<lambda>x. (x, 0)) addrs @ map (\<lambda>x. (x, 1)) secure_addrs))))"

datatype 'd running =
    Serving "(string \<times> nat) list" 'd   \<comment> \<open>until a signal comes\<close>
  | Failed_start start_exn

definition run_server :: "('d, 'x) run_libs \<Rightarrow> 'x config \<Rightarrow> 'd running" where
  "run_server R cfg =
     (case listen_addresses R cfg of
        Inl e \<Rightarrow> Failed_start e
      | Inr addrs \<Rightarrow>
          (case rl_accept R addrs of
             Some e \<Rightarrow> Failed_start e
           | None \<Rightarrow>
               (case Option.bind (cf_cert cfg) (rl_server_tls R) of
                  Some e \<Rightarrow> Failed_start e
                | None \<Rightarrow>
                    (case rl_open R cfg of
                       Inl e \<Rightarrow> Failed_start e
                     | Inr d \<Rightarrow> Serving addrs d))))"

text \<open>The exit status of \<open>main\<close>, and whether it served in between. Failures of \<open>run_server\<close> are
logged and leave the status 0.\<close>

definition exit_status :: "start_exn \<Rightarrow> nat" where
  "exit_status e = (case e of InvalidArg _ \<Rightarrow> 1 | ConfigLoadError _ \<Rightarrow> 2 | OtherError _ \<Rightarrow> 3)"

definition main_program ::
    "('c, 'x) start_libs \<Rightarrow> ('d, 'x) run_libs \<Rightarrow> string \<Rightarrow> string \<Rightarrow> cmd_option list
       \<Rightarrow> nat \<times> 'd running option" where
  "main_program L R curdir argv0 opts =
     (case init_cfg L curdir argv0 opts of
        None \<Rightarrow> (0, None)
      | Some (Inl e) \<Rightarrow> (exit_status e, None)
      | Some (Inr (log, cfg)) \<Rightarrow>
          (case rl_context R (cf_threads cfg) of
             Some e \<Rightarrow> (exit_status e, None)
           | None \<Rightarrow> (0, Some (run_server R cfg))))"

section \<open>The log of a connection\<close>

datatype TraceEvent =
    Tr_open | Tr_load | Tr_exception "string option" | Tr_finish | Tr_close | Tr_logger int string

text \<open>What the server tells of a request at one moment; \<open>tr_time\<close> in nanoseconds.\<close>

record trace_request =
  tr_time :: int
  tr_read :: u64
  tr_write :: u64
  tr_method :: string
  tr_url :: string
  tr_status :: int

datatype log_line =
    Log_info string | Log_error string | Log_debug string | Log_warning string | Log_progress string
  | Log_request string string int int u64 u64   \<comment> \<open>method, url, status, duration, bytes read and written\<close>

record logger =
  lg_start_time :: int
  lg_read :: u64
  lg_write :: u64

definition finish_line :: "trace_request \<Rightarrow> logger \<Rightarrow> log_line" where
  "finish_line req lg =
     Log_request (tr_method req) (tr_url req) (tr_status req) (tr_time req - lg_start_time lg)
       (tr_read req - lg_read lg) (tr_write req - lg_write lg)"

text \<open>\<open>PeerServerity\<close> is 0 to 3; an exception goes on to the line of a finished request.\<close>

definition severity_line :: "int \<Rightarrow> string \<Rightarrow> log_line" where
  "severity_line serverity message =
     (if serverity = 2 then Log_warning message
      else if serverity = 1 then Log_progress message
      else if serverity = 3 then Log_error message
      else Log_debug message)"

definition trace :: "TraceEvent \<Rightarrow> trace_request \<Rightarrow> logger \<Rightarrow> log_line list \<times> logger" where
  "trace ev req lg =
     (case ev of
        Tr_open \<Rightarrow> ([Log_info ''New connection''], lg)
      | Tr_load \<Rightarrow> ([], lg\<lparr>lg_start_time := tr_time req, lg_read := tr_read req, lg_write := tr_write req\<rparr>)
      | Tr_exception (Some m) \<Rightarrow> ([Log_error m, finish_line req lg], lg)
      | Tr_exception None \<Rightarrow> ([Log_error ''[HTTP] Unknown exception'', finish_line req lg], lg)
      | Tr_finish \<Rightarrow> ([finish_line req lg], lg)
      | Tr_close \<Rightarrow> ([Log_info ''Closed''], lg)
      | Tr_logger serverity message \<Rightarrow> ([severity_line serverity message], lg))"

text \<open>\<open>gen_id\<close> with the static counter.\<close>

definition gen_id :: "u64 \<Rightarrow> string \<times> u64" where
  "gen_id cnt = (''CONN:'' @ nat_text (unat cnt), cnt + 1)"

section \<open>Paths and numbers\<close>

lemma strip_separators_slash: "strip_separators (p @ ''/'') = strip_separators p"
  by (simp add: strip_separators_def)

lemma strip_separators_id: "p = [] \<or> last p \<noteq> CHR ''/'' \<Longrightarrow> strip_separators p = p"
  by (cases p rule: rev_cases) (auto simp: strip_separators_def)

lemma path_filename_append: "CHR ''/'' \<notin> set n \<Longrightarrow> path_filename (p @ CHR ''/'' # n) = n"
  by (simp add: path_filename_def takeWhile_append)

lemma parent_path_append:
  assumes "CHR ''/'' \<notin> set n" "p \<noteq> []" "last p \<noteq> CHR ''/''"
  shows "parent_path (p @ CHR ''/'' # n) = p"
proof -
  have "rev (dropWhile (\<lambda>c. c \<noteq> CHR ''/'') (rev (p @ CHR ''/'' # n))) = p @ ''/''"
    using assms(1) by (simp add: dropWhile_append)
  then show ?thesis
    using assms by (simp add: parent_path_def strip_separators_slash strip_separators_id)
qed

lemma stem_plain:
  assumes "CHR ''.'' \<notin> set f"
  shows "stem f = f"
proof -
  have no: "dropWhile (\<lambda>c. c \<noteq> CHR ''.'') (rev f) = []" using assms by (auto simp: dropWhile_eq_Nil_conv)
  show ?thesis unfolding stem_def Let_def no by simp
qed

lemma megabytes: "unat (n :: u64) < 2 ^ 54 \<Longrightarrow> unat (n * 1024) = unat n * 1024"
  by (simp add: unat_word_ariths)

lemma narrow_int_small: "unat n < 2 ^ 31 \<Longrightarrow> narrow_int n = uint n"
proof -
  assume "unat n < 2 ^ 31"
  then have n: "uint n < 2 ^ 31" by (simp only: uint_nat of_nat_less_numeral_power_cancel_iff)
  have "uint (ucast n :: u32) = take_bit 32 (uint n)" by (simp add: unsigned_ucast_eq)
  also have "\<dots> = uint n" using n by (intro take_bit_int_eq_self) simp_all
  finally have u: "uint (ucast n :: u32) = uint n" .
  have "- (2 ^ 31) \<le> uint n" by (rule order_trans [of _ 0]) simp_all
  then have "signed_take_bit 31 (uint n) = uint n" using n by (rule signed_take_bit_int_eq_self)
  then show ?thesis unfolding narrow_int_def sint_uint u by simp
qed

section \<open>Properties\<close>

text \<open>A server started by its absolute path looks for its configuration in the directory \<open>conf\<close>
beside the directory of the program, in the file named like the program.\<close>

theorem default_config_path:
  assumes "d \<noteq> []" "hd d = CHR ''/''" "last d \<noteq> CHR ''/''" "b \<noteq> []" "CHR ''/'' \<notin> set b" "n \<noteq> []"
    "CHR ''/'' \<notin> set n" "CHR ''.'' \<notin> set n"
  shows "getDefaultConfigPath canonical curdir (d @ ''/'' @ b @ ''/'' @ n) = d @ ''/conf/'' @ n @ ''.conf''"
proof -
  let ?bin = "(d @ CHR ''/'' # b) @ CHR ''/'' # n"
  have bin: "d @ ''/'' @ b @ ''/'' @ n = ?bin" by simp
  have "last (d @ CHR ''/'' # b) \<noteq> CHR ''/''" using assms(4,5) by (auto dest: last_in_set)
  then have "parent_path ?bin = d @ CHR ''/'' # b" by (intro parent_path_append assms) simp_all
  moreover have "parent_path (d @ CHR ''/'' # b) = d" by (intro parent_path_append assms)
  ultimately have parents: "parent_path (parent_path ?bin) = d" by simp
  have f: "path_filename ?bin = n" by (rule path_filename_append [OF assms(7)])
  have first: "first_char ?bin = CHR ''/''" using assms(1,2) by (cases d) (simp_all add: first_char_def)
  have conf: "path_append d ''conf'' = d @ ''/conf''" using assms(1,3) by (simp add: path_append_def)
  have "n \<noteq> [] \<and> hd n \<noteq> CHR ''/''" using assms(6,7) by (cases n) auto
  then have path: "path_append (d @ ''/conf'') n = (d @ ''/conf'') @ CHR ''/'' # n"
    by (simp add: path_append_def)
  have f': "path_filename ((d @ ''/conf'') @ CHR ''/'' # n) = n" by (rule path_filename_append [OF assms(7)])
  show ?thesis
    unfolding bin getDefaultConfigPath_def Let_def first replace_extension_def
    by (simp only: if_True simp_thms parents f conf path f' stem_plain [OF assms(8)]) simp
qed

lemma default_config_path_witness:
  "getDefaultConfigPath id [] ''/opt/relay/bin/nostr_server'' = ''/opt/relay/conf/nostr_server.conf''"
  using default_config_path [of "''/opt/relay''" "''bin''" "''nostr_server''" id "[]"] by simp

text \<open>C37: the server listens with TLS only when a certificate, its key and an address are configured,
both files could be read and the TLS context takes them; then it listens with TLS on exactly the
configured address, and without it never.\<close>

theorem tls_only_configured:
  assumes "read_cmd opts (getDefaultConfigPath (sl_canonical L) curdir argv0) = Config_path p"
    "sl_load L p = Inr file" "init_cfg L curdir argv0 opts = Some (Inr (target, cfg))" "run_server R cfg = Serving addrs d"
  shows "{x. (x, 1) \<in> set addrs} =
    (let chain = sl_path L file ''ssl'' ''cert_chain_file'' []; key = sl_path L file ''ssl'' ''priv_key_file'' [];
         addr = sl_string L file ''ssl'' ''listen'' ''localhost:10001''
     in if chain \<noteq> [] \<and> key \<noteq> [] \<and> addr \<noteq> []
        then {x. \<exists>c k xs. sl_read_file L chain = Inr c \<and> sl_read_file L key = Inr k \<and>
               rl_server_tls R (c, k) = None \<and> rl_lookup R addr = Inr xs \<and> x \<in> set xs}
        else {})"
proof -
  have cfg: "read_config L p file = Inr cfg"
    using assms(1-3) by (simp add: init_cfg_def split: sum.splits)
  obtain cert addr where cert: "read_certificate L file = Inr (cert, addr)" "cf_cert cfg = cert" "cf_ssl_listen_addr cfg = addr"
    using cfg by (auto simp: read_config_def Let_def split: sum.splits prod.splits)
  have listen: "listen_addresses R cfg = Inr addrs" and tls: "Option.bind cert (rl_server_tls R) = None"
    using assms(4) cert(2) by (auto simp: run_server_def split: sum.splits option.splits)
  show ?thesis
  proof (cases cert)
    case None
    then have "{x. (x, 1) \<in> set addrs} = {}"
      using listen cert(2) by (auto simp: listen_addresses_def split: sum.splits)
    then show ?thesis using cert(1) None by (auto simp: read_certificate_def Let_def split: if_splits sum.splits)
  next
    case (Some ck)
    then obtain c k where ck: "cert = Some (c, k)" by (cases ck) auto
    then obtain ys xs where xs: "rl_lookup R addr = Inr xs" "addrs = map (\<lambda>x. (x, 0)) ys @ map (\<lambda>x. (x, 1)) xs"
      using listen cert(2,3) by (auto simp: listen_addresses_def split: sum.splits)
    have "{x. (x, 1) \<in> set addrs} = set xs" unfolding xs(2) by auto
    then show ?thesis
      using cert(1) ck tls xs(1) by (auto simp: read_certificate_def Let_def split: if_splits sum.splits)
  qed
qed

text \<open>Whether the process serves and the status it leaves with tell the failures apart: status 1
for the command line, 2 for the file, 3 for anything else before the server runs; but once it tries to
run, every failure, an address in use or a database that does not open included, ends with 0.\<close>

theorem exit_status_tells:
  assumes "main_program L R curdir argv0 opts = (n, r)"
  shows "(n = 0 \<longleftrightarrow> r \<noteq> None \<or> init_cfg L curdir argv0 opts = None) \<and>
    (n \<noteq> 0 \<longrightarrow> (\<exists>e. n = exit_status e \<and>
       (init_cfg L curdir argv0 opts = Some (Inl e) \<or>
        (\<exists>target cfg. init_cfg L curdir argv0 opts = Some (Inr (target, cfg)) \<and> rl_context R (cf_threads cfg) = Some e))))"
proof -
  have status: "exit_status e \<noteq> 0" for e by (cases e) (simp_all add: exit_status_def)
  show ?thesis
  proof (cases "init_cfg L curdir argv0 opts")
    case None
    with assms show ?thesis by (simp add: main_program_def)
  next
    case (Some res)
    show ?thesis
    proof (cases res)
      case (Inl e)
      then show ?thesis using assms Some status [of e] by (auto simp: main_program_def)
    next
      case (Inr tc)
      obtain target cfg where tc: "tc = (target, cfg)" by fastforce
      show ?thesis
      proof (cases "rl_context R (cf_threads cfg)")
        case None
        then show ?thesis using assms Some Inr tc by (auto simp: main_program_def)
      next
        case (Some e)
        then show ?thesis
          using assms \<open>init_cfg L curdir argv0 opts = Some res\<close> Inr tc status [of e] by (auto simp: main_program_def)
      qed
    qed
  qed
qed

text \<open>The limits a connection of the started server obeys are the configured ones.\<close>

lemma configured_rate_limiter:
  assumes "e_options E = read_options L file" "unat (sl_uint L file ''options'' ''event_rate_window'' 60) < 2 ^ 31"
    "unat (sl_uint L file ''options'' ''event_rate_limit'' 6) < 2 ^ 31"
  shows "p_rate_limiter (new_peer E self url)
    = RateLimiter (word_of_int (uint (sl_uint L file ''options'' ''event_rate_window'' 60)))
        (word_of_int (uint (sl_uint L file ''options'' ''event_rate_limit'' 6)))"
  using assms(2,3) by (simp add: new_peer_def assms(1) read_options_def Let_def narrow_int_small)

text \<open>Without an entry: no proof of work, six events a minute, files of a megabyte, messages of 64 KB,
only known authors.\<close>

lemma default_options:
  assumes "\<And>n d. sl_uint L file ''options'' n d = d" "\<And>n d. sl_bool L file ''options'' n d = d"
  shows "read_options L file =
    \<lparr>opt_pow = 0, event_rate_window = 60, event_rate_limit = 6, attachment_max_size = 2 ^ 20,
     max_message_size = 2 ^ 16, read_only = False, whitelisting = True\<rparr>"
  by (simp add: read_options_def assms Let_def narrow_int_def)

lemma configured_sizes:
  assumes "unat (sl_uint L file ''options'' ''max_file_size_kb'' 1024) < 2 ^ 54"
  shows "unat (attachment_max_size (read_options L file))
    = 1024 * unat (sl_uint L file ''options'' ''max_file_size_kb'' 1024)"
  using megabytes [OF assms] by (simp add: read_options_def Let_def)

text \<open>The lines of the requests of a connection account for every byte, when each request is loaded
where the last one ended.\<close>

fun requests_log :: "(trace_request \<times> trace_request) list \<Rightarrow> logger \<Rightarrow> log_line list" where
  "requests_log [] lg = []"
| "requests_log ((loaded, finished) # rs) lg =
     (let lg = snd (trace Tr_load loaded lg); (lines, lg) = trace Tr_finish finished lg
      in lines @ requests_log rs lg)"

fun bytes_read :: "log_line \<Rightarrow> u64" where
  "bytes_read (Log_request _ _ _ _ r _) = r"
| "bytes_read _ = 0"

fun contiguous :: "u64 \<Rightarrow> (trace_request \<times> trace_request) list \<Rightarrow> u64 \<Rightarrow> bool" where
  "contiguous a [] b \<longleftrightarrow> a = b"
| "contiguous a ((loaded, finished) # rs) b \<longleftrightarrow> tr_read loaded = a \<and> contiguous (tr_read finished) rs b"

lemma log_accounts: "contiguous a rs b \<Longrightarrow> sum_list (map bytes_read (requests_log rs lg)) = b - a"
proof (induction rs arbitrary: a lg)
  case (Cons r rs)
  obtain loaded finished where r: "r = (loaded, finished)" by fastforce
  with Cons.prems have "tr_read loaded = a" "contiguous (tr_read finished) rs b" by simp_all
  with Cons.IH [OF this(2)] show ?case
    by (simp add: r trace_def finish_line_def Let_def)
qed simp

definition plain_libs :: "((string \<times> string \<times> string) list, string) start_libs" where
  "plain_libs =
     \<lparr>sl_load = (\<lambda>p. if p = ''/r/conf/s.conf'' then Inr [(''ssl'', ''cert_chain_file'', ''c.pem''), (''ssl'', ''priv_key_file'', ''k.pem'')]
        else Inl (ConfigLoadError p)),
      sl_string = (\<lambda>c s n d. case find (\<lambda>(a, b, v). a = s \<and> b = n) c of Some (_, _, v) \<Rightarrow> v | None \<Rightarrow> d),
      sl_uint = (\<lambda>c s n d. d), sl_bool = (\<lambda>c s n d. d),
      sl_path = (\<lambda>c s n d. case find (\<lambda>(a, b, v). a = s \<and> b = n) c of Some (_, _, v) \<Rightarrow> v | None \<Rightarrow> d),
      sl_log_level = (\<lambda>_. 3), sl_read_file = Inr, sl_canonical = id\<rparr>"

definition plain_run :: "(unit, string) run_libs" where
  "plain_run =
     \<lparr>rl_context = (\<lambda>_. None), rl_lookup = (\<lambda>a. Inr [a]), rl_accept = (\<lambda>_. None), rl_server_tls = (\<lambda>_. None),
      rl_open = (\<lambda>_. Inr ())\<rparr>"

lemma plain_start:
  "\<exists>target cfg. init_cfg plain_libs [] ''/r/bin/s'' [] = Some (Inr (target, cfg)) \<and>
     run_server plain_run cfg = Serving [(''localhost:10000'', 0), (''localhost:10001'', 1)] ()"
proof -
  have "getDefaultConfigPath id [] ''/r/bin/s'' = ''/r/conf/s.conf''"
    by code_simp
  then show ?thesis
    by (simp add: init_cfg_def plain_libs_def read_config_def read_certificate_def Let_def run_server_def
        listen_addresses_def plain_run_def)
qed

lemma tls_only_configured_witness:
  "{x. (x, 1) \<in> set [(''localhost:10000'', 0), (''localhost:10001'', 1 :: nat)]} = {''localhost:10001''}"
proof -
  obtain target cfg where run: "init_cfg plain_libs [] ''/r/bin/s'' [] = Some (Inr (target, cfg))"
    "run_server plain_run cfg = Serving [(''localhost:10000'', 0), (''localhost:10001'', 1)] ()"
    using plain_start by blast
  have "getDefaultConfigPath (sl_canonical plain_libs) [] ''/r/bin/s'' = ''/r/conf/s.conf''"
    unfolding plain_libs_def by code_simp
  then have "read_cmd [] (getDefaultConfigPath (sl_canonical plain_libs) [] ''/r/bin/s'') = Config_path ''/r/conf/s.conf''"
    by simp
  moreover have "sl_load plain_libs ''/r/conf/s.conf'' = Inr [(''ssl'', ''cert_chain_file'', ''c.pem''), (''ssl'', ''priv_key_file'', ''k.pem'')]"
    by (simp add: plain_libs_def)
  ultimately show ?thesis
    using tls_only_configured [OF _ _ run] by (fastforce simp: plain_libs_def plain_run_def)
qed

lemma exit_status_tells_witness:
  "\<exists>e. (1 :: nat) = exit_status e \<and> init_cfg plain_libs [] ''/r/bin/s'' [Opt_unknown] = Some (Inl e)"
  using exit_status_tells [of plain_libs plain_run "[]" "''/r/bin/s''" "[Opt_unknown]" 1 None]
  by (simp add: main_program_def init_cfg_def exit_status_def)

end
