(* ===== verification/Relay_Bot.thy ===== *)
theory Relay_Bot
  imports Start
begin

text \<open>
  \<^verbatim>\<open>src/src/nostr_server/relay_bot.h\<close> and \<^verbatim>\<open>relay_bot.cpp\<close>: a bot that answers private messages and
  keeps groups, accounts of their own that post what their members send them. The file is not part of
  the build and is written against an older interface, in which an event is a JSON document: what it
  calls and the repository does not have (the header \<^verbatim>\<open>event_tools.h\<close>, members of \<open>SignatureTools\<close>,
  the application and its database, the initialiser lists and \<open>trim\<close> of the libraries) is the record
  \<open>bot_ops\<close>. \<open>send_response\<close> is called with three arguments although it declares four: the missing
  one is an empty document.

  The lemmas: only those the configuration allows create groups; who is neither owner nor moderator of
  a group can only post, be answered and delete what mentions him; and a change of a list of users
  publishes the list as it was.
\<close>

section \<open>The libraries\<close>

datatype bot_exn =
    Bot_error string           \<comment> \<open>a \<open>std::exception\<close> with its text\<close>
  | Bot_undefined              \<comment> \<open>\<open>erase\<close> of the end of a vector\<close>

text \<open>The members of a filter the code sets.\<close>

record bot_filter =
  bf_kinds :: "nat list"
  bf_authors :: "string list"
  bf_tags :: "(char \<times> string) list"
  bf_since :: "int option"
  bf_ids :: "string list"

text \<open>\<open>bo_last\<close> is the last candidate of a search, \<open>None\<close> when nothing is found.\<close>

record ('j, 'd) bot_ops =
  bo_json :: "'j json_ops"
  bo_from_json :: "string \<Rightarrow> 'j option"
  bo_list :: "'j list \<Rightarrow> 'j"                        \<comment> \<open>\<open>{docdb::undefined, \<dots>}\<close>\<close>
  bo_trim :: "string \<Rightarrow> string"
  bo_find_tag_if :: "'j \<Rightarrow> ('j \<Rightarrow> bool) \<Rightarrow> 'j option"
  bo_create_event :: "nat \<Rightarrow> string \<Rightarrow> string list list \<Rightarrow> 'j"
  bo_sign :: "bytes \<Rightarrow> 'j \<Rightarrow> 'j"
  bo_calculate_pubkey :: "bytes \<Rightarrow> string"
  bo_decrypt :: "bytes \<Rightarrow> 'j \<Rightarrow> string option"
  bo_create_message :: "bytes \<Rightarrow> string \<Rightarrow> string \<Rightarrow> int \<Rightarrow> 'j \<Rightarrow> 'j option"
  bo_publish :: "'j \<Rightarrow> 'd \<Rightarrow> bot_exn + 'd"
  bo_find_replacable :: "'d \<Rightarrow> string \<Rightarrow> nat \<Rightarrow> string \<Rightarrow> docid"
  bo_storage_find :: "'d \<Rightarrow> docid \<Rightarrow> 'j option"
  bo_erase :: "docid \<Rightarrow> 'd \<Rightarrow> bot_exn + 'd"
  bo_last :: "'d \<Rightarrow> bot_filter \<Rightarrow> docid option"
  bo_is_home_user :: "'d \<Rightarrow> string \<Rightarrow> bool"

text \<open>What one message takes from its surroundings: the clock in seconds, a fresh private key with
its public key, and the indeterminate memory of the key decoders.\<close>

record bot_moment =
  bm_now :: int
  bm_new_key :: "bytes \<times> string"
  bm_mem :: "nat \<Rightarrow> u8"

section \<open>State\<close>

text \<open>\<open>bt_published\<close> collects the published events, oldest first. All objects are groups.\<close>

record ('j, 'd) bot =
  bt_cfg :: RelayBotConfig
  bt_pk :: bytes
  bt_public_key :: string
  bt_admin_public_key :: string
  bt_active :: bool
  bt_objects :: "(string \<times> bytes) list"
  bt_app :: 'd
  bt_published :: "'j list"

type_synonym ('j, 'd) bot_result = "bot_exn option \<times> ('j, 'd) bot"

definition bot_then :: "('j, 'd) bot_result \<Rightarrow> (('j, 'd) bot \<Rightarrow> ('j, 'd) bot_result) \<Rightarrow> ('j, 'd) bot_result" where
  "bot_then r k = (case r of (Some e, b) \<Rightarrow> (Some e, b) | (None, b) \<Rightarrow> k b)"

definition bot_publish :: "('j, 'd) bot_ops \<Rightarrow> 'j \<Rightarrow> ('j, 'd) bot \<Rightarrow> ('j, 'd) bot_result" where
  "bot_publish B ev b =
     (case bo_publish B ev (bt_app b) of
        Inl e \<Rightarrow> (Some e, b)
      | Inr d \<Rightarrow> (None, b\<lparr>bt_app := d, bt_published := bt_published b @ [ev]\<rparr>))"

text \<open>The constructor; \<open>key\<close> is the decoded private key.\<close>

definition new_bot ::
    "('j, 'd) bot_ops \<Rightarrow> bot_moment \<Rightarrow> 'd \<Rightarrow> (string \<times> bytes) list \<Rightarrow> RelayBotConfig \<Rightarrow> bot_exn + ('j, 'd) bot" where
  "new_bot B T d objects cfg =
     (let b = \<lparr>bt_cfg = cfg, bt_pk = [], bt_public_key = [], bt_admin_public_key = [], bt_active = False,
               bt_objects = objects, bt_app = d, bt_published = []\<rparr>
      in if rb_nsec cfg = [] then Inr b
         else case from_nsec (bm_mem T) (rb_nsec cfg) of
           Inl e \<Rightarrow> Inl (Bot_error ''bech32'')
         | Inr (ok, pk) \<Rightarrow>
             if \<not> ok then Inl (Bot_error ''Failed to decode relaybot's private key'')
             else let pub = bo_calculate_pubkey B pk in
               if pub = [] then Inl (Bot_error ''Failed to calculate relaybot's public key'')
               else case from_npub (bm_mem T) (rb_admin cfg) of
                 Inl e \<Rightarrow> Inl (Bot_error ''bech32'')
               | Inr admin \<Rightarrow>
                   Inr (b\<lparr>bt_pk := pk, bt_public_key := pub, bt_active := True, bt_admin_public_key := admin\<rparr>))"

section \<open>Reading events\<close>

definition tag_text :: "('j, 'd) bot_ops \<Rightarrow> 'j \<Rightarrow> nat \<Rightarrow> string" where
  "tag_text B tag i = j_text (bo_json B) (j_item (bo_json B) tag i)"

definition event_tags :: "('j, 'd) bot_ops \<Rightarrow> 'j \<Rightarrow> 'j list" where
  "event_tags B ev = j_array (bo_json B) (j_field (bo_json B) ev ''tags'')"

definition event_kind :: "('j, 'd) bot_ops \<Rightarrow> 'j \<Rightarrow> u32" where
  "event_kind B ev = j_uint (bo_json B) (j_field (bo_json B) ev ''kind'')"

definition event_text :: "('j, 'd) bot_ops \<Rightarrow> 'j \<Rightarrow> string \<Rightarrow> string" where
  "event_text B ev name = j_text (bo_json B) (j_field (bo_json B) ev name)"

definition find_object_pubkey :: "('j, 'd) bot_ops \<Rightarrow> 'j \<Rightarrow> ('j, 'd) bot \<Rightarrow> string" where
  "find_object_pubkey B ev b =
     (case bo_find_tag_if B ev (\<lambda>tag.
             if tag_text B tag 0 = ''p''
             then tag_text B tag 1 = bt_public_key b \<or> map_of (bt_objects b) (tag_text B tag 1) \<noteq> None
             else False) of
        Some tag \<Rightarrow> tag_text B tag 1
      | None \<Rightarrow> [])"

text \<open>\<open>None\<close> when a second \<open>p\<close> tag is met.\<close>

fun sole_recipient :: "('j, 'd) bot_ops \<Rightarrow> 'j list \<Rightarrow> string \<Rightarrow> string option" where
  "sole_recipient B [] found = Some found"
| "sole_recipient B (x # xs) found =
     (if tag_text B x 0 = ''p'' then
        (if found = [] then sole_recipient B xs (tag_text B x 1) else None)
      else sole_recipient B xs found)"

definition get_kind4_sender :: "('j, 'd) bot_ops \<Rightarrow> 'j \<Rightarrow> string" where
  "get_kind4_sender B ev =
     (if event_kind B ev = 4
      then (case sole_recipient B (event_tags B ev) [] of Some found \<Rightarrow> found | None \<Rightarrow> [])
      else [])"

definition get_user_list ::
    "('j, 'd) bot_ops \<Rightarrow> 'd \<Rightarrow> string \<Rightarrow> nat \<Rightarrow> string \<Rightarrow> string list" where
  "get_user_list B d pubkey kind category =
     (let docid = bo_find_replacable B d pubkey kind category in
      if docid \<noteq> 0 then
        (case bo_storage_find B d docid of
           Some ev \<Rightarrow> map (\<lambda>item. tag_text B item 1) (filter (\<lambda>item. tag_text B item 0 = ''p'') (event_tags B ev))
         | None \<Rightarrow> [])
      else [])"

section \<open>Answers and changes\<close>

definition send_response ::
    "('j, 'd) bot_ops \<Rightarrow> bot_moment \<Rightarrow> bytes \<Rightarrow> string \<Rightarrow> string \<Rightarrow> 'j \<Rightarrow> ('j, 'd) bot \<Rightarrow> ('j, 'd) bot_result" where
  "send_response B T pk target response skelet b =
     (case bo_create_message B pk target response (bm_now T) skelet of
        Some ev \<Rightarrow> bot_publish B ev b
      | None \<Rightarrow> (None, b))"

abbreviation no_skelet :: "('j, 'd) bot_ops \<Rightarrow> 'j" where
  "no_skelet B \<equiv> mk_object (bo_json B) []"

text \<open>\<open>docinfo\<close> is the stored document, an empty one when there is none.\<close>

definition stored_or_empty :: "('j, 'd) bot_ops \<Rightarrow> 'd \<Rightarrow> string \<Rightarrow> nat \<Rightarrow> string \<Rightarrow> 'j" where
  "stored_or_empty B d pubkey kind category =
     (case bo_storage_find B d (bo_find_replacable B d pubkey kind category) of
        Some ev \<Rightarrow> ev
      | None \<Rightarrow> mk_object (bo_json B) [])"

definition change_profile ::
    "('j, 'd) bot_ops \<Rightarrow> bytes \<Rightarrow> string \<Rightarrow> string \<Rightarrow> string \<Rightarrow> ('j, 'd) bot \<Rightarrow> ('j, 'd) bot_result" where
  "change_profile B pk pubkey key v b =
     (let ev = stored_or_empty B (bt_app b) pubkey 0 [];
          profile = (case bo_from_json B (event_text B ev ''content'') of
                       Some p \<Rightarrow> p
                     | None \<Rightarrow> mk_object (bo_json B) []);
          profile = j_set (bo_json B) profile key (mk_string (bo_json B) v);
          newev = bo_create_event B 0 (j_to_json (bo_json B) profile) []
      in bot_publish B (bo_sign B pk newev) b)"

text \<open>The position of \<open>iter\<close>, the length of the list for \<open>end()\<close>.\<close>

definition user_position :: "('j, 'd) bot_ops \<Rightarrow> string \<Rightarrow> 'j list \<Rightarrow> nat" where
  "user_position B upub tags =
     length (takeWhile (\<lambda>t. \<not> (tag_text B t 0 = ''p'' \<and> tag_text B t 1 = upub)) tags)"

definition mod_userlist ::
    "('j, 'd) bot_ops \<Rightarrow> bot_moment \<Rightarrow> bytes \<Rightarrow> string \<Rightarrow> nat \<Rightarrow> string \<Rightarrow> string \<Rightarrow> bool
       \<Rightarrow> ('j, 'd) bot \<Rightarrow> ('j, 'd) bot_result" where
  "mod_userlist B T pk pubkey kind cat npub add b =
     (case from_npub (bm_mem T) npub of
        Inl e \<Rightarrow> (Some (Bot_error ''bech32''), b)
      | Inr upub \<Rightarrow>
          if upub = [] then (Some (Bot_error ''Invalid npub''), b)
          else
            let ev = stored_or_empty B (bt_app b) pubkey kind cat;
                J = bo_json B;
                tags = event_tags B ev;
                iter = user_position B upub tags;
                changed = (if iter = length tags \<and> add
                             then Some (tags @ [mk_array J [mk_string J ''p'', mk_string J upub]])
                           else if \<not> add
                             then (if iter = length tags then None else Some (take iter tags @ drop (iter + 1) tags))
                           else Some tags)
            in case changed of
                 None \<Rightarrow> (Some Bot_undefined, b)
               | Some tags \<Rightarrow>
                   let newev = j_set J (bo_create_event B kind [] [[''d'', cat]]) ''tags'' (mk_array J tags)
                   in bot_publish B (bo_sign B pk ev) b)"

definition group_filter ::
    "bot_moment \<Rightarrow> string \<Rightarrow> string \<Rightarrow> string \<Rightarrow> bool \<Rightarrow> bot_filter" where
  "group_filter T group_pubkey sender nt is_moderator =
     \<lparr>bf_kinds = [1], bf_authors = [group_pubkey],
      bf_tags = (if \<not> is_moderator then [(CHR ''p'', sender)] else []),
      bf_since = (if nt = [] then Some (bm_now T - 24 * 3600) else None),
      bf_ids = (if nt = [] then [] else [nt])\<rparr>"

text \<open>The identifier of the deleted post, empty when there is none.\<close>

definition delete_group_post ::
    "('j, 'd) bot_ops \<Rightarrow> bot_moment \<Rightarrow> bytes \<Rightarrow> string \<Rightarrow> string \<Rightarrow> string \<Rightarrow> bool
       \<Rightarrow> ('j, 'd) bot \<Rightarrow> (bot_exn + string) \<times> ('j, 'd) bot" where
  "delete_group_post B T pk group_pubkey sender noteid is_moderator b =
     (let nt = (case from_bech32 (bm_mem T) noteid ''note'' of Inl e \<Rightarrow> [] | Inr s \<Rightarrow> s);
          is_moderator = (if nt = [] then False else is_moderator)
      in case bo_last B (bt_app b) (group_filter T group_pubkey sender nt is_moderator) of
           None \<Rightarrow> (Inr [], b)
         | Some i \<Rightarrow>
             (case bo_storage_find B (bt_app b) i of
                None \<Rightarrow> (Inr [], b)
              | Some doc \<Rightarrow>
                  let ids = event_text B doc ''id'';
                      ev = bo_sign B pk (bo_create_event B 5 [] [[''e'', ids]])
                  in case bot_publish B ev b of
                       (Some e, b) \<Rightarrow> (Inl e, b)
                     | (None, b) \<Rightarrow>
                         (case bo_erase B i (bt_app b) of
                            Inl e \<Rightarrow> (Inl e, b)
                          | Inr d \<Rightarrow> (Inr ids, b\<lparr>bt_app := d\<rparr>))))"

section \<open>Commands\<close>

abbreviation say ::
    "('j, 'd) bot_ops \<Rightarrow> bot_moment \<Rightarrow> bytes \<Rightarrow> string \<Rightarrow> string \<Rightarrow> ('j, 'd) bot \<Rightarrow> ('j, 'd) bot_result" where
  "say B T pk target response b \<equiv> send_response B T pk target response (no_skelet B) b"

definition relaybot_help :: string where
  "relaybot_help =
     ''/ping <message>            - just replies with message (for test)'' @ [CHR 0x0A] @
     ''/create_group              - create new group'' @ [CHR 0x0A] @
     ''/set_name <text>           - set relaybot's name (admin)'' @ [CHR 0x0A] @
     ''/set_description <text>    - set relaybot's description (admin)'' @ [CHR 0x0A] @
     ''/delete <pubkey>           - delete relaybot's object (admin)'' @ [CHR 0x0A] @
     ''/compact                   - compact database (admin)'' @ [CHR 0x0A]"

definition may_create_group :: "('j, 'd) bot_ops \<Rightarrow> string \<Rightarrow> ('j, 'd) bot \<Rightarrow> bool" where
  "may_create_group B sender b \<longleftrightarrow>
     rb_groups (bt_cfg b) = ''on'' \<or>
     (rb_groups (bt_cfg b) = ''local'' \<and> bo_is_home_user B (bt_app b) sender) \<or>
     sender = bt_admin_public_key b"

definition create_group ::
    "('j, 'd) bot_ops \<Rightarrow> bot_moment \<Rightarrow> string \<Rightarrow> ('j, 'd) bot \<Rightarrow> ('j, 'd) bot_result" where
  "create_group B T sender b =
     (if rb_this_relay_url (bt_cfg b) = [] then say B T (bt_pk b) sender ''error: not properly configured'' b
      else
        let J = bo_json B; (key, s) = bm_new_key T;
            response = ''Group created: #[0]. '' @ [CHR 0x0A, CHR 0x0A] @
              ''To configure group, post commands as private messages to the account of the group'';
            kind10002 = bo_create_event B 10002 [] [[''r'', rb_this_relay_url (bt_cfg b)]];
            kind30000 = bo_create_event B 30000 [] [[''d'', ''owner''], [''p'', sender]];
            mention = mk_array J [mk_string J ''p'', mk_string J s]
        in bot_then (bot_publish B (bo_sign B key kind10002) b) (\<lambda>b.
           bot_then (bot_publish B (bo_sign B key kind30000) b) (\<lambda>b.
             send_response B T (bt_pk b) sender response
               (mk_object J [(''tags'', mk_array J [mention])])
               (b\<lparr>bt_objects := (s, key) # bt_objects b\<rparr>))))"

definition process_relaybot_command ::
    "('j, 'd) bot_ops \<Rightarrow> bot_moment \<Rightarrow> string \<Rightarrow> string \<Rightarrow> ('j, 'd) bot \<Rightarrow> ('j, 'd) bot_result" where
  "process_relaybot_command B T command sender b =
     (let cmd = bo_trim B command in
      if take 6 cmd = ''/ping '' then say B T (bt_pk b) sender (drop 6 cmd) b
      else if cmd = ''/create_group'' then
        (if may_create_group B sender b then create_group B T sender b
         else say B T (bt_pk b) sender ''restricted'' b)
      else if cmd = ''/help'' then say B T (bt_pk b) sender relaybot_help b
      else say B T (bt_pk b) sender ''Hi, I am just a bot. Type '/help' for commands'' b)"

text \<open>\<open>line >> c\<close> and \<open>getline(line, a)\<close>: the first word, and the rest of the line.\<close>

definition split_command :: "string \<Rightarrow> string \<times> string" where
  "split_command line =
     (let s = dropWhile c_isspace line; c = takeWhile (\<lambda>x. \<not> c_isspace x) s
      in (c, takeWhile (\<lambda>x. x \<noteq> CHR 0x0A) (drop (length c) s)))"

definition group_help :: string where
  "group_help =
     ''/set_name <name>'' @ [CHR 0x0A] @ ''/set_description <description>'' @ [CHR 0x0A] @
     ''/add_moderator <npub user>'' @ [CHR 0x0A] @ ''/kick_moderator <npub user>'' @ [CHR 0x0A] @
     ''/ban <npub user>'' @ [CHR 0x0A] @ ''/unban <npub user>'' @ [CHR 0x0A]"

text \<open>A command of an owner or moderator; \<open>None\<close> when there is no such command.\<close>

definition group_admin_command ::
    "('j, 'd) bot_ops \<Rightarrow> bot_moment \<Rightarrow> bytes \<Rightarrow> string \<Rightarrow> string \<Rightarrow> string \<Rightarrow> ('j, 'd) bot \<Rightarrow> ('j, 'd) bot_result option" where
  "group_admin_command B T pk pubkey c a b =
     (if c = ''set_name'' then Some (change_profile B pk pubkey ''name'' a b)
      else if c = ''set_description'' then Some (change_profile B pk pubkey ''description'' a b)
      else if c = ''add_moderator'' then Some (mod_userlist B T pk pubkey 30000 ''moderator'' a True b)
      else if c = ''kick_moderator'' then Some (mod_userlist B T pk pubkey 30000 ''moderator'' a False b)
      else if c = ''ban'' then Some (mod_userlist B T pk pubkey 10000 [] a True b)
      else if c = ''unban'' then Some (mod_userlist B T pk pubkey 10000 [] a False b)
      else None)"

definition group_post ::
    "('j, 'd) bot_ops \<Rightarrow> bot_moment \<Rightarrow> bytes \<Rightarrow> string \<Rightarrow> string \<Rightarrow> ('j, 'd) bot \<Rightarrow> ('j, 'd) bot_result" where
  "group_post B T pk command sender b =
     (let J = bo_json B;
          post = bo_sign B pk (mk_object J
            [(''kind'', mk_int J 1), (''content'', mk_string J (''#[0]:'' @ command)),
             (''tags'', bo_list B [mk_array J [mk_string J ''p'', mk_string J sender]])]);
          ids = j_field J post ''id''
      in bot_then
           (send_response B T pk sender
              (''Posted #[0].'' @ [CHR 0x0A, CHR 0x0A] @ ''Type /delete to delete your last post from the group'')
              (mk_object J [(''tags'', bo_list B [mk_array J [mk_string J ''e'', ids]])]) b)
           (bot_publish B post))"

text \<open>The body of the \<open>try\<close> block.\<close>

definition group_command_body ::
    "('j, 'd) bot_ops \<Rightarrow> bot_moment \<Rightarrow> bytes \<Rightarrow> string \<Rightarrow> string \<Rightarrow> ('j, 'd) bot \<Rightarrow> ('j, 'd) bot_result" where
  "group_command_body B T pk command sender b =
     (let pubkey = bo_calculate_pubkey B pk;
          banlist = get_user_list B (bt_app b) pubkey 10000 [];
          admins = get_user_list B (bt_app b) pubkey 30000 ''owner'';
          moderators = get_user_list B (bt_app b) pubkey 30000 ''moderator'';
          is_admin = (sender \<in> set admins);
          is_moderator = (sender \<in> set moderators);
          is_banned = (sender \<in> set banlist);
          cmd = bo_trim B command
      in if cmd = [] then (None, b)
         else if hd cmd = CHR ''/'' then
           (let (c, a) = split_command (tl cmd); a = bo_trim B a in
            if c = ''delete'' then
              (case delete_group_post B T pk pubkey sender a (is_moderator \<or> is_admin) b of
                 (Inl e, b) \<Rightarrow> (Some e, b)
               | (Inr del, b) \<Rightarrow>
                   if del = [] then say B T pk sender ''Nothing found'' b
                   else send_response B T pk sender ''OK, #[0] deleted'' (bo_create_event B 0 [] [[''e'', del]]) b)
            else if is_admin \<or> is_moderator then
              (if c = ''help'' then say B T pk sender group_help b
               else case group_admin_command B T pk pubkey c a b of
                 None \<Rightarrow> say B T pk sender ''Unknown command'' b
               | Some r \<Rightarrow> bot_then r (say B T pk sender ''OK''))
            else say B T pk sender ''Access denied!'' b)
         else if is_banned then say B T pk sender ''You are banned!'' b
         else group_post B T pk command sender b)"

definition process_group_command ::
    "('j, 'd) bot_ops \<Rightarrow> bot_moment \<Rightarrow> bytes \<Rightarrow> string \<Rightarrow> string \<Rightarrow> ('j, 'd) bot \<Rightarrow> ('j, 'd) bot_result" where
  "process_group_command B T pk command sender b =
     (case group_command_body B T pk command sender b of
        (Some (Bot_error msg), b) \<Rightarrow> say B T pk sender (''Error: '' @ msg) b
      | r \<Rightarrow> r)"

section \<open>Messages\<close>

definition process_message ::
    "('j, 'd) bot_ops \<Rightarrow> bot_moment \<Rightarrow> string \<Rightarrow> 'j \<Rightarrow> ('j, 'd) bot \<Rightarrow> ('j, 'd) bot_result" where
  "process_message B T target ev b =
     (let sender = event_text B ev ''pubkey'' in
      if target = bt_public_key b then
        (case bo_decrypt B (bt_pk b) ev of
           Some msg \<Rightarrow> process_relaybot_command B T msg sender b
         | None \<Rightarrow> (None, b))
      else
        (case map_of (bt_objects b) target of
           Some pk \<Rightarrow>
             (case bo_decrypt B pk ev of
                Some msg \<Rightarrow> process_group_command B T pk msg sender b
              | None \<Rightarrow> (None, b))
         | None \<Rightarrow> (None, b)))"

text \<open>One event of the publisher; mentions are ignored (\<open>process_mention\<close> is empty).\<close>

definition bot_event :: "('j, 'd) bot_ops \<Rightarrow> bot_moment \<Rightarrow> 'j \<Rightarrow> ('j, 'd) bot \<Rightarrow> ('j, 'd) bot_result" where
  "bot_event B T ev b =
     (let object = find_object_pubkey B ev b in
      if object \<noteq> [] \<and> event_kind B ev = 4 then process_message B T object ev b else (None, b))"

fun run_bot :: "('j, 'd) bot_ops \<Rightarrow> (bot_moment \<times> 'j) list \<Rightarrow> ('j, 'd) bot \<Rightarrow> ('j, 'd) bot_result" where
  "run_bot B [] b = (None, b)"
| "run_bot B ((T, ev) # evs) b =
     (if \<not> bt_active b then (None, b) else bot_then (bot_event B T ev b) (run_bot B evs))"

section \<open>What is published\<close>

text \<open>The step published events that satisfy \<open>P\<close> and kept what the bot knows.\<close>

definition said :: "('j \<Rightarrow> bool) \<Rightarrow> ('j, 'd) bot \<Rightarrow> ('j, 'd) bot \<Rightarrow> bool" where
  "said P b b' \<longleftrightarrow>
     bt_objects b' = bt_objects b \<and> bt_cfg b' = bt_cfg b \<and> bt_pk b' = bt_pk b \<and>
     bt_public_key b' = bt_public_key b \<and> bt_admin_public_key b' = bt_admin_public_key b \<and>
     (\<exists>evs. bt_published b' = bt_published b @ evs \<and> list_all P evs)"

lemma said_refl [simp]: "said P b b"
  by (simp add: said_def)

lemma said_trans: "said P a b \<Longrightarrow> said P b c \<Longrightarrow> said P a c"
  unfolding said_def by auto

lemma said_publish: "bot_publish B ev b = (e, b') \<Longrightarrow> P ev \<Longrightarrow> said P b b'"
  by (auto simp: bot_publish_def said_def split: sum.splits)

lemma said_app [simp]: "said P b (b\<lparr>bt_app := d\<rparr>)"
  by (simp add: said_def)

lemma said_then:
  assumes "bot_then r k = (e, c)" "\<And>e b. r = (e, b) \<Longrightarrow> said P a b" "\<And>e b c. k b = (e, c) \<Longrightarrow> said P b c"
  shows "said P a c"
proof -
  obtain e' b where r: "r = (e', b)" by fastforce
  with assms(2) have first: "said P a b" by blast
  show ?thesis
  proof (cases e')
    case None
    then have "k b = (e, c)" using assms(1) r by (simp add: bot_then_def)
    then show ?thesis using first assms(3) said_trans by blast
  next
    case (Some x)
    then show ?thesis using assms(1) r first by (simp add: bot_then_def)
  qed
qed

text \<open>An answer to the sender.\<close>

definition answers :: "('j, 'd) bot_ops \<Rightarrow> bot_moment \<Rightarrow> bytes \<Rightarrow> string \<Rightarrow> 'j \<Rightarrow> bool" where
  "answers B T pk sender ev \<longleftrightarrow> (\<exists>response skelet. bo_create_message B pk sender response (bm_now T) skelet = Some ev)"

lemma said_response:
  "send_response B T pk sender response skelet b = (e, b') \<Longrightarrow> (\<And>ev. answers B T pk sender ev \<Longrightarrow> P ev) \<Longrightarrow> said P b b'"
  unfolding send_response_def answers_def
  by (auto split: option.splits dest: said_publish)

text \<open>What a message of someone without rights in the group may bring about: answers to him, his post,
and the deletion of a post of the group that mentions him.\<close>

definition own_business ::
    "('j, 'd) bot_ops \<Rightarrow> bot_moment \<Rightarrow> bytes \<Rightarrow> string \<Rightarrow> string \<Rightarrow> 'd \<Rightarrow> 'j \<Rightarrow> bool" where
  "own_business B T pk command sender d ev \<longleftrightarrow>
     answers B T pk sender ev \<or>
     ev = bo_sign B pk (mk_object (bo_json B)
       [(''kind'', mk_int (bo_json B) 1), (''content'', mk_string (bo_json B) (''#[0]:'' @ command)),
        (''tags'', bo_list B [mk_array (bo_json B) [mk_string (bo_json B) ''p'', mk_string (bo_json B) sender]])]) \<or>
     (\<exists>nt i doc. bo_last B d (group_filter T (bo_calculate_pubkey B pk) sender nt False) = Some i \<and>
        bo_storage_find B d i = Some doc \<and>
        ev = bo_sign B pk (bo_create_event B 5 [] [[''e'', event_text B doc ''id'']]))"

lemma answers_own: "answers B T pk sender ev \<Longrightarrow> own_business B T pk command sender d ev"
  by (simp add: own_business_def)

lemma delete_said:
  assumes "delete_group_post B T pk (bo_calculate_pubkey B pk) sender noteid False b = (r, b')"
  shows "said (own_business B T pk command sender (bt_app b)) b b'"
proof -
  let ?P = "own_business B T pk command sender (bt_app b)"
  let ?nt = "case from_bech32 (bm_mem T) noteid ''note'' of Inl e \<Rightarrow> [] | Inr s \<Rightarrow> s"
  let ?f = "group_filter T (bo_calculate_pubkey B pk) sender ?nt False"
  show ?thesis
  proof (cases "Option.bind (bo_last B (bt_app b) ?f) (bo_storage_find B (bt_app b))")
    case None
    then have "b' = b" using assms by (auto simp: delete_group_post_def Let_def split: option.splits)
    then show ?thesis by simp
  next
    case (Some doc)
    then obtain i where i: "bo_last B (bt_app b) ?f = Some i" "bo_storage_find B (bt_app b) i = Some doc"
      by (auto simp: bind_eq_Some_conv)
    let ?ev = "bo_sign B pk (bo_create_event B 5 [] [[''e'', event_text B doc ''id'']])"
    have "?P ?ev" unfolding own_business_def using i by blast
    obtain e c where pub: "bot_publish B ?ev b = (e, c)" by fastforce
    then have "said ?P b c" using \<open>?P ?ev\<close> by (rule said_publish)
    moreover have "said ?P c b'"
      using assms i pub by (auto simp: delete_group_post_def Let_def split: option.splits sum.splits)
    ultimately show ?thesis by (rule said_trans)
  qed
qed

lemma group_body_said:
  assumes "group_command_body B T pk command sender b = (e, b')"
    "sender \<notin> set (get_user_list B (bt_app b) (bo_calculate_pubkey B pk) 30000 ''owner'')"
    "sender \<notin> set (get_user_list B (bt_app b) (bo_calculate_pubkey B pk) 30000 ''moderator'')"
  shows "said (own_business B T pk command sender (bt_app b)) b b'"
proof -
  let ?P = "own_business B T pk command sender (bt_app b)"
  have post: "said ?P b b'" if "group_post B T pk command sender b = (e, b')"
    using that unfolding group_post_def Let_def
    by (elim said_then) (auto elim!: said_response said_publish intro: answers_own simp: own_business_def)
  have del: "said ?P b b'"
    if run: "(case delete_group_post B T pk (bo_calculate_pubkey B pk) sender a False b of
               (Inl e, b) \<Rightarrow> (Some e, b)
             | (Inr del, b) \<Rightarrow>
                 if del = [] then say B T pk sender ''Nothing found'' b
                 else send_response B T pk sender ''OK, #[0] deleted'' (bo_create_event B 0 [] [[''e'', del]]) b) = (e, b')" for a
  proof -
    obtain r c where d: "delete_group_post B T pk (bo_calculate_pubkey B pk) sender a False b = (r, c)" by fastforce
    have "said ?P c b'"
      using run d by (auto split: sum.splits if_splits elim!: said_response intro: answers_own)
    then show ?thesis using delete_said [OF d] said_trans by blast
  qed
  obtain c a where ca: "split_command (tl (bo_trim B command)) = (c, a)" by fastforce
  have rights: "sender \<in> set (get_user_list B (bt_app b) (bo_calculate_pubkey B pk) 30000 ''owner'') \<longleftrightarrow> False"
    "sender \<in> set (get_user_list B (bt_app b) (bo_calculate_pubkey B pk) 30000 ''moderator'') \<longleftrightarrow> False"
    using assms(2,3) by simp_all
  show ?thesis
    using assms(1) unfolding group_command_body_def Let_def rights simp_thms ca prod.case
    by (auto split: if_splits elim!: said_response post del intro: answers_own)
qed

lemma said_weaken: "said P b b' \<Longrightarrow> said (\<lambda>_. True) b b'"
  by (auto simp: said_def list_all_iff)

lemma said_any_response: "send_response B T pk sender response skelet b = (e, b') \<Longrightarrow> said (\<lambda>_. True) b b'"
  by (erule said_response) simp

lemma admin_command_said: "group_admin_command B T pk pubkey c a b = Some (e, b') \<Longrightarrow> said (\<lambda>_. True) b b'"
  by (auto simp: group_admin_command_def change_profile_def mod_userlist_def Let_def
      split: if_splits sum.splits option.splits elim!: said_publish)

lemma delete_any: "delete_group_post B T pk pubkey sender noteid m b = (r, b') \<Longrightarrow> said (\<lambda>_. True) b b'"
  unfolding delete_group_post_def Let_def
  by (auto split: option.splits sum.splits prod.splits intro: said_trans elim!: said_publish)

lemma group_command_said:
  assumes "process_group_command B T pk command sender b = (e, b')"
  shows "said (\<lambda>_. True) b b'"
proof -
  let ?S = "said (\<lambda>_. True)"
  have post: "?S b c" if "group_post B T pk command sender b = (e, c)" for e c
    using that unfolding group_post_def Let_def
    by (elim said_then) (auto elim!: said_any_response said_publish)
  have del: "?S b c"
    if "(case delete_group_post B T pk p sender a m b of
           (Inl e, b) \<Rightarrow> (Some e, b)
         | (Inr del, b) \<Rightarrow>
             if del = [] then say B T pk sender ''Nothing found'' b
             else send_response B T pk sender ''OK, #[0] deleted'' (bo_create_event B 0 [] [[''e'', del]]) b) = (e, c)" for p a m e c
    using that
    by (auto split: prod.splits sum.splits if_splits dest!: delete_any said_any_response elim: said_trans)
  have admin: "?S b c"
    if "(case group_admin_command B T pk p w a b of
           None \<Rightarrow> say B T pk sender ''Unknown command'' b
         | Some r \<Rightarrow> bot_then r (say B T pk sender ''OK'')) = (e, c)" for p w a e c
    using that
    by (auto split: option.splits elim!: said_any_response said_then dest: admin_command_said)
  obtain e' c where body: "group_command_body B T pk command sender b = (e', c)" by fastforce
  obtain w a where wa: "split_command (tl (bo_trim B command)) = (w, a)" by fastforce
  have "?S b c"
    using body unfolding group_command_body_def Let_def wa prod.case
    by (auto split: if_splits elim!: said_any_response post del admin)
  moreover have "?S c b'"
    using assms body unfolding process_group_command_def
    by (auto split: option.splits bot_exn.splits elim!: said_any_response)
  ultimately show ?thesis by (rule said_trans)
qed

section \<open>Groups\<close>

text \<open>What every step keeps, and the one group it may add.\<close>

definition same_bot :: "('j, 'd) bot \<Rightarrow> ('j, 'd) bot \<Rightarrow> bool" where
  "same_bot b b' \<longleftrightarrow> bt_cfg b' = bt_cfg b \<and> bt_admin_public_key b' = bt_admin_public_key b"

definition new_group :: "bot_moment \<Rightarrow> ('j, 'd) bot \<Rightarrow> ('j, 'd) bot \<Rightarrow> bool" where
  "new_group T b b' \<longleftrightarrow> bt_objects b' = (snd (bm_new_key T), fst (bm_new_key T)) # bt_objects b"

lemma said_same: "said P b b' \<Longrightarrow> same_bot b b' \<and> bt_objects b' = bt_objects b"
  by (simp add: said_def same_bot_def)

lemma same_bot_refl [simp]: "same_bot b b"
  by (simp add: same_bot_def)

lemma group_command_same:
  "process_group_command B T pk command sender b = (e, b') \<Longrightarrow> same_bot b b' \<and> bt_objects b' = bt_objects b"
  by (rule said_same [OF group_command_said])

lemma create_group_adds:
  assumes "create_group B T sender b = (e, b')"
  shows "same_bot b b' \<and> (bt_objects b' = bt_objects b \<or> new_group T b b')"
proof (cases "rb_this_relay_url (bt_cfg b) = []")
  case True
  then show ?thesis using assms by (auto simp: create_group_def dest: said_any_response said_same)
next
  case False
  obtain key s where key: "bm_new_key T = (key, s)" by fastforce
  let ?k1 = "bo_sign B key (bo_create_event B 10002 [] [[''r'', rb_this_relay_url (bt_cfg b)]])"
  let ?k2 = "bo_sign B key (bo_create_event B 30000 [] [[''d'', ''owner''], [''p'', sender]])"
  obtain e1 b1 e2 b2 where run: "bot_publish B ?k1 b = (e1, b1)" "bot_publish B ?k2 b1 = (e2, b2)" by fastforce
  have first: "same_bot b b1 \<and> bt_objects b1 = bt_objects b" "same_bot b1 b2 \<and> bt_objects b2 = bt_objects b1"
    using said_publish [OF run(1), of "\<lambda>_. True"] said_publish [OF run(2), of "\<lambda>_. True"] by (auto dest: said_same)
  show ?thesis
    using assms False run first key
    by (auto simp: create_group_def bot_then_def Let_def new_group_def same_bot_def split: option.splits
        dest!: said_any_response said_same)
qed

lemma bot_event_groups:
  assumes "bot_event B T ev b = (e, b')"
  shows "same_bot b b' \<and> (bt_objects b' = bt_objects b \<or>
    new_group T b b' \<and> may_create_group B (event_text B ev ''pubkey'') b)"
proof -
  have command: "same_bot b b' \<and> (bt_objects b' = bt_objects b \<or> new_group T b b' \<and> may_create_group B sender b)"
    if "process_relaybot_command B T msg sender b = (e, b')" for msg sender
    using that unfolding process_relaybot_command_def Let_def
    by (auto split: if_splits dest: create_group_adds said_any_response said_same)
  show ?thesis
    using assms unfolding bot_event_def process_message_def Let_def
    by (auto split: if_splits option.splits dest: command group_command_same)
qed

section \<open>Properties\<close>


text \<open>A ban, or any other change of a list, publishes the document that was stored, not the changed one.\<close>

lemma list_change_lost:
  "mod_userlist B T pk pubkey kind cat npub add b = (None, b') \<Longrightarrow>
   bt_published b' = bt_published b @ [bo_sign B pk (stored_or_empty B (bt_app b) pubkey kind cat)]"
  by (auto simp: mod_userlist_def Let_def bot_publish_def split: sum.splits if_splits)

lemma absent_user_removed:
  assumes "from_npub (bm_mem T) npub = Inr upub" "upub \<noteq> []"
    "list_all (\<lambda>t. \<not> (tag_text B t 0 = ''p'' \<and> tag_text B t 1 = upub)) (event_tags B (stored_or_empty B (bt_app b) pubkey kind cat))"
  shows "mod_userlist B T pk pubkey kind cat npub False b = (Some Bot_undefined, b)"
proof -
  have "user_position B upub (event_tags B (stored_or_empty B (bt_app b) pubkey kind cat))
      = length (event_tags B (stored_or_empty B (bt_app b) pubkey kind cat))"
    using assms(3) by (simp add: user_position_def list_all_iff takeWhile_eq_all_conv [THEN iffD2])
  then show ?thesis using assms(1,2) by (simp add: mod_userlist_def Let_def)
qed

lemma union_chain: "C \<subseteq> B \<union> N \<Longrightarrow> D \<subseteq> C \<union> R \<Longrightarrow> A = N \<union> R \<Longrightarrow> D \<subseteq> B \<union> A"
  by blast

text \<open>A group the bot knows after any run was known before, or was created on a message of a sender
who was allowed to: the configuration opens the creation to all, or to home users and he was one, or he
is the administrator.\<close>

theorem groups_permitted:
  assumes "run_bot B evs b = (e, b')"
  shows "set (bt_objects b') \<subseteq> set (bt_objects b) \<union>
    {(s, key). \<exists>T ev d. (T, ev) \<in> set evs \<and> bm_new_key T = (key, s) \<and>
       may_create_group B (event_text B ev ''pubkey'') (b\<lparr>bt_app := d\<rparr>)}"
  using assms
proof (induction evs arbitrary: b)
  case (Cons x evs)
  obtain T ev where x: "x = (T, ev)" by fastforce
  show ?case
  proof (cases "bt_active b")
    case True
    obtain e1 c where step: "bot_event B T ev b = (e1, c)" by fastforce
    note one = bot_event_groups [OF step]
    have may: "may_create_group B p (c\<lparr>bt_app := d\<rparr>) = may_create_group B p (b\<lparr>bt_app := d\<rparr>)" for p d
      using one by (simp add: may_create_group_def same_bot_def)
    have c: "set (bt_objects c) \<subseteq> set (bt_objects b) \<union> {(s, key). bm_new_key T = (key, s) \<and>
        (\<exists>d. may_create_group B (event_text B ev ''pubkey'') (b\<lparr>bt_app := d\<rparr>))}"
      using one
    proof (elim conjE disjE)
      assume new: "new_group T b c" and may: "may_create_group B (event_text B ev ''pubkey'') b"
      have "set (bt_objects c) = insert (snd (bm_new_key T), fst (bm_new_key T)) (set (bt_objects b))"
        using new by (simp add: new_group_def)
      moreover have "\<exists>d. may_create_group B (event_text B ev ''pubkey'') (b\<lparr>bt_app := d\<rparr>)"
        using may by (intro exI [of _ "bt_app b"]) simp
      ultimately show ?thesis by auto
    qed auto
    have "set (bt_objects b') \<subseteq> set (bt_objects c) \<union>
        {(s, key). \<exists>T ev d. (T, ev) \<in> set evs \<and> bm_new_key T = (key, s) \<and>
          may_create_group B (event_text B ev ''pubkey'') (b\<lparr>bt_app := d\<rparr>)}"
    proof (cases e1)
      case None
      then have "run_bot B evs c = (e, b')" using Cons.prems x step True by (simp add: bot_then_def)
      from Cons.IH [OF this] show ?thesis by (simp only: may)
    next
      case (Some y)
      then show ?thesis using Cons.prems x step True by (simp add: bot_then_def)
    qed
    moreover have "{(s, key). \<exists>T' ev' d. (T', ev') \<in> set (x # evs) \<and> bm_new_key T' = (key, s) \<and>
          may_create_group B (event_text B ev' ''pubkey'') (b\<lparr>bt_app := d\<rparr>)} =
        {(s, key). bm_new_key T = (key, s) \<and>
          (\<exists>d. may_create_group B (event_text B ev ''pubkey'') (b\<lparr>bt_app := d\<rparr>))} \<union>
        {(s, key). \<exists>T ev d. (T, ev) \<in> set evs \<and> bm_new_key T = (key, s) \<and>
          may_create_group B (event_text B ev ''pubkey'') (b\<lparr>bt_app := d\<rparr>)}"
      unfolding x by auto
    ultimately show ?thesis by (rule union_chain [OF c])
  qed (use Cons.prems x in simp)
qed simp

section \<open>Examples\<close>

text \<open>Messages in plain text between texts as keys; the storage has one list, naming the owner.\<close>

definition plain_message :: "string \<Rightarrow> string \<Rightarrow> string \<Rightarrow> json" where
  "plain_message sender target text_of =
     JObject [(''kind'', JNumber 4), (''pubkey'', JString sender), (''content'', JString text_of),
       (''tags'', JArray [JArray [JString ''p'', JString target]])]"

definition owner_list :: json where
  "owner_list = JObject [(''tags'', JArray [JArray [JString ''p'', JString ''olga'']])]"

definition json_bot :: "(json, nat) bot_ops" where
  "json_bot =
     \<lparr>bo_json = json_ref, bo_from_json = (\<lambda>_. None), bo_list = JArray, bo_trim = id,
      bo_find_tag_if = (\<lambda>ev p. find p (ref_array (ref_field ev ''tags''))),
      bo_create_event = (\<lambda>kind content tags. JObject [(''kind'', JNumber (int kind)), (''content'', JString content),
        (''tags'', JArray (map (\<lambda>t. JArray (map JString t)) tags))]),
      bo_sign = (\<lambda>_ ev. ev), bo_calculate_pubkey = (\<lambda>_. ''bot''),
      bo_decrypt = (\<lambda>_ ev. Some (ref_string (ref_field ev ''content''))),
      bo_create_message = (\<lambda>_ target response _ _. Some (plain_message ''bot'' target response)),
      bo_publish = (\<lambda>_ n. Inr (n + 1)),
      bo_find_replacable = (\<lambda>_ _ kind cat. if kind = 30000 \<and> cat = ''owner'' then 1 else 0),
      bo_storage_find = (\<lambda>_ i. if i = 1 then Some owner_list else None),
      bo_erase = (\<lambda>_ n. Inr n), bo_last = (\<lambda>_ _. None), bo_is_home_user = (\<lambda>_ u. u = ''home'')\<rparr>"

definition bot_time :: bot_moment where
  "bot_time = \<lparr>bm_now = 7, bm_new_key = ([1], ''group''), bm_mem = (\<lambda>_. 0)\<rparr>"

definition group_bot :: "(json, nat) bot" where
  "group_bot =
     \<lparr>bt_cfg = \<lparr>rb_nsec = ''nsec'', rb_admin = [], rb_this_relay_url = ''ws://r'', rb_groups = ''local''\<rparr>,
      bt_pk = [2], bt_public_key = ''bot'', bt_admin_public_key = ''anna'', bt_active = True, bt_objects = [],
      bt_app = 0, bt_published = []\<rparr>"

lemma json_bot_simps [simp]:
  "bo_json json_bot = json_ref" "bo_trim json_bot = id" "bo_calculate_pubkey json_bot k = ''bot''"
  "bo_find_tag_if json_bot ev p = find p (ref_array (ref_field ev ''tags''))" "bo_sign json_bot k ev = ev"
  "bo_decrypt json_bot k ev = Some (ref_string (ref_field ev ''content''))"
  "bo_create_message json_bot k target response t skelet = Some (plain_message ''bot'' target response)"
  "bo_publish json_bot ev n = Inr (n + 1)" "bo_is_home_user json_bot n u \<longleftrightarrow> u = ''home''"
  "bo_find_replacable json_bot n q kind cat = (if kind = 30000 \<and> cat = ''owner'' then 1 else 0)"
  "bo_storage_find json_bot n i = (if i = 1 then Some owner_list else None)"
  by (simp_all add: json_bot_def)

lemma json_bot_reads:
  "event_text json_bot (plain_message u t m) ''pubkey'' = u" "event_kind json_bot (plain_message u t m) = 4"
  "ref_field (plain_message u t m) ''content'' = JString m" "tag_text json_bot (JArray [JString a, JString c]) 0 = a"
  "tag_text json_bot (JArray [JString a, JString c]) 1 = c"
  "find_object_pubkey json_bot (plain_message u ''bot'' m) b = (if ''bot'' = bt_public_key b \<or> map_of (bt_objects b) ''bot'' \<noteq> None then ''bot'' else [])"
  by (simp_all add: event_text_def event_kind_def plain_message_def tag_text_def find_object_pubkey_def) (simp_all add: json_ref_def)

lemma json_bot_response:
  "send_response json_bot t k target response skelet b =
     (None, b\<lparr>bt_app := bt_app b + 1, bt_published := bt_published b @ [plain_message ''bot'' target response]\<rparr>)"
  by (simp add: send_response_def bot_publish_def)

lemma json_bot_lists:
  "set (get_user_list json_bot n p 30000 ''owner'') = {''olga''}" "get_user_list json_bot n p 30000 ''moderator'' = []"
  "get_user_list json_bot n p 10000 [] = []"
  by (simp_all add: get_user_list_def owner_list_def event_tags_def tag_text_def json_ref_def)


definition create_messages :: "(bot_moment \<times> json) list" where
  "create_messages =
     [(bot_time, plain_message ''home'' ''bot'' ''/create_group''), (bot_time, plain_message ''away'' ''bot'' ''/create_group'')]"

text \<open>What matters of a state: the configuration, the keys, that it is active, and its groups.\<close>

definition bot_like :: "(string \<times> bytes) list \<Rightarrow> (json, nat) bot \<Rightarrow> bool" where
  "bot_like groups b \<longleftrightarrow>
     bt_cfg b = bt_cfg group_bot \<and> bt_pk b = [2] \<and> bt_public_key b = ''bot'' \<and> bt_admin_public_key b = ''anna'' \<and>
     bt_active b \<and> bt_objects b = groups"

lemma create_message_step:
  assumes "bot_like groups b" "u \<noteq> ''anna''"
  shows "fst (bot_event json_bot bot_time (plain_message u ''bot'' ''/create_group'') b) = None \<and>
    bot_like (if u = ''home'' then (''group'', [1]) # groups else groups)
      (snd (bot_event json_bot bot_time (plain_message u ''bot'' ''/create_group'') b))"
proof -
  have cfg: "rb_groups (bt_cfg b) = ''local''" "rb_this_relay_url (bt_cfg b) = ''ws://r''" "bm_new_key bot_time = ([1], ''group'')"
    using assms(1) by (simp_all add: bot_like_def group_bot_def bot_time_def)
  have "bot_event json_bot bot_time (plain_message u ''bot'' ''/create_group'') b
      = (if u = ''home'' then create_group json_bot bot_time u b else say json_bot bot_time (bt_pk b) u ''restricted'' b)"
    using assms(1,2) cfg(1) unfolding bot_like_def
    by (elim conjE) (simp only: bot_event_def process_message_def json_bot_reads process_relaybot_command_def
        may_create_group_def, simp add: group_bot_def json_bot_reads)
  moreover have "fst (create_group json_bot bot_time u b) = None \<and>
      bot_like ((''group'', [1]) # groups) (snd (create_group json_bot bot_time u b))"
    using assms(1) unfolding create_group_def Let_def cfg prod.case
    by (simp add: bot_publish_def bot_then_def json_bot_response bot_like_def)
  moreover have "fst (say json_bot bot_time k u m b) = None \<and> bot_like groups (snd (say json_bot bot_time k u m b))" for k m
    using assms(1) by (simp add: json_bot_response bot_like_def)
  ultimately show ?thesis by (cases "u = ''home''") simp_all
qed

lemma groups_created: "bt_objects (snd (run_bot json_bot create_messages group_bot)) = [(''group'', [1])]"
proof -
  have start: "bot_like [] group_bot" by (simp add: bot_like_def group_bot_def)
  obtain b where b: "bot_event json_bot bot_time (plain_message ''home'' ''bot'' ''/create_group'') group_bot = (None, b)"
    "bot_like [(''group'', [1])] b"
    using create_message_step [OF start, of "''home''"] by (cases "bot_event json_bot bot_time (plain_message ''home'' ''bot'' ''/create_group'') group_bot") simp
  obtain c where c: "bot_event json_bot bot_time (plain_message ''away'' ''bot'' ''/create_group'') b = (None, c)"
    "bot_like [(''group'', [1])] c"
    using create_message_step [OF b(2), of "''away''"] by (cases "bot_event json_bot bot_time (plain_message ''away'' ''bot'' ''/create_group'') b") simp
  show ?thesis
    using start b c by (simp add: create_messages_def bot_then_def bot_like_def)
qed

lemma groups_permitted_witness:
  "bt_objects (snd (run_bot json_bot create_messages group_bot)) = [(''group'', [1])] \<and>
   {''home'', ''away''} \<inter> {u. \<exists>d. may_create_group json_bot u (group_bot\<lparr>bt_app := d\<rparr>)} \<noteq> {}"
proof -
  obtain e b' where run: "run_bot json_bot create_messages group_bot = (e, b')" by fastforce
  then have "set [(''group'', [1])] \<subseteq> set (bt_objects group_bot) \<union>
    {(s, key). \<exists>T ev d. (T, ev) \<in> set create_messages \<and> bm_new_key T = (key, s) \<and>
       may_create_group json_bot (event_text json_bot ev ''pubkey'') (group_bot\<lparr>bt_app := d\<rparr>)}"
    using groups_permitted [OF run] groups_created by simp
  moreover have "bt_objects group_bot = []" by (simp add: group_bot_def)
  ultimately show ?thesis using groups_created by (auto simp: create_messages_def json_bot_reads)
qed

end
