(* ===== verification/Replication.thy ===== *)
theory Replication
  imports App
begin

text \<open>
  \<^verbatim>\<open>src/src/nostr_server/replication.h\<close> and \<^verbatim>\<open>replication.cpp\<close>: a draft of a service that sends the
  stored documents to other relays. It is not part of the build, and names a member \<open>task_name\<close> the
  configuration does not have. Its index keeps one row per task, the position in the storage; the
  storage is a list of numbered documents, and what the timer and the connections give is an argument.

  The lemmas: the rows of removed tasks go and no other, and each connection is sent the documents
  from the stored position on, the same ones every time, because the position is never written.
\<close>

section \<open>The rows of the tasks\<close>

record replication_task =
  rt_task_name :: string
  rt_relay_url :: string

type_synonym replication_index = "(string \<times> docid) list"

text \<open>\<open>start\<close> does nothing without tasks, the rows included.\<close>

definition replication_start :: "replication_task list \<Rightarrow> replication_index \<Rightarrow> replication_index" where
  "replication_start cfg ix =
     (if cfg = [] then ix
      else let active = set (map rt_task_name cfg) in filter (\<lambda>(name, _). name \<in> active) ix)"

section \<open>A task\<close>

text \<open>\<open>None\<close> ends the task.\<close>

definition replication_url :: "string \<Rightarrow> string option" where
  "replication_url relay =
     (if take 3 relay = ''ws:'' then Some (''http:'' @ drop 3 relay)
      else if take 4 relay = ''wss:'' then Some (''https:'' @ drop 4 relay)
      else None)"

definition replication_send :: "'j json_ops \<Rightarrow> 'j \<Rightarrow> string" where
  "replication_send J msgdata = j_to_json_utf8 J (mk_array J [mk_string J ''EVENT'', msgdata])"

text \<open>\<open>docs\<close> are the documents of the storage by number; \<open>select_from\<close> starts at the number given.\<close>

definition run_replication ::
    "'j json_ops \<Rightarrow> replication_index \<Rightarrow> string \<Rightarrow> (docid \<times> 'j) list \<Rightarrow> string list" where
  "run_replication J ix name docs =
     (let ids = (case map_of ix name of Some x \<Rightarrow> x | None \<Rightarrow> 0)
      in map (\<lambda>(_, content). replication_send J content) (filter (\<lambda>(n, _). ids \<le> n) docs))"

text \<open>
  One turn of the loop: the timer is closed, or the relay could (not) be connected while the storage
  held some documents. The result is what is sent on each connection.
\<close>

datatype 'j turn = Timer_closed | Not_connected | Connected "(docid \<times> 'j) list"

fun replication_turns :: "'j json_ops \<Rightarrow> replication_index \<Rightarrow> string \<Rightarrow> 'j turn list \<Rightarrow> string list list" where
  "replication_turns J ix name [] = []"
| "replication_turns J ix name (Timer_closed # ts) = []"
| "replication_turns J ix name (Not_connected # ts) = replication_turns J ix name ts"
| "replication_turns J ix name (Connected docs # ts) =
     run_replication J ix name docs # replication_turns J ix name ts"

definition start_replication_task ::
    "'j json_ops \<Rightarrow> replication_index \<Rightarrow> string \<Rightarrow> string \<Rightarrow> 'j turn list \<Rightarrow> string list list" where
  "start_replication_task J ix name relay ts =
     (case replication_url relay of None \<Rightarrow> [] | Some url \<Rightarrow> replication_turns J ix name ts)"

section \<open>What it does\<close>

lemma replication_start_rows:
  "cfg \<noteq> [] \<Longrightarrow> map_of (replication_start cfg ix) name
     = (if name \<in> set (map rt_task_name cfg) then map_of ix name else None)"
  by (induction ix) (auto simp: replication_start_def Let_def)

text \<open>Both schemes give the address of the web server; anything else ends the task.\<close>

lemma replication_url_schemes:
  "replication_url (''ws://'' @ host) = Some (''http://'' @ host)"
  "replication_url (''wss://'' @ host) = Some (''https://'' @ host)"
  "replication_url relay = Some url \<Longrightarrow> \<exists>rest. relay = ''ws:'' @ rest \<or> relay = ''wss:'' @ rest"
proof -
  show "replication_url relay = Some url \<Longrightarrow> \<exists>rest. relay = ''ws:'' @ rest \<or> relay = ''wss:'' @ rest"
    unfolding replication_url_def by (metis append_take_drop_id option.distinct(1))
qed (simp_all add: replication_url_def)

lemma replication_repeats:
  "\<forall>t \<in> set ts. t = Not_connected \<or> t = Connected docs \<Longrightarrow>
   replication_turns J ix name ts = replicate (count_list ts (Connected docs)) (run_replication J ix name docs)"
  by (induction ts) auto

end
