(* ===== verification/Spec2Isabelle.thy ===== *)
theory Spec2Isabelle
  imports Bech32_Roundtrip Signature_Roundtrip Event_Document Peer_Pow Peer_Invariant
    Bech32_C Telemetry_Util Telemetry_Def App_Http Signature_Crypt Follower Relay_Bot Replication
begin

text \<open>
  A verification development of the nostr relay \<^verbatim>\<open>nostr_server\<close> (C++). Every definition is
  translated from the files under \<^verbatim>\<open>src/src/nostr_server\<close> and \<^verbatim>\<open>src/src/telemetry\<close>; this theory imports
  all others and holds this overview.

  \<^bold>\<open>The program.\<close> Clients connect by web socket. A connection (\<open>Peer\<close>) parses their messages,
  checks events (rate, proof of work, signature, whitelist) and asks the shared application object
  (\<open>App\<close>) to store them, to search for them and to pass new ones on to all other connections. The
  application stands on a document database with indexes it derives from each document. Files are
  sent as binary messages after they were announced and can be fetched again by command or as a web
  page. Beside this the relay serves a few pages and collects measurements in the OpenMetrics format.

  \<^bold>\<open>Common ground.\<close> \<open>Nostr_Prelude\<close> (words, bytes, generic lemmas), \<open>Std_Text\<close> (number texts, C
  strings and \<open>strtoul\<close> of the standard library), \<open>Nostr_Codec\<close> (locales \<open>codec\<close> and \<open>stream_codec\<close>:
  the contract of a reader for what a writer wrote, interpreted by the hexadecimal, bech32, bit
  regrouping and document formats), \<open>Checksum_Register\<close> (locale of a linear shift-register checksum).

  \<^bold>\<open>Texts and keys.\<close>
  \<^item> \<open>Nostr_Binary\<close> is \<^verbatim>\<open>binary.h\<close>; what \<open>from_hex\<close> leaves unwritten is an argument \<open>u\<close>.
  \<^item> \<open>Bech32_Lib\<close>, \<open>Bech32_Checksum\<close>, \<open>Bech32_Roundtrip\<close> are the C++ part of \<^verbatim>\<open>bech32.cpp\<close>: round trip,
    canonical form, exact domain of \<open>encode\<close>, and that one wrong character is always detected.
    \<open>Bech32_C\<close> holds its C functions, with buffers as lists of cells that a write must not leave.
  \<^item> \<open>Signature\<close>, \<open>Signature_Roundtrip\<close> are the key texts and the event signature of \<^verbatim>\<open>signature.cpp\<close>, the
    curve operations being a record of functions; \<open>Signature_Crypt\<close> is the encryption of messages.

  \<^bold>\<open>Events and filters.\<close>
  \<^item> \<open>Nostr_Kinds\<close> (\<^verbatim>\<open>kinds.h\<close>), \<open>Event\<close> (\<^verbatim>\<open>event.h\<close>, \<^verbatim>\<open>event.cpp\<close>), \<open>Event_Tags\<close> (the open-addressing table of
    the tags finds exactly the first tag; locale \<open>tag_lookup\<close>), \<open>Event_Json\<close> (reading and writing, the
    identifier is the hash of the content), \<open>Event_Document\<close> (the stored form).
  \<^item> \<open>Filter_Spec\<close> (\<^verbatim>\<open>filter.h\<close>, \<^verbatim>\<open>filter.cpp\<close>): the filter test decides the condition of the protocol.
  \<^item> \<open>Json_Ops\<close> is the interface of the JSON library, with its laws and a reference instance.

  \<^bold>\<open>The application.\<close>
  \<^item> \<open>App_Index\<close>, \<open>Karma_Index\<close> (\<^verbatim>\<open>whitelist_impl.h\<close>), \<open>Routing\<close> (\<^verbatim>\<open>routing_imp.h\<close>), \<open>Fulltext\<close>
    (\<^verbatim>\<open>fulltext.cpp\<close>): the rows each index derives from a document.
  \<^item> \<open>App\<close> (\<^verbatim>\<open>app.cpp\<close>): the state \<open>app\<close> and its operations over the database \<open>db_ops\<close>, whose promises are
    \<open>db_laws\<close>; \<open>App_Store\<close>: publishing refines an abstract set of events with one event per
    replaceable key; \<open>App_Search\<close>: the search finds every stored event that matches.
  \<^item> \<open>App_Http\<close>: the web pages.
  \<^item> \<open>Mem_Db\<close>, \<open>Mem_Search\<close>, \<open>Sample_Env\<close>: a database in memory that satisfies the laws, for the examples.

  \<^bold>\<open>The connection.\<close>
  \<^item> \<open>Rate_Limiter\<close> (\<^verbatim>\<open>rate_limiter.cpp\<close>) refines a window over the whole history.
  \<^item> \<open>Peer_State\<close>, \<open>Peer_Commands\<close>, \<open>Peer_Session\<close> (\<^verbatim>\<open>peer.h\<close>, \<^verbatim>\<open>peer.cpp\<close>, \<^verbatim>\<open>protocol.h\<close>): the state, every
    handler, the dispatch, and \<open>session\<close>, the states reachable by messages, deliveries and other
    connections in any order.
  \<^item> \<open>Peer_Pow\<close>, \<open>Peer_Publish\<close> (locale \<open>event_callback\<close>, the contract of what follows the checks),
    \<open>Peer_Query\<close>, \<open>Peer_Files\<close>, \<open>Peer_Invariant\<close>: what the commands promise, in every reachable state.

  \<^bold>\<open>Telemetry.\<close>
  \<^item> \<open>Decimal\<close> (\<^verbatim>\<open>decimal.h\<close>), \<open>Open_Metrics\<close> and \<open>Open_Metrics_Text\<close> (\<^verbatim>\<open>MetricPoint.h\<close> and the rendering of
    \<^verbatim>\<open>Collector.cpp\<close>, against the grammar of the format), \<open>Collector\<close> and \<open>Collector_Sensors\<close> (\<^verbatim>\<open>sensor.h\<close>,
    \<^verbatim>\<open>typemap.h\<close>, the registry of \<^verbatim>\<open>Collector.cpp\<close>), \<open>Telemetry_Def\<close> (\<^verbatim>\<open>telemetry_def.cpp\<close>).
  \<^item> \<open>Telemetry_Util\<close>: the small templates (\<^verbatim>\<open>branchless.h\<close>, \<^verbatim>\<open>avg_aggreg.h\<close>, \<^verbatim>\<open>any_ref.h\<close>, \<^verbatim>\<open>typemap.h\<close>).

  \<^bold>\<open>The process.\<close>
  \<^item> \<open>Start\<close> (\<^verbatim>\<open>config.h\<close>, \<^verbatim>\<open>main.cpp\<close>): the configuration file and what each entry becomes, TLS, the exit
    status, the log of a connection.

  \<^bold>\<open>Services that are not part of the build.\<close> They are written against other versions of the
  interfaces; what they call and nobody defines is a parameter.
  \<^item> \<open>Follower\<close> (\<^verbatim>\<open>follower.cpp\<close>): what it fetches from other relays refines the abstract store of
    \<open>App_Store\<close>, event by event.
  \<^item> \<open>Relay_Bot\<close> (\<^verbatim>\<open>relay_bot.cpp\<close>): the commands of groups and who may give them.
  \<^item> \<open>Replication\<close> (\<^verbatim>\<open>replication.cpp\<close>): what is sent to other relays.

  \<^bold>\<open>Conventions.\<close> Integers keep the width of the code. An exception is a value: \<open>option\<close> or a sum with
  an error type; undefined behaviour is a value too where a property depends on its absence
  (\<open>OutOfBounds\<close> in \<open>Peer_State\<close>, \<open>UndefinedBehaviour\<close> in \<open>Open_Metrics\<close>, a failed write in \<open>Bech32_C\<close>).
  Indeterminate memory, the clock, random numbers and the success of writes are arguments.
  Libraries that are not in the repository are records of operations with named laws.

  \<^bold>\<open>Loops.\<close> The probing loops of the tag table (\<open>free_slot\<close>, \<open>find_slot\<close>) get as fuel the length of the
  table: each turn moves to the next slot, and the table has a free one (\<open>free_slot_returns\<close>,
  \<open>find_slot_finds\<close>). \<open>widen\<close> gets the length of the text, each character taking at least one byte
  (\<open>widen_returns\<close>). The reader of rendered labels, part of the specification, gets the length of the
  text too. Three loops need not end and are a \<open>partial_function\<close>: the reader of the database levels
  (\<open>Telemetry_Def\<close> says exactly when it does), the search for a random key (\<open>Signature_Crypt\<close>), and the
  division of the users in \<open>Follower\<close>, which ends unless the rows have size 0. All other loops are
  structural or have a measure.

  \<^bold>\<open>Not modelled.\<close> The web server and event loop \<^verbatim>\<open>main.cpp\<close> starts, and the wait for a signal; the loops
  of \<^verbatim>\<open>follower.cpp\<close> that start its fetchers again and \<open>prepare_tasks\<close> behind its choice of relays (it
  ends without a result); tracers, and the histogram over files that are not in the repository;
  floating-point conversions of \<^verbatim>\<open>decimal.h\<close>. A handler is one step: deliveries and other connections are interleaved
  between handlers, not inside one. (The code locks the subscriptions of a connection in \<open>on_req\<close>,
  \<open>on_close\<close> and the delivery; between its other look-ups and writes another connection can act.)
\<close>

section \<open>From one client to another\<close>


lemma publish_stored_sample:
  "publish mem_ops stored_sample (Some 1) empty_app =
     Inr (empty_app\<lparr>app_db := sample_db, app_published := [(stored_sample, Some 1)]\<rparr>)"
  by (simp add: publish_def doc_to_replace_def index_by_author_kind_def kind_defs
      storage_put_def mem_ops_def mem_commit_def empty_app_def empty_db_def mem_unique_def sample_db_def
      index_rows_def index_by_id_def attachment_ids_def app_publish_event_def Let_def)

lemma sample_event_stored:
  "app_db (snd (on_event sample_env sample_moment event_message (sample_peer, empty_app))) = sample_db"
proof -
  have parsed: "fromStructured json_ref (\<lambda>_. replicate 32 3) (\<lambda>_. 0) (\<lambda>_ _. 0)
      (toStructured json_ref sample_event) = Inr stored_sample"
    unfolding stored_sample_def by (rule sample_event_parsed)
  have none: "find_event_by_id mem_ops empty_app i = 0" for i
    by (simp add: find_event_by_id_def mem_ops_def empty_app_def empty_db_def index_rows_def)
  have limit: "fst (test_and_add \<lparr>window_size = 10, window_limit = 2, queue = []\<rparr> 0)"
    by (simp add: test_and_add_def)
  have options: "opt_pow sample_options = 0" "read_only sample_options = False" "whitelisting sample_options = False"
    by (simp_all add: sample_options_def)
  show ?thesis
    using publish_stored_sample limit event_message_item
    by (auto simp: on_event_def on_event_generic_def process_event_def process_verified_def
        publish_verified_def parsed none options Let_def case_prod_unfold
        simp del: One_nat_def)
qed


end
